theory Spec2Isabelle
  imports Complex_Main "HOL-Library.List_Lexorder"
begin

section \<open>JavaScript numbers\<close>

text \<open>
  A JavaScript Number is NaN, one of the two infinities, or a finite number: \<open>Fin x\<close> is
  the number whose value is the real \<open>x\<close>. Every arithmetic operation below computes the
  exact result and rounds it with \<open>round64\<close>, as IEEE 754 prescribes: to the nearest
  double, to the one with the even significand when two are equally near, and to an
  infinity when the rounded result exceeds the largest double. So does the reading of a
  decimal literal and of a string. The two zeros are one number here, so a division by
  the negative zero has the sign of a division by zero.
\<close>

datatype jsnum = NaN | NegInf | Fin real | PosInf

text \<open>The integer nearest to \<open>q\<close>, the even one of two equally near.\<close>

definition roundEven :: "real \<Rightarrow> int" where
  "roundEven q =
     (let f = \<lfloor>q\<rfloor>
      in if q - of_int f < 1 / 2 then f
         else if 1 / 2 < q - of_int f then f + 1
         else if even f then f else f + 1)"

text \<open>
  The exponent of the power of two at or below a positive \<open>x\<close>, and not less than the
  exponent of the smallest normal double: the doubles between \<open>2 ^ e\<close> and \<open>2 ^ (e + 1)\<close>
  are the multiples of \<open>2 ^ (e - 52)\<close>, and those below \<open>2 ^ - 1022\<close> the multiples of
  \<open>2 ^ - 1074\<close>.
\<close>

definition binade :: "real \<Rightarrow> int" where
  "binade x = max (- 1022) \<lfloor>log 2 x\<rfloor>"

definition roundPos :: "real \<Rightarrow> jsnum" where
  "roundPos x =
     (if x = 0 then Fin 0
      else let ulp = 2 powi (binade x - 52);
               y = of_int (roundEven (x / ulp)) * ulp
           in if 2 ^ 1024 \<le> y then PosInf else Fin y)"

fun jneg :: "jsnum \<Rightarrow> jsnum" where
  "jneg NaN = NaN"
| "jneg NegInf = PosInf"
| "jneg PosInf = NegInf"
| "jneg (Fin a) = Fin (- a)"

definition round64 :: "real \<Rightarrow> jsnum" where
  "round64 x = (if x < 0 then jneg (roundPos (- x)) else roundPos x)"

fun jadd :: "jsnum \<Rightarrow> jsnum \<Rightarrow> jsnum" where
  "jadd (Fin a) (Fin b) = round64 (a + b)"
| "jadd NaN _ = NaN"
| "jadd _ NaN = NaN"
| "jadd PosInf NegInf = NaN"
| "jadd NegInf PosInf = NaN"
| "jadd PosInf _ = PosInf"
| "jadd _ PosInf = PosInf"
| "jadd NegInf _ = NegInf"
| "jadd _ NegInf = NegInf"

definition jsub :: "jsnum \<Rightarrow> jsnum \<Rightarrow> jsnum" where
  "jsub a b = jadd a (jneg b)"

fun jmul :: "jsnum \<Rightarrow> jsnum \<Rightarrow> jsnum" where
  "jmul (Fin a) (Fin b) = round64 (a * b)"
| "jmul NaN _ = NaN"
| "jmul _ NaN = NaN"
| "jmul PosInf PosInf = PosInf"
| "jmul PosInf NegInf = NegInf"
| "jmul NegInf PosInf = NegInf"
| "jmul NegInf NegInf = PosInf"
| "jmul PosInf (Fin b) = (if b = 0 then NaN else if 0 < b then PosInf else NegInf)"
| "jmul NegInf (Fin b) = (if b = 0 then NaN else if 0 < b then NegInf else PosInf)"
| "jmul (Fin a) PosInf = (if a = 0 then NaN else if 0 < a then PosInf else NegInf)"
| "jmul (Fin a) NegInf = (if a = 0 then NaN else if 0 < a then NegInf else PosInf)"

text \<open>\<^verbatim>\<open>a <= b\<close>: false as soon as one side is NaN.\<close>

fun jle :: "jsnum \<Rightarrow> jsnum \<Rightarrow> bool" where
  "jle (Fin a) (Fin b) = (a \<le> b)"
| "jle NaN _ = False"
| "jle _ NaN = False"
| "jle NegInf _ = True"
| "jle _ PosInf = True"
| "jle PosInf _ = False"
| "jle _ NegInf = False"

text \<open>\<^verbatim>\<open>a >= b\<close>.\<close>

definition jge :: "jsnum \<Rightarrow> jsnum \<Rightarrow> bool" where
  "jge a b = jle b a"

text \<open>\<^verbatim>\<open>Math.min\<close> and \<^verbatim>\<open>Math.max\<close> of two arguments: NaN when one of them is.\<close>

definition Math_min :: "jsnum \<Rightarrow> jsnum \<Rightarrow> jsnum" where
  "Math_min a b = (if a = NaN \<or> b = NaN then NaN else if jle a b then a else b)"

definition Math_max :: "jsnum \<Rightarrow> jsnum \<Rightarrow> jsnum" where
  "Math_max a b = (if a = NaN \<or> b = NaN then NaN else if jle a b then b else a)"

text \<open>\<^verbatim>\<open>Number.isFinite\<close> on a Number, and the truthiness \<^verbatim>\<open>!n\<close> negates.\<close>

fun Number_isFinite :: "jsnum \<Rightarrow> bool" where
  "Number_isFinite (Fin _) = True"
| "Number_isFinite _ = False"

fun truthy :: "jsnum \<Rightarrow> bool" where
  "truthy NaN = False"
| "truthy (Fin a) = (a \<noteq> 0)"
| "truthy _ = True"

text \<open>\<^verbatim>\<open>a / b\<close> and \<^verbatim>\<open>Math.abs\<close>.\<close>

fun jdiv :: "jsnum \<Rightarrow> jsnum \<Rightarrow> jsnum" where
  "jdiv (Fin a) (Fin b) =
     (if b \<noteq> 0 then round64 (a / b)
      else if a = 0 then NaN else if 0 < a then PosInf else NegInf)"
| "jdiv NaN _ = NaN"
| "jdiv _ NaN = NaN"
| "jdiv PosInf PosInf = NaN"
| "jdiv PosInf NegInf = NaN"
| "jdiv NegInf PosInf = NaN"
| "jdiv NegInf NegInf = NaN"
| "jdiv (Fin a) PosInf = Fin 0"
| "jdiv (Fin a) NegInf = Fin 0"
| "jdiv PosInf (Fin b) = (if b < 0 then NegInf else PosInf)"
| "jdiv NegInf (Fin b) = (if b < 0 then PosInf else NegInf)"

fun Math_abs :: "jsnum \<Rightarrow> jsnum" where
  "Math_abs NaN = NaN"
| "Math_abs (Fin a) = Fin \<bar>a\<bar>"
| "Math_abs _ = PosInf"

section \<open>Strings and their coercion to numbers\<close>

text \<open>
  A string is the UTF-8 encoding of its text, as the file holds it. \<open>whiteSpace\<close> lists
  the encodings of the code points \<^verbatim>\<open>String.prototype.trim\<close> and the numeric coercion
  strip, ECMAScript's WhiteSpace and LineTerminator: TAB, LF, VT, FF, CR, SP, U+00A0,
  U+1680, U+2000 to U+200A, U+2028, U+2029, U+202F, U+205F, U+3000 and U+FEFF.
\<close>

definition whiteSpace :: "string list" where
  "whiteSpace =
     [[CHR 0x09], [CHR 0x0A], [CHR 0x0B], [CHR 0x0C], [CHR 0x0D], [CHR 0x20],
      [CHR 0xC2, CHR 0xA0],
      [CHR 0xE1, CHR 0x9A, CHR 0x80],
      [CHR 0xE2, CHR 0x80, CHR 0x80], [CHR 0xE2, CHR 0x80, CHR 0x81],
      [CHR 0xE2, CHR 0x80, CHR 0x82], [CHR 0xE2, CHR 0x80, CHR 0x83],
      [CHR 0xE2, CHR 0x80, CHR 0x84], [CHR 0xE2, CHR 0x80, CHR 0x85],
      [CHR 0xE2, CHR 0x80, CHR 0x86], [CHR 0xE2, CHR 0x80, CHR 0x87],
      [CHR 0xE2, CHR 0x80, CHR 0x88], [CHR 0xE2, CHR 0x80, CHR 0x89],
      [CHR 0xE2, CHR 0x80, CHR 0x8A],
      [CHR 0xE2, CHR 0x80, CHR 0xA8], [CHR 0xE2, CHR 0x80, CHR 0xA9],
      [CHR 0xE2, CHR 0x80, CHR 0xAF],
      [CHR 0xE2, CHR 0x81, CHR 0x9F],
      [CHR 0xE3, CHR 0x80, CHR 0x80],
      [CHR 0xEF, CHR 0xBB, CHR 0xBF]]"

text \<open>
  \<open>trimStartWith ws s\<close> takes from the front of \<open>s\<close> every string of \<open>ws\<close> it starts
  with, one after the other. \<open>trim\<close> does so at both ends; an encoding read backwards
  from the end of a text is an encoding of the list reversed.
\<close>

function trimStartWith :: "string list \<Rightarrow> string \<Rightarrow> string" where
  "trimStartWith ws s =
     (case find (\<lambda>w. w \<noteq> [] \<and> take (length w) s = w) ws of
        None \<Rightarrow> s
      | Some w \<Rightarrow> trimStartWith ws (drop (length w) s))"
  by pat_completeness auto
termination
proof (relation "measure (\<lambda>p. length (snd p))")
  fix ws :: "string list" and s w :: string
  assume "find (\<lambda>w. w \<noteq> [] \<and> take (length w) s = w) ws = Some w"
  then have "w \<noteq> []" and "take (length w) s = w" by (auto simp: find_Some_iff)
  then have "s \<noteq> []" and "0 < length w" by auto
  then show "((ws, drop (length w) s), (ws, s)) \<in> measure (\<lambda>p. length (snd p))" by simp
qed simp

declare trimStartWith.simps [simp del]

definition trim :: "string \<Rightarrow> string" where
  "trim s = rev (trimStartWith (map rev whiteSpace) (rev (trimStartWith whiteSpace s)))"

text \<open>The value of a digit, up to base 16.\<close>

definition digitOf :: "char \<Rightarrow> nat option" where
  "digitOf c =
     map_of (zip ''0123456789abcdef'' [0, 1, 2, 3, 4, 5, 6, 7, 8, 9, 10, 11, 12, 13, 14, 15]
             @ zip ''ABCDEF'' [10, 11, 12, 13, 14, 15]) c"

definition isDigitIn :: "nat \<Rightarrow> char \<Rightarrow> bool" where
  "isDigitIn base c = (case digitOf c of None \<Rightarrow> False | Some d \<Rightarrow> d < base)"

text \<open>A non-empty run of digits of the base, and its value.\<close>

definition digitsIn :: "nat \<Rightarrow> string \<Rightarrow> bool" where
  "digitsIn base ds = (ds \<noteq> [] \<and> list_all (isDigitIn base) ds)"

definition digitsVal :: "nat \<Rightarrow> string \<Rightarrow> nat" where
  "digitsVal base ds = foldl (\<lambda>a c. base * a + (case digitOf c of None \<Rightarrow> 0 | Some d \<Rightarrow> d)) 0 ds"

text \<open>
  \<^verbatim>\<open>ExponentPart\<close>: after the \<^verbatim>\<open>e\<close>, an optional sign and decimal digits. The result
  is the exponent, or \<open>None\<close> when the text is no exponent.
\<close>

definition signedInteger :: "string \<Rightarrow> int option" where
  "signedInteger s =
     (case s of
        [] \<Rightarrow> None
      | c # ds \<Rightarrow>
          if c = CHR ''-'' then (if digitsIn 10 ds then Some (- int (digitsVal 10 ds)) else None)
          else if c = CHR ''+'' then (if digitsIn 10 ds then Some (int (digitsVal 10 ds)) else None)
          else if digitsIn 10 s then Some (int (digitsVal 10 s)) else None)"

text \<open>
  The mantissa of a \<^verbatim>\<open>StrUnsignedDecimalLiteral\<close>: digits, digits with a fraction
  (\<^verbatim>\<open>12.\<close>, \<^verbatim>\<open>12.5\<close>) or a fraction alone (\<^verbatim>\<open>.5\<close>). It is the exact value of
  the digits; the value of the whole literal is rounded once, in \<open>unsignedDecimal\<close>.
\<close>

definition mantissa :: "string \<Rightarrow> real option" where
  "mantissa s =
     (let ip = takeWhile (\<lambda>c. c \<noteq> CHR ''.'') s;
          rest = dropWhile (\<lambda>c. c \<noteq> CHR ''.'') s
      in case rest of
           [] \<Rightarrow> if digitsIn 10 ip then Some (real (digitsVal 10 ip)) else None
         | _ # fp \<Rightarrow>
             if (ip = [] \<or> digitsIn 10 ip) \<and> (fp = [] \<or> digitsIn 10 fp) \<and> (ip \<noteq> [] \<or> fp \<noteq> [])
             then Some (real (digitsVal 10 ip) + real (digitsVal 10 fp) / 10 ^ length fp)
             else None)"

definition isExponentIndicator :: "char \<Rightarrow> bool" where
  "isExponentIndicator c = (c = CHR ''e'' \<or> c = CHR ''E'')"

definition unsignedDecimal :: "string \<Rightarrow> jsnum" where
  "unsignedDecimal s =
     (if s = ''Infinity'' then PosInf
      else
        let m = takeWhile (\<lambda>c. \<not> isExponentIndicator c) s;
            rest = dropWhile (\<lambda>c. \<not> isExponentIndicator c) s
        in case mantissa m of
             None \<Rightarrow> NaN
           | Some v \<Rightarrow>
               (case rest of
                  [] \<Rightarrow> round64 v
                | _ # ex \<Rightarrow>
                    (case signedInteger ex of
                       None \<Rightarrow> NaN
                     | Some n \<Rightarrow>
                         if 0 \<le> n then round64 (v * 10 ^ nat n)
                         else round64 (v / 10 ^ nat (- n)))))"

text \<open>
  \<^verbatim>\<open>StringToNumber\<close>: white space is trimmed, the empty string is \<open>0\<close>, then a signed
  decimal literal or an unsigned integer with a prefix \<^verbatim>\<open>0x\<close>, \<^verbatim>\<open>0o\<close> or \<^verbatim>\<open>0b\<close>; any
  other text is NaN. The exact value of the literal is rounded to a double: a literal
  beyond the largest double is an infinity, one below the smallest is 0.
\<close>

definition prefixed :: "nat \<Rightarrow> string \<Rightarrow> jsnum" where
  "prefixed base ds = (if digitsIn base ds then round64 (real (digitsVal base ds)) else NaN)"

definition StringToNumber :: "string \<Rightarrow> jsnum" where
  "StringToNumber str =
     (case trim str of
        [] \<Rightarrow> Fin 0
      | c # cs \<Rightarrow>
          if c = CHR ''-'' then jneg (unsignedDecimal cs)
          else if c = CHR ''+'' then unsignedDecimal cs
          else if c = CHR ''0'' \<and> cs \<noteq> [] \<and> (hd cs = CHR ''x'' \<or> hd cs = CHR ''X'') then prefixed 16 (tl cs)
          else if c = CHR ''0'' \<and> cs \<noteq> [] \<and> (hd cs = CHR ''o'' \<or> hd cs = CHR ''O'') then prefixed 8 (tl cs)
          else if c = CHR ''0'' \<and> cs \<noteq> [] \<and> (hd cs = CHR ''b'' \<or> hd cs = CHR ''B'') then prefixed 2 (tl cs)
          else unsignedDecimal (c # cs))"

text \<open>
  A property of a row that d3.csv parsed is a string, or \<^verbatim>\<open>undefined\<close> when the file has
  no such column: \<open>None\<close> is \<^verbatim>\<open>undefined\<close>. The unary \<^verbatim>\<open>+\<close> gives NaN on it.
\<close>

definition ToNumber :: "string option \<Rightarrow> jsnum" where
  "ToNumber v = (case v of None \<Rightarrow> NaN | Some s \<Rightarrow> StringToNumber s)"

text \<open>The conversion a template literal applies: \<^verbatim>\<open>`${v}`\<close>.\<close>

definition ToString :: "string option \<Rightarrow> string" where
  "ToString v = (case v of None \<Rightarrow> ''undefined'' | Some s \<Rightarrow> s)"

section \<open>Rows of the data set\<close>

text \<open>
  A row is an object with one string property for each column of the CSV file: an
  association list from column names to values, read with \<^verbatim>\<open>d[field]\<close>.
\<close>

type_synonym row = "(string \<times> string) list"

definition getField :: "row \<Rightarrow> string \<Rightarrow> string option" where
  "getField d field = map_of d field"

section \<open>The query circles\<close>

text \<open>
  \<^verbatim>\<open>let circleA = { x: mapWidth / 3, y: mapHeight / 2, radius: 50 }\<close>. The fields
  \<^verbatim>\<open>x\<close> and \<^verbatim>\<open>y\<close> are named \<open>xc\<close> and \<open>yc\<close> here.
\<close>

record circle =
  xc :: jsnum
  yc :: jsnum
  radius :: jsnum

text \<open>
  \<^verbatim>\<open>const mapWidth = 1968 / 2.4\<close>: a decimal literal of the source is the double
  nearest to it.
\<close>

definition mapWidth :: jsnum where
  "mapWidth = jdiv (Fin 1968) (round64 2.4)"

definition mapHeight :: jsnum where
  "mapHeight = jdiv (Fin 1580) (round64 2.4)"

text \<open>\<^verbatim>\<open>function isInCircle(px, py, circle)\<close> of \<^verbatim>\<open>script.js\<close> (radius in pixels).\<close>

definition isInCircle :: "jsnum \<Rightarrow> jsnum \<Rightarrow> circle \<Rightarrow> bool" where
  "isInCircle px py c =
     (let dx = jsub px (xc c);
          dy = jsub py (yc c)
      in jle (jadd (jmul dx dx) (jmul dy dy)) (jmul (radius c) (radius c)))"

subsection \<open>The variant with radii in kilometres\<close>

text \<open>
  The second source file keeps each radius in kilometres and converts it at every test.
  \<^verbatim>\<open>projection\<close> is the object \<^verbatim>\<open>d3.geoMercator().fitExtent(...)\<close> returns, a function
  of the d3 library from a pair (longitude, latitude) to a pair of pixels: it is a
  parameter here.
\<close>

type_synonym projection = "jsnum \<times> jsnum \<Rightarrow> jsnum \<times> jsnum"

definition longitudeRange :: "jsnum \<times> jsnum" where
  "longitudeRange = (round64 (- 122.52876879101329), round64 (- 122.34501499128038))"

definition latitudeRange :: "jsnum \<times> jsnum" where
  "latitudeRange = (round64 37.69947941416328, round64 37.81633202723721)"

text \<open>
  \<^verbatim>\<open>Math.cos\<close>, taken as the cosine rounded to a double (ECMAScript leaves the
  approximation to the implementation), and \<^verbatim>\<open>Math.PI\<close>, the double nearest to \<open>\<pi>\<close>.
\<close>

fun Math_cos :: "jsnum \<Rightarrow> jsnum" where
  "Math_cos (Fin a) = round64 (cos a)"
| "Math_cos _ = NaN"

definition Math_PI :: jsnum where
  "Math_PI = round64 pi"

definition kmToPixels :: "projection \<Rightarrow> jsnum \<Rightarrow> jsnum" where
  "kmToPixels projection km =
     (let avgLat = jdiv (jadd (fst latitudeRange) (snd latitudeRange)) (Fin 2);
          kmPerDegree = jmul (Fin 111.0) (Math_cos (jdiv (jmul avgLat Math_PI) (Fin 180)));
          degreesPerKm = jdiv (Fin 1) kmPerDegree;
          centerLon = jdiv (jadd (fst longitudeRange) (snd longitudeRange)) (Fin 2);
          p1 = projection (centerLon, avgLat);
          p2 = projection (jadd centerLon degreesPerKm, avgLat);
          pixelsPerKm = Math_abs (jsub (fst p2) (fst p1))
      in jmul km pixelsPerKm)"

text \<open>\<^verbatim>\<open>function isInCircle(px, py, circle)\<close> of the second file.\<close>

definition isInCircle_km :: "projection \<Rightarrow> jsnum \<Rightarrow> jsnum \<Rightarrow> circle \<Rightarrow> bool" where
  "isInCircle_km projection px py c =
     (let radiusPixels = kmToPixels projection (radius c);
          dx = jsub px (xc c);
          dy = jsub py (yc c)
      in jle (jadd (jmul dx dx) (jmul dy dy)) (jmul radiusPixels radiusPixels))"

section \<open>Values of the dropdowns\<close>

text \<open>A \<^verbatim>\<open>Set\<close> as the list of its members in insertion order.\<close>

definition Set_add :: "'a list \<Rightarrow> 'a \<Rightarrow> 'a list" where
  "Set_add vs v = (if v \<in> set vs then vs else vs @ [v])"

text \<open>
  \<^verbatim>\<open>Array.prototype.sort\<close> without a comparator orders strings by their UTF-16 code
  units. On the encodings this is the order of the bytes, but for the characters from
  U+E000 to U+FFFF (first byte EE or EF), which come after those beyond U+FFFF (first
  byte F0 to F4): \<open>codeUnitKey\<close> moves these two bytes above the others.
\<close>

definition codeUnitKey :: "string \<Rightarrow> nat list" where
  "codeUnitKey s =
     map (\<lambda>c. if c = CHR 0xEE then 0xFE else if c = CHR 0xEF then 0xFF else of_char c) s"

text \<open>
  \<^verbatim>\<open>function getUniqueValues(data, field)\<close>. A value is truthy when it is defined and
  not the empty string.
\<close>

definition getUniqueValues :: "row list \<Rightarrow> string \<Rightarrow> string list" where
  "getUniqueValues rows field =
     sort_key codeUnitKey (foldl (\<lambda>vs d.
             case getField d field of
               None \<Rightarrow> vs
             | Some v \<Rightarrow> if v \<noteq> [] \<and> trim v \<noteq> [] then Set_add vs (trim v) else vs)
           [] rows)"

section \<open>Locations\<close>

text \<open>The object \<^verbatim>\<open>renderDataPoints\<close> stores in \<^verbatim>\<open>locationMap\<close> for each key.\<close>

record location =
  longitude :: "string option"
  latitude :: "string option"
  movies :: "row list"
  data :: row

text \<open>
  \<^verbatim>\<open>locationMap\<close> is a \<^verbatim>\<open>Map\<close>: the list of its entries in insertion order.
  \<open>Map_set\<close> replaces the value of a key that is present and appends an entry otherwise.
\<close>

type_synonym locationMap = "(string \<times> location) list"

definition Map_has :: "locationMap \<Rightarrow> string \<Rightarrow> bool" where
  "Map_has m k = (map_of m k \<noteq> None)"

definition Map_set :: "locationMap \<Rightarrow> string \<Rightarrow> location \<Rightarrow> locationMap" where
  "Map_set m k v =
     (if Map_has m k then map (\<lambda>e. if fst e = k then (k, v) else e) m else m @ [(k, v)])"

text \<open>\<^verbatim>\<open>locationMap.get(key).movies.push(d)\<close>: the object stored under the key is mutated.\<close>

definition Map_push :: "locationMap \<Rightarrow> string \<Rightarrow> row \<Rightarrow> locationMap" where
  "Map_push m k d = map (\<lambda>e. if fst e = k then (fst e, (snd e)\<lparr>movies := movies (snd e) @ [d]\<rparr>) else e) m"

definition locationKey :: "row \<Rightarrow> string" where
  "locationKey d = ToString (getField d ''Longitude'') @ '','' @ ToString (getField d ''Latitude'')"

text \<open>The body of \<^verbatim>\<open>allData.forEach(d => ...)\<close> in \<^verbatim>\<open>renderDataPoints\<close>.\<close>

definition addToLocationMap :: "locationMap \<Rightarrow> row \<Rightarrow> locationMap" where
  "addToLocationMap m d =
     (let key = locationKey d;
          m1 = (if \<not> Map_has m key
                then Map_set m key
                       \<lparr>longitude = getField d ''Longitude'', latitude = getField d ''Latitude'',
                        movies = [], data = d\<rparr>
                else m)
      in Map_push m1 key d)"

definition buildLocationMap :: "row list \<Rightarrow> locationMap" where
  "buildLocationMap rows = foldl addToLocationMap [] rows"

text \<open>\<^verbatim>\<open>Array.from(locationMap.values())\<close>.\<close>

definition locationData :: "row list \<Rightarrow> location list" where
  "locationData rows = map snd (buildLocationMap rows)"

text \<open>
  Modelled from the spec: \<^verbatim>\<open>d3.max\<close> and \<^verbatim>\<open>d3.scaleSqrt\<close> are functions of the d3
  library, which is not among the sources. \<open>d3_max\<close> is the largest member count over all
  locations (\<^verbatim>\<open>undefined\<close>, here \<open>None\<close>, when there is none). \<open>sqrtScale\<close> is the
  square-root scale of a domain and a range: it maps the ends of the domain to the ends of
  the range and is linear in the square root in between; on a single-element domain it
  does not divide and is the constant low end of the range. The scale is taken over the
  reals: how the library rounds is not in the sources.
\<close>

fun d3_max :: "nat list \<Rightarrow> nat option" where
  "d3_max [] = None"
| "d3_max (n # ns) = Some (fold max ns n)"

definition sqrtScale :: "real \<times> real \<Rightarrow> real \<times> real \<Rightarrow> real \<Rightarrow> real" where
  "sqrtScale domain rng n =
     (if snd domain = fst domain then fst rng
      else fst rng
             + (sqrt n - sqrt (fst domain)) / (sqrt (snd domain) - sqrt (fst domain))
               * (snd rng - fst rng))"

text \<open>
  \<^verbatim>\<open>radiusScale = d3.scaleSqrt().domain([1, maxMovies]).range([3, 10])\<close>, applied to a
  member count. Without a location there is no \<^verbatim>\<open>maxMovies\<close>, and the scale is never
  applied.
\<close>

definition radiusScale :: "nat option \<Rightarrow> nat \<Rightarrow> jsnum" where
  "radiusScale maxMovies n =
     (case maxMovies of
        None \<Rightarrow> NaN
      | Some m \<Rightarrow> Fin (sqrtScale (1, real m) (3, 10) (real n)))"

section \<open>The page\<close>

text \<open>
  A circle of class \<^verbatim>\<open>location-point\<close>: its attributes and the datum d3 bound to it. A
  number written to an attribute is read back unchanged.
\<close>

record point =
  attr_cx :: jsnum
  attr_cy :: jsnum
  attr_r :: jsnum
  attr_data_base_radius :: jsnum
  attr_data_movie_count :: nat
  attr_fill :: string
  attr_opacity :: real
  datum :: location

text \<open>The same in the second file, where the datum is a row and the radius a constant.\<close>

record point_km =
  km_cx :: jsnum
  km_cy :: jsnum
  km_r :: jsnum
  km_fill :: string
  km_opacity :: real
  km_datum :: row

text \<open>
  The global variables and the part of the document the handlers read and write. An input
  of type range always holds a finite number, so the two year sliders hold reals; both
  span the same range, so that a value read from one is stored unchanged in the other.
  The text nodes other than the two counts, and the styling of the slider track, are left
  out.
\<close>

record 'p page =
  circleA :: circle
  circleB :: circle
  allData :: "row list"
  yearMin_value :: real
  yearMax_value :: real
  directorFilter_value :: string
  neighborhoodFilter_value :: string
  directorFilter_options :: "string list"
  neighborhoodFilter_options :: "string list"
  location_points :: "'p list"
  query_circles :: "(jsnum \<times> jsnum \<times> jsnum) list"
  visibleCount :: nat
  totalCount :: nat

text \<open>\<^verbatim>\<open>function isInIntersection(px, py)\<close>, in both files.\<close>

definition isInIntersection :: "jsnum \<Rightarrow> jsnum \<Rightarrow> 'p page \<Rightarrow> bool" where
  "isInIntersection px py s = (isInCircle px py (circleA s) \<and> isInCircle px py (circleB s))"

definition isInIntersection_km :: "projection \<Rightarrow> jsnum \<Rightarrow> jsnum \<Rightarrow> 'p page \<Rightarrow> bool" where
  "isInIntersection_km projection px py s =
     (isInCircle_km projection px py (circleA s) \<and> isInCircle_km projection px py (circleB s))"

section \<open>The filter pass\<close>

text \<open>The tests \<^verbatim>\<open>updateFilters\<close> makes on one row, in both files.\<close>

definition inYearRange :: "jsnum \<Rightarrow> jsnum \<Rightarrow> row \<Rightarrow> bool" where
  "inYearRange yearMin yearMax movie =
     (let year = ToNumber (getField movie ''Release Year'')
      in \<not> truthy year \<or> (jge year yearMin \<and> jle year yearMax))"

definition directorMatch :: "string \<Rightarrow> row \<Rightarrow> bool" where
  "directorMatch selectedDirector movie =
     (selectedDirector = ''all'' \<or> getField movie ''Director'' = Some selectedDirector)"

definition neighborhoodMatch :: "string \<Rightarrow> row \<Rightarrow> bool" where
  "neighborhoodMatch selectedNeighborhood movie =
     (selectedNeighborhood = ''all''
      \<or> getField movie ''Analysis Neighborhood'' = Some selectedNeighborhood)"

text \<open>\<^verbatim>\<open>d.movies.filter(movie => ...)\<close> with the values the controls hold.\<close>

definition matchingMovies :: "'p page \<Rightarrow> location \<Rightarrow> row list" where
  "matchingMovies s d =
     filter (\<lambda>movie.
        inYearRange (Fin (yearMin_value s)) (Fin (yearMax_value s)) movie
        \<and> directorMatch (directorFilter_value s) movie
        \<and> neighborhoodMatch (neighborhoodFilter_value s) movie)
       (movies d)"

text \<open>
  The body of \<^verbatim>\<open>.each(function(d) {...})\<close> in \<^verbatim>\<open>script.js\<close>. \<open>visible\<close> is the
  constant of that name; \<open>eachPoint\<close> takes the running \<^verbatim>\<open>visibleCount\<close> and the points
  already restyled, then one more point.
\<close>

definition visible :: "point page \<Rightarrow> point \<Rightarrow> bool" where
  "visible s circ =
     (let px = attr_cx circ;
          py = attr_cy circ;
          inIntersection = isInIntersection px py s
      in inIntersection \<and> length (matchingMovies s (datum circ)) > 0)"

definition eachPoint :: "point page \<Rightarrow> nat \<times> point list \<Rightarrow> point \<Rightarrow> nat \<times> point list" where
  "eachPoint s acc circ =
     (let baseRadius = attr_data_base_radius circ
      in if visible s circ
         then (fst acc + length (matchingMovies s (datum circ)),
               snd acc @ [circ\<lparr>attr_fill := ''red'', attr_opacity := 0.7, attr_r := baseRadius\<rparr>])
         else (fst acc,
               snd acc @ [circ\<lparr>attr_fill := ''gray'', attr_opacity := 0.3,
                               attr_r := jmul baseRadius (round64 0.7)\<rparr>]))"

definition updateFilters :: "point page \<Rightarrow> point page" where
  "updateFilters s =
     (let res = foldl (eachPoint s) (0, []) (location_points s)
      in s\<lparr>location_points := snd res, visibleCount := fst res\<rparr>)"

text \<open>The same loop in the second file: one point for each row.\<close>

definition visible_km :: "projection \<Rightarrow> point_km page \<Rightarrow> point_km \<Rightarrow> bool" where
  "visible_km projection s circ =
     (let px = km_cx circ;
          py = km_cy circ;
          d = km_datum circ;
          inIntersection = isInIntersection_km projection px py s
      in inIntersection
         \<and> inYearRange (Fin (yearMin_value s)) (Fin (yearMax_value s)) d
         \<and> directorMatch (directorFilter_value s) d
         \<and> neighborhoodMatch (neighborhoodFilter_value s) d)"

definition eachPoint_km ::
  "projection \<Rightarrow> point_km page \<Rightarrow> nat \<times> point_km list \<Rightarrow> point_km \<Rightarrow> nat \<times> point_km list" where
  "eachPoint_km projection s acc circ =
     (if visible_km projection s circ
      then (fst acc + 1,
            snd acc @ [circ\<lparr>km_fill := ''#e74c3c'', km_opacity := 0.7, km_r := Fin 3\<rparr>])
      else (fst acc,
            snd acc @ [circ\<lparr>km_fill := ''#bdc3c7'', km_opacity := 0.3, km_r := Fin 2\<rparr>]))"

definition updateFilters_km :: "projection \<Rightarrow> point_km page \<Rightarrow> point_km page" where
  "updateFilters_km projection s =
     (let res = foldl (eachPoint_km projection s) (0, []) (location_points s)
      in s\<lparr>location_points := snd res, visibleCount := fst res\<rparr>)"

section \<open>Drawing\<close>

text \<open>
  \<^verbatim>\<open>function renderQueryCircles()\<close> removes the two circles of class
  \<^verbatim>\<open>query-circle\<close> and draws them anew from the global variables.
\<close>

definition renderQueryCircles :: "'p page \<Rightarrow> 'p page" where
  "renderQueryCircles s =
     s\<lparr>query_circles :=
         [(xc (circleA s), yc (circleA s), radius (circleA s)),
          (xc (circleB s), yc (circleB s), radius (circleB s))]\<rparr>"

definition renderQueryCircles_km :: "projection \<Rightarrow> 'p page \<Rightarrow> 'p page" where
  "renderQueryCircles_km projection s =
     s\<lparr>query_circles :=
         [(xc (circleA s), yc (circleA s), kmToPixels projection (radius (circleA s))),
          (xc (circleB s), yc (circleB s), kmToPixels projection (radius (circleB s)))]\<rparr>"

text \<open>
  \<^verbatim>\<open>function renderDataPoints()\<close> of \<^verbatim>\<open>script.js\<close>: one point for each location, at
  the projection of its coordinates. The function is called once, from the loading
  callback, on a page that has no such point yet; d3 then appends one circle for each
  datum.
\<close>

definition renderDataPoints :: "projection \<Rightarrow> point page \<Rightarrow> point page" where
  "renderDataPoints projection s =
     (let locs = locationData (allData s);
          maxMovies = d3_max (map (\<lambda>d. length (movies d)) locs)
      in s\<lparr>location_points :=
             location_points s @
             map (\<lambda>d.
                  \<lparr>attr_cx = fst (projection (ToNumber (longitude d), ToNumber (latitude d))),
                   attr_cy = snd (projection (ToNumber (longitude d), ToNumber (latitude d))),
                   attr_r = radiusScale maxMovies (length (movies d)),
                   attr_data_base_radius = radiusScale maxMovies (length (movies d)),
                   attr_data_movie_count = length (movies d),
                   attr_fill = ''red'',
                   attr_opacity = 0.7,
                   datum = d\<rparr>) locs\<rparr>)"

definition renderDataPoints_km :: "projection \<Rightarrow> point_km page \<Rightarrow> point_km page" where
  "renderDataPoints_km projection s =
     s\<lparr>location_points :=
         location_points s @
         map (\<lambda>d.
              \<lparr>km_cx = fst (projection (ToNumber (getField d ''Longitude''),
                                        ToNumber (getField d ''Latitude''))),
               km_cy = snd (projection (ToNumber (getField d ''Longitude''),
                                        ToNumber (getField d ''Latitude''))),
               km_r = Fin 3,
               km_fill = ''#e74c3c'',
               km_opacity = 0.7,
               km_datum = d\<rparr>) (allData s)\<rparr>"

section \<open>The handlers\<close>

text \<open>
  The drag handlers of the two circles; \<open>ex\<close> and \<open>ey\<close> are \<^verbatim>\<open>event.x\<close> and
  \<^verbatim>\<open>event.y\<close>.
\<close>

definition dragA :: "jsnum \<Rightarrow> jsnum \<Rightarrow> point page \<Rightarrow> point page" where
  "dragA ex ey s =
     updateFilters (renderQueryCircles
       (s\<lparr>circleA := (circleA s)\<lparr>xc := Math_max (Fin 0) (Math_min mapWidth ex),
                                 yc := Math_max (Fin 0) (Math_min mapHeight ey)\<rparr>\<rparr>))"

definition dragB :: "jsnum \<Rightarrow> jsnum \<Rightarrow> point page \<Rightarrow> point page" where
  "dragB ex ey s =
     updateFilters (renderQueryCircles
       (s\<lparr>circleB := (circleB s)\<lparr>xc := Math_max (Fin 0) (Math_min mapWidth ex),
                                 yc := Math_max (Fin 0) (Math_min mapHeight ey)\<rparr>\<rparr>))"

definition dragA_km :: "projection \<Rightarrow> jsnum \<Rightarrow> jsnum \<Rightarrow> point_km page \<Rightarrow> point_km page" where
  "dragA_km projection ex ey s =
     updateFilters_km projection (renderQueryCircles_km projection
       (s\<lparr>circleA := (circleA s)\<lparr>xc := Math_max (Fin 0) (Math_min mapWidth ex),
                                 yc := Math_max (Fin 0) (Math_min mapHeight ey)\<rparr>\<rparr>))"

definition dragB_km :: "projection \<Rightarrow> jsnum \<Rightarrow> jsnum \<Rightarrow> point_km page \<Rightarrow> point_km page" where
  "dragB_km projection ex ey s =
     updateFilters_km projection (renderQueryCircles_km projection
       (s\<lparr>circleB := (circleB s)\<lparr>xc := Math_max (Fin 0) (Math_min mapWidth ex),
                                 yc := Math_max (Fin 0) (Math_min mapHeight ey)\<rparr>\<rparr>))"

text \<open>
  The \<^verbatim>\<open>input\<close> handlers of the two radius sliders; \<open>v\<close> is the number the slider
  holds, \<^verbatim>\<open>+this.value\<close>.
\<close>

definition radiusA_input :: "real \<Rightarrow> point page \<Rightarrow> point page" where
  "radiusA_input v s =
     updateFilters (renderQueryCircles (s\<lparr>circleA := (circleA s)\<lparr>radius := Fin v\<rparr>\<rparr>))"

definition radiusB_input :: "real \<Rightarrow> point page \<Rightarrow> point page" where
  "radiusB_input v s =
     updateFilters (renderQueryCircles (s\<lparr>circleB := (circleB s)\<lparr>radius := Fin v\<rparr>\<rparr>))"

definition radiusA_input_km :: "projection \<Rightarrow> real \<Rightarrow> point_km page \<Rightarrow> point_km page" where
  "radiusA_input_km projection v s =
     updateFilters_km projection (renderQueryCircles_km projection
       (s\<lparr>circleA := (circleA s)\<lparr>radius := Fin v\<rparr>\<rparr>))"

definition radiusB_input_km :: "projection \<Rightarrow> real \<Rightarrow> point_km page \<Rightarrow> point_km page" where
  "radiusB_input_km projection v s =
     updateFilters_km projection (renderQueryCircles_km projection
       (s\<lparr>circleB := (circleB s)\<lparr>radius := Fin v\<rparr>\<rparr>))"

text \<open>
  The \<^verbatim>\<open>input\<close> handlers of the two year sliders. The event comes after the slider the
  user moved took its new value \<open>v\<close>; the handler reads it as \<^verbatim>\<open>+this.value\<close> and reads
  the other slider.
\<close>

definition yearMin_input :: "real \<Rightarrow> point page \<Rightarrow> point page" where
  "yearMin_input v s =
     (let s1 = s\<lparr>yearMin_value := v\<rparr>;
          minVal = yearMin_value s1;
          maxVal = yearMax_value s1;
          s2 = (if minVal > maxVal then s1\<lparr>yearMax_value := minVal\<rparr> else s1)
      in updateFilters s2)"

definition yearMax_input :: "real \<Rightarrow> point page \<Rightarrow> point page" where
  "yearMax_input v s =
     (let s1 = s\<lparr>yearMax_value := v\<rparr>;
          maxVal = yearMax_value s1;
          minVal = yearMin_value s1;
          s2 = (if maxVal < minVal then s1\<lparr>yearMin_value := maxVal\<rparr> else s1)
      in updateFilters s2)"

definition yearMin_input_km :: "projection \<Rightarrow> real \<Rightarrow> point_km page \<Rightarrow> point_km page" where
  "yearMin_input_km projection v s =
     (let s1 = s\<lparr>yearMin_value := v\<rparr>;
          minVal = yearMin_value s1;
          maxVal = yearMax_value s1;
          s2 = (if minVal > maxVal then s1\<lparr>yearMax_value := minVal\<rparr> else s1)
      in updateFilters_km projection s2)"

definition yearMax_input_km :: "projection \<Rightarrow> real \<Rightarrow> point_km page \<Rightarrow> point_km page" where
  "yearMax_input_km projection v s =
     (let s1 = s\<lparr>yearMax_value := v\<rparr>;
          maxVal = yearMax_value s1;
          minVal = yearMin_value s1;
          s2 = (if maxVal < minVal then s1\<lparr>yearMin_value := maxVal\<rparr> else s1)
      in updateFilters_km projection s2)"

section \<open>Loading\<close>

text \<open>
  The callback of \<^verbatim>\<open>d3.csv(...).then\<close>: \<open>rows\<close> is the parsed file, \<open>s\<close> the page
  before. Each dropdown gains one option for each value of its column.
\<close>

definition hasCoordinates :: "row \<Rightarrow> bool" where
  "hasCoordinates d =
     (let lon = ToNumber (getField d ''Longitude'');
          lat = ToNumber (getField d ''Latitude'')
      in Number_isFinite lon \<and> Number_isFinite lat)"

definition populate :: "row list \<Rightarrow> 'p page \<Rightarrow> 'p page" where
  "populate rows s =
     (let s1 = s\<lparr>allData := filter hasCoordinates rows\<rparr>;
          s2 = s1\<lparr>totalCount := length (allData s1)\<rparr>;
          s3 = s2\<lparr>directorFilter_options :=
                    directorFilter_options s2 @ getUniqueValues (allData s2) ''Director''\<rparr>
      in s3\<lparr>neighborhoodFilter_options :=
              neighborhoodFilter_options s3
              @ getUniqueValues (allData s3) ''Analysis Neighborhood''\<rparr>)"

definition loaded :: "projection \<Rightarrow> row list \<Rightarrow> point page \<Rightarrow> point page" where
  "loaded projection rows s =
     updateFilters (renderQueryCircles (renderDataPoints projection (populate rows s)))"

definition loaded_km :: "projection \<Rightarrow> row list \<Rightarrow> point_km page \<Rightarrow> point_km page" where
  "loaded_km projection rows s =
     updateFilters_km projection
       (renderQueryCircles_km projection (renderDataPoints_km projection (populate rows s)))"

section \<open>A small data set\<close>

text \<open>
  Three films shot at one place and a fourth far away, a linear stand-in for the
  projection, and a page whose two circles both cover the first place: the inputs at
  which the theorems below are evaluated.
\<close>

definition exampleRows :: "row list" where
  "exampleRows =
     [[(''Title'', ''A''), (''Release Year'', ''1950''), (''Director'', ''X''),
       (''Analysis Neighborhood'', ''Mission''), (''Longitude'', ''-122''), (''Latitude'', ''37'')],
      [(''Title'', ''B''), (''Release Year'', ''1980''), (''Director'', ''Y''),
       (''Analysis Neighborhood'', ''Mission''), (''Longitude'', ''-122''), (''Latitude'', ''37'')],
      [(''Title'', ''C''), (''Release Year'', ''2010''), (''Director'', ''X''),
       (''Analysis Neighborhood'', ''Mission''), (''Longitude'', ''-122''), (''Latitude'', ''37'')],
      [(''Title'', ''D''), (''Release Year'', ''2000''), (''Director'', ''Z''),
       (''Analysis Neighborhood'', ''Sunset''), (''Longitude'', ''-123''), (''Latitude'', ''34'')]]"

definition exampleProjection :: projection where
  "exampleProjection p =
     (jmul (jadd (fst p) (Fin 123)) (Fin 100), jmul (jsub (Fin 38) (snd p)) (Fin 30))"

definition examplePage :: "'p page" where
  "examplePage =
     \<lparr>circleA = \<lparr>xc = Fin 90, yc = Fin 30, radius = Fin 50\<rparr>,
      circleB = \<lparr>xc = Fin 110, yc = Fin 30, radius = Fin 50\<rparr>,
      allData = [],
      yearMin_value = 1960,
      yearMax_value = 2023,
      directorFilter_value = ''all'',
      neighborhoodFilter_value = ''all'',
      directorFilter_options = [''all''],
      neighborhoodFilter_options = [''all''],
      location_points = [],
      query_circles = [],
      visibleCount = 0,
      totalCount = 0\<rparr>"

section \<open>Rounding to a double\<close>

lemma roundEven_of_int: "roundEven (of_int n) = n"
  by (simp add: roundEven_def)

lemma roundEven_ge_floor: "\<lfloor>q\<rfloor> \<le> roundEven q"
  by (simp add: roundEven_def Let_def)

lemma roundEven_near:
  assumes "of_int n \<le> q" and "q < of_int n + 1 / 2"
  shows "roundEven q = n"
proof -
  have "\<lfloor>q\<rfloor> = n" using assms by (intro floor_unique) auto
  then show ?thesis using assms by (simp add: roundEven_def)
qed

lemma roundEven_near_up:
  assumes "of_int n - 1 / 2 < q" and "q \<le> of_int n"
  shows "roundEven q = n"
proof (cases "q = of_int n")
  case True
  then show ?thesis by (simp add: roundEven_of_int)
next
  case False
  then have "\<lfloor>q\<rfloor> = n - 1" using assms by (intro floor_unique) auto
  then show ?thesis using assms False by (simp add: roundEven_def)
qed

lemma roundEven_nearest:
  assumes "\<bar>q - of_int n\<bar> < 1 / 2"
  shows "roundEven q = n"
proof (cases "of_int n \<le> q")
  case True
  then show ?thesis using assms by (intro roundEven_near) auto
next
  case False
  then show ?thesis using assms by (intro roundEven_near_up) auto
qed

lemma powr_int_succ: "2 powr (real_of_int e + 1) = (2::real) powi (e + 1)"
  by (simp add: powr_add powr_real_of_int' power_int_add)

lemma floor_log2_eq:
  assumes "0 < x" and "2 powi e \<le> x" and "x < 2 powi (e + 1)"
  shows "\<lfloor>log 2 x\<rfloor> = e"
  using assms by (simp add: floor_log_eq_powr_iff powr_real_of_int' powr_int_succ)

lemma floor_log2_bounds:
  assumes "0 < x"
  shows "2 powi \<lfloor>log 2 x\<rfloor> \<le> x \<and> x < 2 powi (\<lfloor>log 2 x\<rfloor> + 1)"
  using floor_log_eq_powr_iff [of x 2 "\<lfloor>log 2 x\<rfloor>"] assms
  by (simp add: powr_real_of_int' powr_int_succ)

text \<open>
  A positive multiple of a power of two with a significand below \<open>2 ^ 53\<close> is a double,
  and rounds to itself.
\<close>

lemma roundPos_exact:
  assumes x: "x = of_int m * 2 powi k" and m: "0 < m" "m < 2 ^ 53"
    and k: "- 1074 \<le> k" and top: "x < 2 ^ 1024"
  shows "roundPos x = Fin x"
proof -
  have pos: "0 < x" using x m by simp
  let ?e = "binade x"
  have "x < 2 ^ 53 * 2 powi k"
    unfolding x using m(2) by (intro mult_strict_right_mono) (simp_all flip: of_int_less_iff)
  also have "\<dots> = 2 powi (k + 53)" by (simp add: power_int_add)
  finally have lt: "x < 2 powi (k + 53)" .
  have "\<lfloor>log 2 x\<rfloor> \<le> k + 52"
  proof (rule ccontr)
    assume "\<not> \<lfloor>log 2 x\<rfloor> \<le> k + 52"
    then have "k + 53 \<le> \<lfloor>log 2 x\<rfloor>" by simp
    then have "(2::real) powi (k + 53) \<le> 2 powi \<lfloor>log 2 x\<rfloor>"
      by (intro power_int_increasing) simp_all
    with floor_log2_bounds [OF pos] lt show False by linarith
  qed
  then have e: "?e \<le> k + 52" using k by (simp add: binade_def)
  define d where "d = nat (k + 52 - ?e)"
  have d: "int d = k + 52 - ?e" using e by (simp add: d_def)
  have "x / 2 powi (?e - 52) = of_int m * 2 powi (k - (?e - 52))"
    unfolding x by (simp add: power_int_diff)
  also have "k - (?e - 52) = int d" using d by simp
  also have "of_int m * (2::real) powi int d = of_int (m * 2 ^ d)" by simp
  finally have q: "x / 2 powi (?e - 52) = of_int (m * 2 ^ d)" .
  have "of_int (roundEven (x / 2 powi (?e - 52))) * 2 powi (?e - 52) = x"
    unfolding q roundEven_of_int unfolding q [symmetric] by simp
  then show ?thesis using pos top by (simp add: roundPos_def Let_def)
qed

lemma roundPos_Fin_less: "roundPos x = Fin y \<Longrightarrow> y < 2 ^ 1024"
  by (auto simp: roundPos_def Let_def split: if_splits)

lemma roundPos_cases: "roundPos x = PosInf \<or> (\<exists>y. roundPos x = Fin y)"
  by (simp add: roundPos_def Let_def)

lemma roundPos_0: "roundPos 0 = Fin 0"
  by (simp add: roundPos_def)

text \<open>Rounding does not go below a power of two that the number reaches.\<close>

lemma roundPos_ge_pow2:
  assumes "2 powi k \<le> x" and "- 1022 \<le> k"
  shows "roundPos x = PosInf \<or> (\<exists>y. roundPos x = Fin y \<and> 2 powi k \<le> y)"
proof -
  have pos: "0 < x" using assms(1) by (smt (verit) zero_less_power_int)
  let ?f = "\<lfloor>log 2 x\<rfloor>"
  have kf: "k \<le> ?f"
  proof (rule ccontr)
    assume "\<not> k \<le> ?f"
    then have "?f + 1 \<le> k" by simp
    then have "(2::real) powi (?f + 1) \<le> 2 powi k" by (intro power_int_increasing) simp_all
    with floor_log2_bounds [OF pos] assms(1) show False by linarith
  qed
  then have e: "binade x = ?f" using assms(2) by (simp add: binade_def)
  let ?u = "(2::real) powi (?f - 52)"
  have u: "0 < ?u" by simp
  have "2 powi ?f \<le> x" using floor_log2_bounds [OF pos] by simp
  then have "2 powi ?f / ?u \<le> x / ?u" using u by (simp add: divide_right_mono)
  moreover have "(2::real) powi ?f / ?u = 2 ^ 52"
    by (simp add: power_int_diff [symmetric])
  ultimately have "(2::real) ^ 52 \<le> x / ?u" by simp
  then have "(2::int) ^ 52 \<le> \<lfloor>x / ?u\<rfloor>" by (simp add: le_floor_iff)
  then have "(2::int) ^ 52 \<le> roundEven (x / ?u)" using roundEven_ge_floor [of "x / ?u"] by linarith
  then have "(2::real) ^ 52 \<le> of_int (roundEven (x / ?u))"
    by (metis of_int_le_iff of_int_numeral of_int_power)
  then have "2 ^ 52 * ?u \<le> of_int (roundEven (x / ?u)) * ?u"
    using u by (simp add: mult_right_mono)
  moreover have "2 ^ 52 * ?u = 2 powi ?f"
    by (simp add: power_int_diff)
  moreover have "(2::real) powi k \<le> 2 powi ?f" using kf by (intro power_int_increasing) simp_all
  ultimately have "2 powi k \<le> of_int (roundEven (x / ?u)) * ?u" by linarith
  then show ?thesis using pos e by (simp add: roundPos_def Let_def)
qed

lemma roundPos_nonneg:
  assumes "0 \<le> x"
  shows "roundPos x = PosInf \<or> (\<exists>y. roundPos x = Fin y \<and> 0 \<le> y)"
proof -
  let ?u = "(2::real) powi (binade x - 52)"
  have "0 \<le> x / ?u" using assms by simp
  then have "0 \<le> \<lfloor>x / ?u\<rfloor>" by simp
  then have "0 \<le> roundEven (x / ?u)" using roundEven_ge_floor [of "x / ?u"] by linarith
  then have "0 \<le> of_int (roundEven (x / ?u)) * ?u" by simp
  then show ?thesis by (simp add: roundPos_def Let_def)
qed

lemma round64_not_NaN [simp]: "round64 x \<noteq> NaN"
  using roundPos_cases [of x] roundPos_cases [of "- x"] by (auto simp: round64_def)

lemma round64_minus: "round64 (- x) = jneg (round64 x)"
proof -
  consider "x = 0" | "x < 0" | "0 < x" by linarith
  then show ?thesis
  proof cases
    case 1
    then show ?thesis by (simp add: round64_def roundPos_0)
  next
    case 2
    then show ?thesis
      using roundPos_cases [of "- x"] by (auto simp: round64_def)
  next
    case 3
    then show ?thesis by (simp add: round64_def)
  qed
qed

text \<open>The integers below \<open>2 ^ 53\<close> in magnitude are doubles.\<close>

lemma round64_int:
  assumes "\<bar>n\<bar> < 2 ^ 53"
  shows "round64 (of_int n) = Fin (of_int n)"
proof -
  have p: "roundPos (of_int m) = Fin (of_int m)" if "0 < m" "m < 2 ^ 53" for m :: int
  proof (rule roundPos_exact [of _ m 0])
    have "real_of_int m < 2 ^ 53" using that(2) by (simp flip: of_int_less_iff)
    also have "\<dots> < (2::real) ^ 1024" by simp
    finally show "real_of_int m < 2 ^ 1024" .
  qed (use that in simp_all)
  consider "n = 0" | "n < 0" | "0 < n" by linarith
  then show ?thesis
  proof cases
    case 1
    then show ?thesis by (simp add: round64_def roundPos_0)
  next
    case 2
    then have "roundPos (of_int (- n)) = Fin (of_int (- n))" using assms by (intro p) simp_all
    then show ?thesis using 2 by (simp add: round64_def)
  next
    case 3
    then have "roundPos (of_int n) = Fin (of_int n)" using assms by (intro p) simp_all
    then show ?thesis using 3 by (simp add: round64_def)
  qed
qed

lemma round64_numeral [simp]:
  "numeral w < (2::int) ^ 53 \<Longrightarrow> round64 (numeral w) = Fin (numeral w)"
  "numeral w < (2::int) ^ 53 \<Longrightarrow> round64 (- numeral w) = Fin (- numeral w)"
  "round64 0 = Fin 0"
  "round64 1 = Fin 1"
  using round64_int [of "numeral w"] round64_int [of "- numeral w"] round64_int [of 0]
    round64_int [of 1]
  by simp_all

lemma round64_dyadic:
  assumes "x = of_int m * 2 powi k" and "\<bar>m\<bar> < 2 ^ 53" and "- 1074 \<le> k" and "\<bar>x\<bar> < 2 ^ 1024"
  shows "round64 x = Fin x"
proof -
  consider "m = 0" | "m < 0" | "0 < m" by linarith
  then show ?thesis
  proof cases
    case 1
    then show ?thesis using assms(1) by (simp add: round64_def roundPos_0)
  next
    case 2
    have "roundPos (- x) = Fin (- x)"
      by (rule roundPos_exact [of _ "- m" k]) (use assms 2 in simp_all)
    moreover have "x < 0" using 2 assms(1) by (simp add: mult_neg_pos)
    ultimately show ?thesis by (simp add: round64_def)
  next
    case 3
    have "roundPos x = Fin x"
      by (rule roundPos_exact [of _ m k]) (use assms 3 in simp_all)
    moreover have "0 < x" using 3 assms(1) by simp
    ultimately show ?thesis by (simp add: round64_def)
  qed
qed

text \<open>
  A number between \<open>2 ^ e\<close> and \<open>2 ^ (e + 1)\<close> rounds to the multiple of \<open>2 ^ (e - 52)\<close>
  less than half a step away.
\<close>

lemma round64_nearest:
  assumes "- 1022 \<le> e" and "2 powi e \<le> x" and "x < 2 powi (e + 1)"
    and "\<bar>x / 2 powi (e - 52) - of_int n\<bar> < 1 / 2"
    and "of_int n * 2 powi (e - 52) < (2::real) ^ 1024"
  shows "round64 x = Fin (of_int n * 2 powi (e - 52))"
proof -
  have pos: "0 < x" using assms(2) by (smt (verit) zero_less_power_int)
  have "\<lfloor>log 2 x\<rfloor> = e" using pos assms(2,3) by (rule floor_log2_eq)
  then have b: "binade x = e" using assms(1) by (simp add: binade_def)
  have r: "roundEven (x / 2 powi (e - 52)) = n" using assms(4) by (rule roundEven_nearest)
  show ?thesis using pos assms(5) by (simp add: round64_def roundPos_def b r Let_def)
qed

text \<open>Beyond the largest double the result is an infinity.\<close>

lemma round64_overflow:
  assumes "2 ^ 1024 \<le> x"
  shows "round64 x = PosInf"
proof -
  have "(2::real) powi 1024 \<le> x" using assms by simp
  from roundPos_ge_pow2 [OF this] roundPos_Fin_less [of x]
  have "roundPos x = PosInf" by fastforce
  moreover have "\<not> x < 0" using assms by (smt (verit) zero_less_power)
  ultimately show ?thesis by (simp add: round64_def)
qed

lemma round64_bound:
  assumes "round64 x = Fin y" and "\<bar>y\<bar> < 2 powi k" and "- 1022 \<le> k"
  shows "\<bar>x\<bar> < 2 powi k"
proof (rule ccontr)
  assume "\<not> \<bar>x\<bar> < 2 powi k"
  then have ge: "2 powi k \<le> \<bar>x\<bar>" by simp
  show False
  proof (cases "x < 0")
    case True
    with ge have "2 powi k \<le> - x" by simp
    from roundPos_ge_pow2 [OF this assms(3)] assms(1,2) True show False
      by (auto simp: round64_def)
  next
    case False
    with ge have "2 powi k \<le> x" by simp
    from roundPos_ge_pow2 [OF this assms(3)] assms(1,2) False show False
      by (auto simp: round64_def)
  qed
qed

lemma round64_nonneg:
  assumes "0 \<le> x"
  shows "round64 x = PosInf \<or> (\<exists>y. round64 x = Fin y \<and> 0 \<le> y)"
  using roundPos_nonneg [OF assms] assms by (simp add: round64_def)

text \<open>A number below half the smallest double rounds to 0.\<close>

lemma round64_underflow:
  assumes "0 \<le> x" and "x < 2 powi (- 1075)"
  shows "round64 x = Fin 0"
proof (cases "x = 0")
  case True
  then show ?thesis by simp
next
  case False
  with assms have pos: "0 < x" by simp
  have "\<lfloor>log 2 x\<rfloor> \<le> - 1022"
  proof (rule ccontr)
    assume "\<not> \<lfloor>log 2 x\<rfloor> \<le> - 1022"
    then have "- 1075 \<le> \<lfloor>log 2 x\<rfloor>" by simp
    then have "(2::real) powi (- 1075) \<le> 2 powi \<lfloor>log 2 x\<rfloor>"
      by (intro power_int_increasing) simp_all
    with floor_log2_bounds [OF pos] assms(2) show False by linarith
  qed
  then have e: "binade x = - 1022" by (simp add: binade_def)
  have "x / 2 powi (- 1074) < 2 powi (- 1075) / 2 powi (- 1074)"
    using assms(2) by (intro divide_strict_right_mono) simp_all
  also have "(2::real) powi (- 1075) / 2 powi (- 1074) = 1 / 2"
    by (simp add: power_int_diff [symmetric])
  finally have "x / 2 powi (- 1074) < 1 / 2" .
  moreover have "0 \<le> x / 2 powi (- 1074)" using assms(1) by simp
  ultimately have "roundEven (x / 2 powi (- 1074)) = 0"
    using roundEven_near [of 0 "x / 2 powi (- 1074)"] by simp
  then show ?thesis using pos e by (simp add: round64_def roundPos_def Let_def)
qed

text \<open>
  The error of a rounding that returns a finite number is at most the fraction \<open>2\<^sup>-\<^sup>5\<^sup>3\<close> of
  the number rounded, or half the smallest double. A number up to \<open>2\<^sup>1\<^sup>0\<^sup>2\<^sup>3\<close> rounds to a finite
  one.
\<close>

lemma roundEven_error: "\<bar>of_int (roundEven q) - q\<bar> \<le> 1 / 2"
proof -
  have "of_int \<lfloor>q\<rfloor> \<le> q" "q < of_int \<lfloor>q\<rfloor> + 1" by linarith+
  then show ?thesis by (auto simp: roundEven_def Let_def)
qed

lemma roundPos_error:
  assumes "0 \<le> x" and "roundPos x = Fin y"
  shows "\<bar>y - x\<bar> \<le> x / 2 ^ 53 + 1 / 2 ^ 1075"
proof (cases "x = 0")
  case True
  then show ?thesis using assms by (simp add: roundPos_def)
next
  case False
  with assms have pos: "0 < x" by simp
  let ?f = "\<lfloor>log 2 x\<rfloor>"
  let ?u = "(2::real) powi (binade x - 52)"
  have u: "0 < ?u" by simp
  have y: "y = of_int (roundEven (x / ?u)) * ?u"
    using assms(2) False by (simp add: roundPos_def Let_def split: if_splits)
  have "y - x = (of_int (roundEven (x / ?u)) - x / ?u) * ?u"
    unfolding y using u by (simp add: left_diff_distrib)
  then have "\<bar>y - x\<bar> = \<bar>of_int (roundEven (x / ?u)) - x / ?u\<bar> * ?u"
    using u by (simp add: abs_mult)
  also have "\<dots> \<le> 1 / 2 * ?u"
    using roundEven_error [of "x / ?u"] u by (intro mult_right_mono) simp_all
  finally have err: "\<bar>y - x\<bar> \<le> ?u / 2" by simp
  show ?thesis
  proof (cases "- 1022 \<le> ?f")
    case True
    then have "binade x = ?f" by (simp add: binade_def)
    then have "?u / 2 = 2 powi ?f / 2 ^ 53" by (simp add: power_int_diff)
    also have "\<dots> \<le> x / 2 ^ 53"
      using floor_log2_bounds [OF pos] by (simp add: divide_right_mono)
    finally show ?thesis using err by simp
  next
    case False
    then have "binade x = - 1022" by (simp add: binade_def)
    then have "?u / 2 = 1 / 2 ^ 1075" by (simp add: power_int_minus)
    then show ?thesis using err pos by simp
  qed
qed

lemma round64_error:
  assumes "round64 x = Fin y"
  shows "\<bar>y - x\<bar> \<le> \<bar>x\<bar> / 2 ^ 53 + 1 / 2 ^ 1075"
proof (cases "x < 0")
  case True
  with assms have "jneg (roundPos (- x)) = Fin y" by (simp add: round64_def)
  then have "roundPos (- x) = Fin (- y)" by (cases "roundPos (- x)") simp_all
  from roundPos_error [OF _ this] True show ?thesis by simp
next
  case False
  with assms have "roundPos x = Fin y" by (simp add: round64_def)
  from roundPos_error [OF _ this] False show ?thesis by simp
qed

lemma roundPos_finite:
  assumes "0 \<le> x" and "x \<le> 2 ^ 1023"
  shows "\<exists>y. roundPos x = Fin y"
proof (cases "x = 0")
  case True
  then show ?thesis by (simp add: roundPos_def)
next
  case False
  with assms have pos: "0 < x" by simp
  let ?f = "\<lfloor>log 2 x\<rfloor>"
  let ?u = "(2::real) powi (binade x - 52)"
  have u: "0 < ?u" by simp
  have "?f \<le> 1023"
  proof (rule ccontr)
    assume "\<not> ?f \<le> 1023"
    then have "1024 \<le> ?f" by simp
    then have "(2::real) powi 1024 \<le> 2 powi ?f" by (intro power_int_increasing) simp_all
    with floor_log2_bounds [OF pos] assms(2) show False by simp
  qed
  then have "binade x \<le> 1023" by (simp add: binade_def)
  then have "?u \<le> 2 powi (1023 - 52)" by (intro power_int_increasing) simp_all
  then have ule: "?u \<le> 2 ^ 971" by simp
  have "of_int (roundEven (x / ?u)) * ?u - x = (of_int (roundEven (x / ?u)) - x / ?u) * ?u"
    using u by (simp add: left_diff_distrib)
  also have "\<dots> \<le> \<bar>of_int (roundEven (x / ?u)) - x / ?u\<bar> * ?u"
    using u by (intro mult_right_mono) simp_all
  also have "\<dots> \<le> 1 / 2 * ?u"
    using roundEven_error [of "x / ?u"] u by (intro mult_right_mono) simp_all
  finally have "of_int (roundEven (x / ?u)) * ?u \<le> x + ?u / 2" by simp
  also have "\<dots> \<le> 2 ^ 1023 + 2 ^ 971 / 2" using assms(2) ule by simp
  also have "\<dots> < (2::real) ^ 1024" by simp
  finally show ?thesis using False by (simp add: roundPos_def Let_def)
qed

lemma round64_finite:
  assumes "\<bar>x\<bar> \<le> 2 ^ 1023"
  shows "\<exists>y. round64 x = Fin y"
proof (cases "x < 0")
  case True
  with assms have "\<exists>y. roundPos (- x) = Fin y" by (intro roundPos_finite) simp_all
  then show ?thesis using True by (auto simp: round64_def)
next
  case False
  with assms have "\<exists>y. roundPos x = Fin y" by (intro roundPos_finite) simp_all
  then show ?thesis using False by (simp add: round64_def)
qed

section \<open>Trimming\<close>

text \<open>What \<open>trimStartWith\<close> returns starts with none of the strings.\<close>

lemma trimStartWith_clean:
  "find (\<lambda>w. w \<noteq> [] \<and> take (length w) (trimStartWith ws s) = w) ws = None"
proof (induction ws s rule: trimStartWith.induct)
  case (1 ws s)
  show ?case
  proof (cases "find (\<lambda>w. w \<noteq> [] \<and> take (length w) s = w) ws")
    case None
    then show ?thesis by (subst trimStartWith.simps) simp
  next
    case (Some w)
    then show ?thesis using 1 by (subst trimStartWith.simps) simp
  qed
qed

lemma trimStartWith_id:
  assumes "find (\<lambda>w. w \<noteq> [] \<and> take (length w) s = w) ws = None"
  shows "trimStartWith ws s = s"
  using assms by (subst trimStartWith.simps) simp

lemma trimStartWith_suffix: "\<exists>p. s = p @ trimStartWith ws s"
proof (induction ws s rule: trimStartWith.induct)
  case (1 ws s)
  show ?case
  proof (cases "find (\<lambda>w. w \<noteq> [] \<and> take (length w) s = w) ws")
    case None
    then show ?thesis by (subst trimStartWith.simps) simp
  next
    case (Some w)
    with 1 obtain p where "drop (length w) s = p @ trimStartWith ws (drop (length w) s)" by blast
    then have "s = (take (length w) s @ p) @ trimStartWith ws (drop (length w) s)"
      by (metis append_assoc append_take_drop_id)
    then have "\<exists>q. s = q @ trimStartWith ws (drop (length w) s)" by (rule exI)
    then show ?thesis using Some by (subst trimStartWith.simps) simp
  qed
qed

lemma clean_prefix:
  assumes "find (\<lambda>w. w \<noteq> [] \<and> take (length w) (u @ v) = w) ws = None"
  shows "find (\<lambda>w. w \<noteq> [] \<and> take (length w) u = w) ws = None"
proof -
  have "\<not> (w \<noteq> [] \<and> take (length w) u = w)" if w: "w \<in> set ws" for w
  proof
    assume h: "w \<noteq> [] \<and> take (length w) u = w"
    have "length (take (length w) u) \<le> length u" by simp
    then have "length w \<le> length u" using h by simp
    then have "take (length w) (u @ v) = w" using h by simp
    with h w assms show False by (auto simp: find_None_iff)
  qed
  then show ?thesis by (auto simp: find_None_iff)
qed

lemma trim_idem: "trim (trim s) = trim s"
proof -
  let ?t = "trimStartWith whiteSpace s"
  let ?r = "trimStartWith (map rev whiteSpace) (rev ?t)"
  obtain p where p: "rev ?t = p @ ?r" using trimStartWith_suffix by blast
  then have "?t = rev ?r @ rev p" by (metis rev_append rev_rev_ident)
  then have "find (\<lambda>w. w \<noteq> [] \<and> take (length w) (rev ?r @ rev p) = w) whiteSpace = None"
    using trimStartWith_clean [of whiteSpace s] by simp
  then have "trimStartWith whiteSpace (rev ?r) = rev ?r"
    by (intro trimStartWith_id clean_prefix)
  moreover have "trimStartWith (map rev whiteSpace) ?r = ?r"
    by (intro trimStartWith_id trimStartWith_clean)
  ultimately show ?thesis by (simp add: trim_def)
qed

text \<open>The definitions that evaluate a coercion or a trim of a given text.\<close>

lemmas trim_defs = trim_def whiteSpace_def trimStartWith.simps

lemmas StringToNumber_defs =
  StringToNumber_def unsignedDecimal_def isExponentIndicator_def mantissa_def digitsIn_def
  isDigitIn_def digitOf_def digitsVal_def signedInteger_def prefixed_def trim_defs

text \<open>
  A literal beyond the largest double is an infinity, one below half the smallest double
  is 0, and one between two doubles is the nearer of them.
\<close>

lemma StringToNumber_rounds:
  "StringToNumber ''1e309'' = PosInf"
  "StringToNumber ''-1e309'' = NegInf"
  "StringToNumber ''1e-324'' = Fin 0"
  "StringToNumber ''2023.0000000000000001'' = Fin 2023"
proof -
  show "StringToNumber ''1e309'' = PosInf" "StringToNumber ''-1e309'' = NegInf"
    by (simp_all add: StringToNumber_defs round64_overflow)
  have "(1::real) / 10 ^ 324 < 2 powi (- 1075)"
    by (simp add: power_int_minus field_simps)
  then have "round64 (1 / 10 ^ 324) = Fin 0" by (intro round64_underflow) simp_all
  then show "StringToNumber ''1e-324'' = Fin 0" by (simp add: StringToNumber_defs)
  have "round64 (2023 + 1 / 10 ^ 16) = Fin 2023"
    using round64_nearest [of 10 "2023 + 1 / 10 ^ 16" "2023 * 2 ^ 42"]
    by (simp add: power_int_minus)
  then show "StringToNumber ''2023.0000000000000001'' = Fin 2023"
    by (simp add: StringToNumber_defs)
qed

section \<open>The filter pass as a map and a sum\<close>

lemma foldl_eachPoint:
  "foldl (eachPoint s) acc ps =
     (fst acc + (\<Sum>c\<leftarrow>ps. if visible s c then length (matchingMovies s (datum c)) else 0),
      snd acc @
      map (\<lambda>c. if visible s c
                then c\<lparr>attr_fill := ''red'', attr_opacity := 0.7, attr_r := attr_data_base_radius c\<rparr>
                else c\<lparr>attr_fill := ''gray'', attr_opacity := 0.3,
                       attr_r := jmul (attr_data_base_radius c) (round64 0.7)\<rparr>) ps)"
  by (induction ps arbitrary: acc) (simp_all add: eachPoint_def)

lemma foldl_eachPoint_km:
  "foldl (eachPoint_km pr s) acc ps =
     (fst acc + (\<Sum>c\<leftarrow>ps. if visible_km pr s c then 1 else 0),
      snd acc @
      map (\<lambda>c. if visible_km pr s c
                then c\<lparr>km_fill := ''#e74c3c'', km_opacity := 0.7, km_r := Fin 3\<rparr>
                else c\<lparr>km_fill := ''#bdc3c7'', km_opacity := 0.3, km_r := Fin 2\<rparr>) ps)"
  by (induction ps arbitrary: acc) (simp_all add: eachPoint_km_def)

lemma updateFilters_points:
  "location_points (updateFilters s) =
     map (\<lambda>c. if visible s c
               then c\<lparr>attr_fill := ''red'', attr_opacity := 0.7, attr_r := attr_data_base_radius c\<rparr>
               else c\<lparr>attr_fill := ''gray'', attr_opacity := 0.3,
                      attr_r := jmul (attr_data_base_radius c) (round64 0.7)\<rparr>)
       (location_points s)"
  by (simp add: updateFilters_def foldl_eachPoint)

lemma updateFilters_count:
  "visibleCount (updateFilters s) =
     (\<Sum>c\<leftarrow>location_points s. if visible s c then length (matchingMovies s (datum c)) else 0)"
  by (simp add: updateFilters_def foldl_eachPoint)

lemma updateFilters_km_points:
  "location_points (updateFilters_km pr s) =
     map (\<lambda>c. if visible_km pr s c
               then c\<lparr>km_fill := ''#e74c3c'', km_opacity := 0.7, km_r := Fin 3\<rparr>
               else c\<lparr>km_fill := ''#bdc3c7'', km_opacity := 0.3, km_r := Fin 2\<rparr>)
       (location_points s)"
  by (simp add: updateFilters_km_def foldl_eachPoint_km)

lemma updateFilters_km_count:
  "visibleCount (updateFilters_km pr s) =
     (\<Sum>c\<leftarrow>location_points s. if visible_km pr s c then 1 else 0)"
  by (simp add: updateFilters_km_def foldl_eachPoint_km)

text \<open>What a filter pass leaves as it was.\<close>

lemma updateFilters_frame:
  "circleA (updateFilters s) = circleA s"
  "circleB (updateFilters s) = circleB s"
  "allData (updateFilters s) = allData s"
  "yearMin_value (updateFilters s) = yearMin_value s"
  "yearMax_value (updateFilters s) = yearMax_value s"
  "query_circles (updateFilters s) = query_circles s"
  "directorFilter_value (updateFilters s) = directorFilter_value s"
  "neighborhoodFilter_value (updateFilters s) = neighborhoodFilter_value s"
  by (simp_all add: updateFilters_def Let_def)

lemma updateFilters_km_frame:
  "circleA (updateFilters_km pr s) = circleA s"
  "circleB (updateFilters_km pr s) = circleB s"
  "allData (updateFilters_km pr s) = allData s"
  "yearMin_value (updateFilters_km pr s) = yearMin_value s"
  "yearMax_value (updateFilters_km pr s) = yearMax_value s"
  "query_circles (updateFilters_km pr s) = query_circles s"
  "directorFilter_value (updateFilters_km pr s) = directorFilter_value s"
  "neighborhoodFilter_value (updateFilters_km pr s) = neighborhoodFilter_value s"
  by (simp_all add: updateFilters_km_def Let_def)

section \<open>Membership in a circle\<close>

text \<open>
  Numbers on a grid of step \<open>2\<^sup>k\<close> with fewer than 53 bits are doubles, so an operation
  whose exact result is such a number returns it unrounded.
\<close>

lemma round64_grid:
  assumes "\<bar>m\<bar> < 2 ^ 53" and "- 1074 \<le> k" and "k \<le> 970"
  shows "round64 (of_int m * 2 powi k) = Fin (of_int m * 2 powi k)"
proof (rule round64_dyadic [of _ m k])
  have m: "\<bar>real_of_int m\<bar> < 2 ^ 53" using assms(1) by (simp flip: of_int_abs of_int_less_iff)
  have "(2::real) powi k \<le> 2 powi 970" using assms(3) by (intro power_int_increasing) simp_all
  then have "\<bar>real_of_int m * 2 powi k\<bar> \<le> \<bar>real_of_int m\<bar> * 2 powi 970"
    by (simp add: abs_mult mult_left_mono)
  also have "\<dots> < 2 ^ 53 * 2 powi 970" using m by simp
  also have "\<dots> < (2::real) ^ 1024" by simp
  finally show "\<bar>real_of_int m * 2 powi k\<bar> < 2 ^ 1024" .
qed (use assms in simp_all)

lemma round64_grid_square:
  fixes m k :: int
  assumes "\<bar>m\<bar> < 2 ^ 26" and "- 500 \<le> k" and "k \<le> 480"
  shows "round64 (of_int m * 2 powi k * (of_int m * 2 powi k))
         = Fin (of_int (m * m) * 2 powi (2 * k))"
proof -
  have "\<bar>m\<bar> * \<bar>m\<bar> < 2 ^ 26 * 2 ^ 26"
    using assms(1) by (intro mult_strict_mono) simp_all
  then have sq: "\<bar>m * m\<bar> < 2 ^ 53" by (simp add: abs_mult)
  have pk: "(2::real) powi (2 * k) = 2 powi k * 2 powi k"
    using power_int_add [of "2::real" k k] by (simp only: mult_2) simp
  have eq: "real_of_int m * 2 powi k * (of_int m * 2 powi k) = of_int (m * m) * 2 powi (2 * k)"
    unfolding pk by simp
  show ?thesis
    unfolding eq using sq assms(2,3) by (intro round64_grid) simp_all
qed

lemma isInCircle_grid:
  fixes a b u v r k :: int
  assumes "\<bar>a\<bar> < 2 ^ 25" and "\<bar>b\<bar> < 2 ^ 25" and "\<bar>u\<bar> < 2 ^ 25" and "\<bar>v\<bar> < 2 ^ 25"
    and "\<bar>r\<bar> < 2 ^ 26" and "- 500 \<le> k" and "k \<le> 480"
  shows "isInCircle (Fin (of_int a * 2 powi k)) (Fin (of_int b * 2 powi k))
           \<lparr>xc = Fin (of_int u * 2 powi k), yc = Fin (of_int v * 2 powi k),
            radius = Fin (of_int r * 2 powi k)\<rparr>
         = ((a - u)\<^sup>2 + (b - v)\<^sup>2 \<le> r\<^sup>2)"
proof -
  define dx dy where "dx = a - u" and "dy = b - v"
  have au: "\<bar>dx\<bar> < 2 ^ 26" and bv: "\<bar>dy\<bar> < 2 ^ 26" using assms(1-4) by (simp_all add: dx_def dy_def)
  have k1: "- 1074 \<le> k" "k \<le> 970" and k2: "- 1074 \<le> 2 * k" "2 * k \<le> 970"
    using assms(6,7) by simp_all
  have "\<bar>dx\<bar> < 2 ^ 53" using au by simp
  from round64_grid [OF this k1]
  have dx: "jsub (Fin (of_int a * 2 powi k)) (Fin (of_int u * 2 powi k)) = Fin (of_int dx * 2 powi k)"
    by (simp add: jsub_def dx_def left_diff_distrib)
  have "\<bar>dy\<bar> < 2 ^ 53" using bv by simp
  from round64_grid [OF this k1]
  have dy: "jsub (Fin (of_int b * 2 powi k)) (Fin (of_int v * 2 powi k)) = Fin (of_int dy * 2 powi k)"
    by (simp add: jsub_def dy_def left_diff_distrib)
  have sq: "m * m < 2 ^ 52" if "\<bar>m\<bar> < 2 ^ 26" for m :: int
  proof -
    have "\<bar>m\<bar> * \<bar>m\<bar> < 2 ^ 26 * 2 ^ 26"
      using that by (intro mult_strict_mono) simp_all
    then show ?thesis by (simp add: abs_mult_self_eq)
  qed
  have "0 \<le> dx * dx + dy * dy" by simp
  moreover have "dx * dx + dy * dy < 2 ^ 53" using sq [OF au] sq [OF bv] by simp
  ultimately have "\<bar>dx * dx + dy * dy\<bar> < 2 ^ 53" by simp
  from round64_grid [OF this k2]
  have sm: "jadd (Fin (of_int (dx * dx) * 2 powi (2 * k))) (Fin (of_int (dy * dy) * 2 powi (2 * k)))
            = Fin (of_int (dx * dx + dy * dy) * 2 powi (2 * k))"
    by (simp add: distrib_right)
  have pos: "(0::real) < 2 powi (2 * k)" by simp
  have "isInCircle (Fin (of_int a * 2 powi k)) (Fin (of_int b * 2 powi k))
           \<lparr>xc = Fin (of_int u * 2 powi k), yc = Fin (of_int v * 2 powi k),
            radius = Fin (of_int r * 2 powi k)\<rparr>
        = (real_of_int (dx * dx + dy * dy) * 2 powi (2 * k) \<le> real_of_int (r * r) * 2 powi (2 * k))"
    by (simp only: isInCircle_def Let_def circle.simps dx dy jmul.simps jle.simps sm
        round64_grid_square [OF au assms(6,7)] round64_grid_square [OF bv assms(6,7)]
        round64_grid_square [OF assms(5,6,7)])
  also have "\<dots> = (real_of_int (dx * dx + dy * dy) \<le> real_of_int (r * r))"
    using pos by (simp only: mult_le_cancel_right_pos)
  also have "\<dots> = (dx * dx + dy * dy \<le> r * r)"
    by (simp only: of_int_le_iff)
  finally show ?thesis by (simp add: power2_eq_square dx_def dy_def)
qed

text \<open>
  Away from the edge the test agrees with the exact comparison. Each of the six roundings
  of the test changes its operand by the fraction \<open>2\<^sup>-\<^sup>5\<^sup>3\<close> at most, or by half the smallest
  double; together they cannot carry a point across the edge unless its squared distance
  is within the fraction \<open>2\<^sup>-\<^sup>4\<^sup>9\<close> of the squared radius, for a radius that is not so small
  or so large that its square leaves the range of the normal doubles.
\<close>

lemma abs_le_square:
  fixes T :: real
  shows "T \<le> 2 ^ 500 * (T * T) + 1 / 2 ^ 502"
proof -
  have "0 \<le> (2 ^ 250 * T - 1 / 2 ^ 251) * (2 ^ 250 * T - 1 / 2 ^ 251)" by simp
  also have "\<dots> = 2 ^ 500 * (T * T) - T + 1 / 2 ^ 502"
    by (simp add: algebra_simps)
  finally show ?thesis by simp
qed

lemma square_error:
  fixes d t :: real
  assumes "\<bar>d - t\<bar> \<le> \<bar>t\<bar> / 2 ^ 53 + 1 / 2 ^ 1075"
  shows "\<bar>d * d - t * t\<bar> \<le> 4 * (t * t) / 2 ^ 53 + (1 / 2) / 2 ^ 1075"
proof -
  define T where "T = \<bar>t\<bar>"
  define p where "p = T / 2 ^ 53 + 1 / 2 ^ 1075"
  have T: "0 \<le> T" "T * T = t * t" by (simp_all add: T_def)
  have p: "0 \<le> p" using T(1) by (simp add: p_def)
  have dt: "\<bar>d - t\<bar> \<le> p" using assms by (simp add: p_def T_def)
  have "\<bar>d + t\<bar> \<le> \<bar>d - t\<bar> + 2 * T" by (simp add: T_def)
  then have dt': "\<bar>d + t\<bar> \<le> p + 2 * T" using dt by simp
  have "d * d - t * t = (d - t) * (d + t)" by (simp add: algebra_simps)
  then have "\<bar>d * d - t * t\<bar> = \<bar>d - t\<bar> * \<bar>d + t\<bar>" by (simp add: abs_mult)
  also have "\<dots> \<le> p * (p + 2 * T)"
    using dt dt' p by (intro mult_mono) simp_all
  also have "\<dots> = (2 / 2 ^ 53 + 1 / 2 ^ 106) * (T * T) + (2 / 2 ^ 1075 + 2 / 2 ^ 1128) * T
                    + 1 / 2 ^ 2150"
    by (simp add: p_def algebra_simps)
  finally have 1: "\<bar>d * d - t * t\<bar>
      \<le> (2 / 2 ^ 53 + 1 / 2 ^ 106) * (T * T) + (2 / 2 ^ 1075 + 2 / 2 ^ 1128) * T + 1 / 2 ^ 2150" .
  have "(2 / 2 ^ 1075 + 2 / 2 ^ 1128) * T
      \<le> (2 / 2 ^ 1075 + 2 / 2 ^ 1128) * (2 ^ 500 * (T * T) + 1 / 2 ^ 502)"
    using abs_le_square [of T] by (intro mult_left_mono) simp_all
  also have "\<dots> = (2 / 2 ^ 575 + 2 / 2 ^ 628) * (T * T) + (2 / 2 ^ 1577 + 2 / 2 ^ 1630)"
    by (simp add: algebra_simps)
  finally have 2: "(2 / 2 ^ 1075 + 2 / 2 ^ 1128) * T
      \<le> (2 / 2 ^ 575 + 2 / 2 ^ 628) * (T * T) + (2 / 2 ^ 1577 + 2 / 2 ^ 1630)" .
  have 3: "0 \<le> T * T" by simp
  have "(2 / 2 ^ 53 + 1 / 2 ^ 106 + (2 / 2 ^ 575 + 2 / 2 ^ 628)) * (T * T) \<le> 4 / 2 ^ 53 * (T * T)"
    using 3 by (intro mult_right_mono) simp_all
  then show ?thesis using 1 2 unfolding T(2) [symmetric] by (simp add: algebra_simps)
qed

lemma rounded_square_error:
  fixes d t X :: real
  assumes d: "\<bar>d - t\<bar> \<le> \<bar>t\<bar> / 2 ^ 53 + 1 / 2 ^ 1075"
    and X: "\<bar>X - d * d\<bar> \<le> \<bar>d * d\<bar> / 2 ^ 53 + 1 / 2 ^ 1075"
  shows "\<bar>X - t * t\<bar> \<le> 6 * (t * t) / 2 ^ 53 + 2 / 2 ^ 1075"
proof -
  have 0: "0 \<le> t * t" "0 \<le> d * d" by simp_all
  from square_error [OF d] have 1: "\<bar>d * d - t * t\<bar> \<le> 4 * (t * t) / 2 ^ 53 + (1 / 2) / 2 ^ 1075" .
  have 2: "\<bar>d * d\<bar> = d * d" by simp
  show ?thesis using 0 1 X unfolding 2 by simp
qed

lemma tolerance_linear:
  fixes A B X Y S R r2 :: real
  assumes A: "0 \<le> A" and B: "0 \<le> B"
    and X: "\<bar>X - A\<bar> \<le> 6 * A / 2 ^ 53 + 2 / 2 ^ 1075"
    and Y: "\<bar>Y - B\<bar> \<le> 6 * B / 2 ^ 53 + 2 / 2 ^ 1075"
    and S: "\<bar>S - (X + Y)\<bar> \<le> \<bar>X + Y\<bar> / 2 ^ 53 + 1 / 2 ^ 1075"
    and R: "\<bar>R - r2\<bar> \<le> \<bar>r2\<bar> / 2 ^ 53 + 1 / 2 ^ 1075"
    and r2: "1 / 2 ^ 1000 \<le> r2"
  shows "A + B \<le> r2 * (1 - 1 / 2 ^ 49) \<Longrightarrow> S \<le> R"
    and "r2 * (1 + 1 / 2 ^ 49) \<le> A + B \<Longrightarrow> R < S"
proof -
  define D where "D = A + B"
  define h where "h = (1::real) / 2 ^ 1075"
  define W where "W = X + Y"
  have D: "0 \<le> D" using A B by (simp add: D_def)
  have h: "0 < h" "h \<le> r2 / 2 ^ 75" using r2 by (simp_all add: h_def)
  have r0: "0 < r2" using r2 by (smt (verit) divide_pos_pos zero_less_numeral zero_less_power zero_less_one)
  have "X \<le> A + 6 * A / 2 ^ 53 + 2 * h" "A - 6 * A / 2 ^ 53 - 2 * h \<le> X"
    using X by (simp_all add: h_def abs_le_iff)
  moreover have "Y \<le> B + 6 * B / 2 ^ 53 + 2 * h" "B - 6 * B / 2 ^ 53 - 2 * h \<le> Y"
    using Y by (simp_all add: h_def abs_le_iff)
  ultimately have W: "W \<le> D + 6 * D / 2 ^ 53 + 4 * h" "D - 6 * D / 2 ^ 53 - 4 * h \<le> W"
    by (simp_all add: W_def D_def add_divide_distrib distrib_left)
  have Wa: "\<bar>W\<bar> \<le> D + 6 * D / 2 ^ 53 + 4 * h"
    using W D h(1) by (simp add: abs_le_iff)
  have "\<bar>W\<bar> / 2 ^ 53 \<le> (D + 6 * D / 2 ^ 53 + 4 * h) / 2 ^ 53"
    using Wa by (intro divide_right_mono) simp_all
  also have "\<dots> \<le> 2 * D / 2 ^ 53 + h"
    using D h(1) by simp
  finally have We: "\<bar>W\<bar> / 2 ^ 53 \<le> 2 * D / 2 ^ 53 + h" .
  have "\<bar>S - W\<bar> \<le> \<bar>W\<bar> / 2 ^ 53 + h" using S by (simp add: W_def h_def)
  then have "\<bar>S - W\<bar> \<le> 2 * D / 2 ^ 53 + 2 * h" using We by simp
  then have "S \<le> W + 2 * D / 2 ^ 53 + 2 * h" "W - 2 * D / 2 ^ 53 - 2 * h \<le> S"
    by (simp_all add: abs_le_iff)
  then have Sb: "S \<le> D + 8 * D / 2 ^ 53 + 6 * h" "D - 8 * D / 2 ^ 53 - 6 * h \<le> S"
    using W by simp_all
  have "\<bar>R - r2\<bar> \<le> r2 / 2 ^ 53 + h" using R r0 by (simp add: h_def)
  then have Rb: "R \<le> r2 + r2 / 2 ^ 53 + h" "r2 - r2 / 2 ^ 53 - h \<le> R"
    by (simp_all add: abs_le_iff)
  show "S \<le> R" if "A + B \<le> r2 * (1 - 1 / 2 ^ 49)"
  proof -
    from that have "D \<le> r2 - 16 * r2 / 2 ^ 53" by (simp add: D_def algebra_simps)
    then show ?thesis using Sb(1) Rb(2) h r0 D by simp
  qed
  show "R < S" if "r2 * (1 + 1 / 2 ^ 49) \<le> A + B"
  proof -
    from that have "r2 + 16 * r2 / 2 ^ 53 \<le> D" by (simp add: D_def algebra_simps)
    then show ?thesis using Sb(2) Rb(1) h r0 D by simp
  qed
qed

text \<open>A square is NaN, Infinity or a double that is not negative.\<close>

lemma square_cases:
  "jmul d d = NaN \<or> jmul d d = PosInf
   \<or> (\<exists>a x. d = Fin a \<and> jmul d d = Fin x \<and> 0 \<le> x \<and> round64 (a * a) = Fin x)"
proof (cases d)
  case (Fin a)
  then show ?thesis using round64_nonneg [of "a * a"] by auto
qed simp_all

lemma square_le_bound:
  fixes x :: real
  assumes "\<bar>x\<bar> \<le> c"
  shows "x * x \<le> c * c"
proof -
  have "\<bar>x\<bar> * \<bar>x\<bar> \<le> c * c" using assms by (intro mult_mono) simp_all
  then show ?thesis by (simp add: abs_mult_self_eq)
qed

lemma abs_le_of_square_le:
  fixes x c :: real
  assumes "x * x \<le> c * c" and "0 \<le> c"
  shows "\<bar>x\<bar> \<le> c"
proof (rule ccontr)
  assume "\<not> \<bar>x\<bar> \<le> c"
  then have "c < \<bar>x\<bar>" by simp
  then have "c * c < \<bar>x\<bar> * \<bar>x\<bar>" using assms(2) by (intro mult_strict_mono) simp_all
  then show False using assms(1) by (simp add: abs_mult_self_eq)
qed

lemma rounded_finite:
  assumes "\<bar>x\<bar> \<le> 2 ^ 1010"
  obtains y where "round64 x = Fin y" and "\<bar>y - x\<bar> \<le> \<bar>x\<bar> / 2 ^ 53 + 1 / 2 ^ 1075"
    and "\<bar>y\<bar> \<le> 2 * \<bar>x\<bar> + 1"
proof -
  have "\<bar>x\<bar> \<le> 2 ^ 1023" using assms by simp
  from round64_finite [OF this] obtain y where y: "round64 x = Fin y" by blast
  note e = round64_error [OF y]
  have "\<bar>x\<bar> / 2 ^ 53 \<le> \<bar>x\<bar>" by simp
  then have "\<bar>y\<bar> \<le> 2 * \<bar>x\<bar> + 1" using e by simp
  with y e show ?thesis by (rule that)
qed

lemma isInCircle_inside:
  fixes a b u v r :: real
  assumes r: "1 / 2 ^ 500 \<le> \<bar>r\<bar>" "\<bar>r\<bar> \<le> 2 ^ 500"
    and D: "(a - u)\<^sup>2 + (b - v)\<^sup>2 \<le> r\<^sup>2 * (1 - 1 / 2 ^ 49)"
  shows "isInCircle (Fin a) (Fin b) \<lparr>xc = Fin u, yc = Fin v, radius = Fin r\<rparr>"
proof -
  define t s where "t = a - u" and "s = b - v"
  have "1 / 2 ^ 500 * (1 / 2 ^ 500) \<le> \<bar>r\<bar> * \<bar>r\<bar>" using r(1) by (intro mult_mono) simp_all
  then have r2: "1 / 2 ^ 1000 \<le> r * r" by (simp add: abs_mult_self_eq)
  have r2': "r * r \<le> 2 ^ 1000" using square_le_bound [OF r(2)] by simp
  have D': "t * t + s * s \<le> r * r * (1 - 1 / 2 ^ 49)"
    using D by (simp add: t_def s_def power2_eq_square)
  have "r * r * (1 - 1 / 2 ^ 49) \<le> r * r" by (simp add: mult_left_le)
  then have ts: "t * t + s * s \<le> 2 ^ 1000" using D' r2' by linarith
  have nn: "0 \<le> t * t" "0 \<le> s * s" by simp_all
  have "t * t \<le> 2 ^ 1000" using ts nn by linarith
  then have "t * t \<le> 2 ^ 500 * 2 ^ 500" by simp
  then have ta: "\<bar>t\<bar> \<le> 2 ^ 500" by (rule abs_le_of_square_le) simp
  have "s * s \<le> 2 ^ 1000" using ts nn by linarith
  then have "s * s \<le> 2 ^ 500 * 2 ^ 500" by simp
  then have sa: "\<bar>s\<bar> \<le> 2 ^ 500" by (rule abs_le_of_square_le) simp
  have "\<bar>t\<bar> \<le> 2 ^ 1010" using ta by simp
  from rounded_finite [OF this] obtain dx
    where dx: "round64 t = Fin dx" "\<bar>dx - t\<bar> \<le> \<bar>t\<bar> / 2 ^ 53 + 1 / 2 ^ 1075" "\<bar>dx\<bar> \<le> 2 * \<bar>t\<bar> + 1" .
  have "\<bar>s\<bar> \<le> 2 ^ 1010" using sa by simp
  from rounded_finite [OF this] obtain dy
    where dy: "round64 s = Fin dy" "\<bar>dy - s\<bar> \<le> \<bar>s\<bar> / 2 ^ 53 + 1 / 2 ^ 1075" "\<bar>dy\<bar> \<le> 2 * \<bar>s\<bar> + 1" .
  have "\<bar>dx\<bar> \<le> 2 ^ 502" using dx(3) ta by simp
  from square_le_bound [OF this] have "\<bar>dx * dx\<bar> \<le> 2 ^ 1010" by simp
  from rounded_finite [OF this] obtain X
    where X: "round64 (dx * dx) = Fin X" "\<bar>X - dx * dx\<bar> \<le> \<bar>dx * dx\<bar> / 2 ^ 53 + 1 / 2 ^ 1075"
      "\<bar>X\<bar> \<le> 2 * \<bar>dx * dx\<bar> + 1" .
  have "\<bar>dy\<bar> \<le> 2 ^ 502" using dy(3) sa by simp
  from square_le_bound [OF this] have "\<bar>dy * dy\<bar> \<le> 2 ^ 1010" by simp
  from rounded_finite [OF this] obtain Y
    where Y: "round64 (dy * dy) = Fin Y" "\<bar>Y - dy * dy\<bar> \<le> \<bar>dy * dy\<bar> / 2 ^ 53 + 1 / 2 ^ 1075"
      "\<bar>Y\<bar> \<le> 2 * \<bar>dy * dy\<bar> + 1" .
  have "\<bar>X\<bar> \<le> 2 ^ 1006" using X(3) square_le_bound [OF \<open>\<bar>dx\<bar> \<le> 2 ^ 502\<close>] by simp
  moreover have "\<bar>Y\<bar> \<le> 2 ^ 1006" using Y(3) square_le_bound [OF \<open>\<bar>dy\<bar> \<le> 2 ^ 502\<close>] by simp
  ultimately have "\<bar>X + Y\<bar> \<le> 2 ^ 1010" by simp
  from rounded_finite [OF this] obtain S
    where S: "round64 (X + Y) = Fin S" "\<bar>S - (X + Y)\<bar> \<le> \<bar>X + Y\<bar> / 2 ^ 53 + 1 / 2 ^ 1075"
      "\<bar>S\<bar> \<le> 2 * \<bar>X + Y\<bar> + 1" .
  have "\<bar>r * r\<bar> \<le> 2 ^ 1010" using r2' by simp
  from rounded_finite [OF this] obtain R
    where R: "round64 (r * r) = Fin R" "\<bar>R - r * r\<bar> \<le> \<bar>r * r\<bar> / 2 ^ 53 + 1 / 2 ^ 1075"
      "\<bar>R\<bar> \<le> 2 * \<bar>r * r\<bar> + 1" .
  have "S \<le> R"
    using tolerance_linear(1)
      [OF _ _ rounded_square_error [OF dx(2) X(2)] rounded_square_error [OF dy(2) Y(2)] S(2) R(2) r2 D']
    by simp
  then show ?thesis
    using dx(1) dy(1) X(1) Y(1) S(1) R(1)
    by (simp add: isInCircle_def jsub_def Let_def t_def s_def)
qed

lemma isInCircle_outside:
  fixes a b u v r :: real
  assumes r: "1 / 2 ^ 500 \<le> \<bar>r\<bar>" "\<bar>r\<bar> \<le> 2 ^ 500"
    and D: "r\<^sup>2 * (1 + 1 / 2 ^ 49) \<le> (a - u)\<^sup>2 + (b - v)\<^sup>2"
  shows "\<not> isInCircle (Fin a) (Fin b) \<lparr>xc = Fin u, yc = Fin v, radius = Fin r\<rparr>"
proof
  assume c: "isInCircle (Fin a) (Fin b) \<lparr>xc = Fin u, yc = Fin v, radius = Fin r\<rparr>"
  define t s where "t = a - u" and "s = b - v"
  have "1 / 2 ^ 500 * (1 / 2 ^ 500) \<le> \<bar>r\<bar> * \<bar>r\<bar>" using r(1) by (intro mult_mono) simp_all
  then have r2: "1 / 2 ^ 1000 \<le> r * r" by (simp add: abs_mult_self_eq)
  have r2': "r * r \<le> 2 ^ 1000" using square_le_bound [OF r(2)] by simp
  have D': "r * r * (1 + 1 / 2 ^ 49) \<le> t * t + s * s"
    using D by (simp add: t_def s_def power2_eq_square)
  have "\<bar>r * r\<bar> \<le> 2 ^ 1010" using r2' by simp
  from rounded_finite [OF this] obtain R
    where R: "round64 (r * r) = Fin R" "\<bar>R - r * r\<bar> \<le> \<bar>r * r\<bar> / 2 ^ 53 + 1 / 2 ^ 1075"
      "\<bar>R\<bar> \<le> 2 * \<bar>r * r\<bar> + 1" .
  define dx dy where "dx = jsub (Fin a) (Fin u)" and "dy = jsub (Fin b) (Fin v)"
  from c R(1) have le: "jle (jadd (jmul dx dx) (jmul dy dy)) (Fin R)"
    by (simp add: isInCircle_def Let_def dx_def dy_def)
  from square_cases [of dx] square_cases [of dy] le
  obtain d e X Y where d: "dx = Fin d" "round64 (d * d) = Fin X"
    and e: "dy = Fin e" "round64 (e * e) = Fin Y"
    and xy: "0 \<le> X" "0 \<le> Y" "jle (round64 (X + Y)) (Fin R)"
    by auto
  from round64_nonneg [of "X + Y"] xy
  obtain S where S: "round64 (X + Y) = Fin S" "S \<le> R" by auto
  have dt: "round64 t = Fin d" "round64 s = Fin e"
    using d(1) e(1) by (simp_all add: dx_def dy_def jsub_def t_def s_def)
  have "R < S"
    using tolerance_linear(2)
      [OF _ _ rounded_square_error [OF round64_error [OF dt(1)] round64_error [OF d(2)]]
          rounded_square_error [OF round64_error [OF dt(2)] round64_error [OF e(2)]]
          round64_error [OF S(1)] R(2) r2 D']
    by simp
  with S(2) show False by simp
qed

lemma jle_refl: "x \<noteq> NaN \<Longrightarrow> jle x x"
  by (cases x) simp_all

text \<open>
  C2, as it holds. \<^verbatim>\<open>isInCircle\<close> compares, with \<^verbatim>\<open><=\<close>, the squared distance and the
  squared radius as double arithmetic computes them: each difference, each square and
  the sum are rounded to the nearest double. The second file runs the same test on the
  radius \<^verbatim>\<open>kmToPixels\<close> returns. When the computed squared distance equals the computed
  squared radius the point is contained. For a point, a centre and a radius on a grid of
  step \<open>2\<^sup>k\<close> (integers, for \<open>k = 0\<close>) with coordinates below \<open>2\<^sup>2\<^sup>5\<close> grid steps, nothing is
  rounded and the test is the comparison of the exact squared distance with the exact
  squared radius. For any finite point and centre, and a radius between \<open>2\<^sup>-\<^sup>5\<^sup>0\<^sup>0\<close> and
  \<open>2\<^sup>5\<^sup>0\<^sup>0\<close>, the test agrees with the exact comparison away from the edge: the point is
  contained when its exact squared distance is at most the squared radius less the
  fraction \<open>2\<^sup>-\<^sup>4\<^sup>9\<close> of it, and is not contained when it is at least the squared radius
  plus that fraction.
\<close>

theorem isInCircle_squared_distance:
  "isInCircle px py c
     = jle (jadd (jmul (jsub px (xc c)) (jsub px (xc c))) (jmul (jsub py (yc c)) (jsub py (yc c))))
           (jmul (radius c) (radius c))
   \<and> isInCircle_km pr px py c = isInCircle px py (c\<lparr>radius := kmToPixels pr (radius c)\<rparr>)
   \<and> (jadd (jmul (jsub px (xc c)) (jsub px (xc c))) (jmul (jsub py (yc c)) (jsub py (yc c)))
         = jmul (radius c) (radius c)
       \<and> jmul (radius c) (radius c) \<noteq> NaN \<longrightarrow> isInCircle px py c)
   \<and> (\<bar>a\<bar> < 2 ^ 25 \<and> \<bar>b\<bar> < 2 ^ 25 \<and> \<bar>u\<bar> < 2 ^ 25 \<and> \<bar>v\<bar> < 2 ^ 25 \<and> \<bar>r\<bar> < 2 ^ 26
       \<and> - 500 \<le> k \<and> k \<le> 480 \<longrightarrow>
        isInCircle (Fin (of_int a * 2 powi k)) (Fin (of_int b * 2 powi k))
          \<lparr>xc = Fin (of_int u * 2 powi k), yc = Fin (of_int v * 2 powi k),
           radius = Fin (of_int r * 2 powi k)\<rparr>
        = ((a - u)\<^sup>2 + (b - v)\<^sup>2 \<le> r\<^sup>2))
   \<and> (1 / 2 ^ 500 \<le> \<bar>rho\<bar> \<and> \<bar>rho\<bar> \<le> 2 ^ 500 \<longrightarrow>
        ((x - x0)\<^sup>2 + (y - y0)\<^sup>2 \<le> rho\<^sup>2 * (1 - 1 / 2 ^ 49) \<longrightarrow>
           isInCircle (Fin x) (Fin y) \<lparr>xc = Fin x0, yc = Fin y0, radius = Fin rho\<rparr>)
        \<and> (rho\<^sup>2 * (1 + 1 / 2 ^ 49) \<le> (x - x0)\<^sup>2 + (y - y0)\<^sup>2 \<longrightarrow>
           \<not> isInCircle (Fin x) (Fin y) \<lparr>xc = Fin x0, yc = Fin y0, radius = Fin rho\<rparr>))"
proof -
  have 1: "isInCircle px py c
     = jle (jadd (jmul (jsub px (xc c)) (jsub px (xc c))) (jmul (jsub py (yc c)) (jsub py (yc c))))
           (jmul (radius c) (radius c))"
    by (simp add: isInCircle_def Let_def)
  have 2: "isInCircle_km pr px py c = isInCircle px py (c\<lparr>radius := kmToPixels pr (radius c)\<rparr>)"
    by (simp add: isInCircle_km_def isInCircle_def Let_def)
  have 3: "isInCircle px py c"
    if "jadd (jmul (jsub px (xc c)) (jsub px (xc c))) (jmul (jsub py (yc c)) (jsub py (yc c)))
         = jmul (radius c) (radius c)" "jmul (radius c) (radius c) \<noteq> NaN"
    unfolding 1 that(1) using that(2) by (rule jle_refl)
  show ?thesis
    using 1 2 3 isInCircle_grid [of a b u v r k] isInCircle_inside [of rho x x0 y y0]
      isInCircle_outside [of rho x x0 y y0]
    by blast
qed

text \<open>
  The point (3, 4) is on the edge of the circle of radius 5 about the origin, and is
  contained; (3, 5) is outside. On the grid of step one half, (1.5, 2) is on the edge of
  the circle of radius 2.5. The point \<open>(3 + 2\<^sup>-\<^sup>4\<^sup>0, 4)\<close> is well inside the circle of radius
  \<open>5 + 2\<^sup>-\<^sup>2\<^sup>0\<close> and well outside the circle of radius \<open>5 - 2\<^sup>-\<^sup>2\<^sup>0\<close>. With a projection that
  sends every place to one pixel, a kilometre is 0 pixels: the centre of a circle of 5 km
  is on its edge and contained, the pixel beside it is not.
\<close>

theorem isInCircle_squared_distance_witness:
  "isInCircle (Fin 3) (Fin 4) \<lparr>xc = Fin 0, yc = Fin 0, radius = Fin 5\<rparr>
   \<and> \<not> isInCircle (Fin 3) (Fin 5) \<lparr>xc = Fin 0, yc = Fin 0, radius = Fin 5\<rparr>
   \<and> isInCircle (Fin (3 / 2)) (Fin 2) \<lparr>xc = Fin 0, yc = Fin 0, radius = Fin (5 / 2)\<rparr>
   \<and> isInCircle (Fin (3 + 1 / 2 ^ 40)) (Fin 4) \<lparr>xc = Fin 0, yc = Fin 0, radius = Fin (5 + 1 / 2 ^ 20)\<rparr>
   \<and> \<not> isInCircle (Fin (3 + 1 / 2 ^ 40)) (Fin 4)
         \<lparr>xc = Fin 0, yc = Fin 0, radius = Fin (5 - 1 / 2 ^ 20)\<rparr>
   \<and> kmToPixels (\<lambda>p. (Fin 90, Fin 30)) (Fin 5) = Fin 0
   \<and> isInCircle_km (\<lambda>p. (Fin 90, Fin 30)) (Fin 90) (Fin 30) \<lparr>xc = Fin 90, yc = Fin 30, radius = Fin 5\<rparr>
   \<and> \<not> isInCircle_km (\<lambda>p. (Fin 90, Fin 30)) (Fin 91) (Fin 30)
         \<lparr>xc = Fin 90, yc = Fin 30, radius = Fin 5\<rparr>"
proof -
  have k: "kmToPixels (\<lambda>p. (Fin 90, Fin 30)) (Fin 5) = Fin 0"
    by (simp add: kmToPixels_def Let_def jsub_def)
  have a: "isInCircle (Fin 3) (Fin 4) \<lparr>xc = Fin 0, yc = Fin 0, radius = Fin 5\<rparr>"
    using isInCircle_squared_distance
      [of _ _ _ _ 3 4 0 0 5 0, THEN conjunct2, THEN conjunct2, THEN conjunct2]
    by simp
  have b: "\<not> isInCircle (Fin 3) (Fin 5) \<lparr>xc = Fin 0, yc = Fin 0, radius = Fin 5\<rparr>"
    using isInCircle_squared_distance
      [of _ _ _ _ 3 5 0 0 5 0, THEN conjunct2, THEN conjunct2, THEN conjunct2]
    by simp
  have c: "isInCircle (Fin (3 / 2)) (Fin 2) \<lparr>xc = Fin 0, yc = Fin 0, radius = Fin (5 / 2)\<rparr>"
    using isInCircle_squared_distance
      [of _ _ _ _ 3 4 0 0 5 "- 1", THEN conjunct2, THEN conjunct2, THEN conjunct2]
    by simp
  have d: "isInCircle_km (\<lambda>p. (Fin 90, Fin 30)) (Fin 90) (Fin 30)
             \<lparr>xc = Fin 90, yc = Fin 30, radius = Fin 5\<rparr>"
    using isInCircle_squared_distance
      [of "Fin 90" "Fin 30" "\<lparr>xc = Fin 90, yc = Fin 30, radius = Fin 5\<rparr>" "\<lambda>p. (Fin 90, Fin 30)"
          90 30 90 30 0 0, THEN conjunct2]
    by (simp add: k)
  have e: "\<not> isInCircle_km (\<lambda>p. (Fin 90, Fin 30)) (Fin 91) (Fin 30)
             \<lparr>xc = Fin 90, yc = Fin 30, radius = Fin 5\<rparr>"
    using isInCircle_squared_distance
      [of "Fin 91" "Fin 30" "\<lparr>xc = Fin 90, yc = Fin 30, radius = Fin 5\<rparr>" "\<lambda>p. (Fin 90, Fin 30)"
          91 30 90 30 0 0, THEN conjunct2]
    by (simp add: k)
  have f: "isInCircle (Fin (3 + 1 / 2 ^ 40)) (Fin 4)
             \<lparr>xc = Fin 0, yc = Fin 0, radius = Fin (5 + 1 / 2 ^ 20)\<rparr>"
    using isInCircle_squared_distance
      [where rho = "5 + 1 / 2 ^ 20" and x = "3 + 1 / 2 ^ 40" and y = 4 and ?x0.0 = 0 and ?y0.0 = 0,
       THEN conjunct2, THEN conjunct2, THEN conjunct2, THEN conjunct2]
    by (simp add: power2_eq_square)
  have g: "\<not> isInCircle (Fin (3 + 1 / 2 ^ 40)) (Fin 4)
             \<lparr>xc = Fin 0, yc = Fin 0, radius = Fin (5 - 1 / 2 ^ 20)\<rparr>"
    using isInCircle_squared_distance
      [where rho = "5 - 1 / 2 ^ 20" and x = "3 + 1 / 2 ^ 40" and y = 4 and ?x0.0 = 0 and ?y0.0 = 0,
       THEN conjunct2, THEN conjunct2, THEN conjunct2, THEN conjunct2]
    by (simp add: power2_eq_square)
  show ?thesis using a b c d e f g k by simp
qed

text \<open>
  C2, as the specification words it, fails within rounding. The point \<open>(1, 2\<^sup>-\<^sup>3\<^sup>0)\<close> is
  outside the circle of radius 1 about the origin: its squared distance to the centre is
  \<open>1 + 2\<^sup>-\<^sup>6\<^sup>0\<close>. The sum rounds to the double 1, and \<^verbatim>\<open>isInCircle\<close> returns true.
\<close>

theorem isInCircle_rounds_onto_edge:
  "isInCircle (Fin 1) (Fin (1 / 2 ^ 30)) \<lparr>xc = Fin 0, yc = Fin 0, radius = Fin 1\<rparr>
   \<and> \<not> ((1 - 0)\<^sup>2 + (1 / 2 ^ 30 - 0)\<^sup>2 \<le> (1::real)\<^sup>2)"
proof -
  have e1: "round64 (1 / 2 ^ 30) = Fin (1 / 2 ^ 30)"
    using round64_dyadic [of "1 / 2 ^ 30" 1 "- 30"] by (simp add: power_int_minus)
  have e2: "round64 (1 / 2 ^ 30 * (1 / 2 ^ 30)) = Fin (1 / 2 ^ 60)"
    using round64_dyadic [of "1 / 2 ^ 60" 1 "- 60"] by (simp add: power_int_minus)
  have e3: "round64 (1 + 1 / 2 ^ 60) = Fin 1"
    using round64_nearest [of 0 "1 + 1 / 2 ^ 60" "2 ^ 52"] by (simp add: power_int_minus)
  have "isInCircle (Fin 1) (Fin (1 / 2 ^ 30)) \<lparr>xc = Fin 0, yc = Fin 0, radius = Fin 1\<rparr>"
    using e1 e2 e3 by (simp add: isInCircle_def jsub_def Let_def)
  moreover have "\<not> ((1 - 0)\<^sup>2 + (1 / 2 ^ 30 - 0)\<^sup>2 \<le> (1::real)\<^sup>2)" by simp
  ultimately show ?thesis by simp
qed

section \<open>The year sliders\<close>

text \<open>
  C7, as the code has it. After an \<^verbatim>\<open>input\<close> event of either year slider the lower
  bound is at most the upper one. The slider the user moved keeps the value the user
  gave it; it is the other slider that is moved, to that same value, when the two would
  cross.
\<close>

theorem year_sliders_push:
  "yearMin_value (yearMin_input v s) = v
   \<and> yearMax_value (yearMin_input v s) = max v (yearMax_value s)
   \<and> yearMin_value (yearMin_input v s) \<le> yearMax_value (yearMin_input v s)
   \<and> yearMax_value (yearMax_input v s) = v
   \<and> yearMin_value (yearMax_input v s) = min v (yearMin_value s)
   \<and> yearMin_value (yearMax_input v s) \<le> yearMax_value (yearMax_input v s)
   \<and> yearMin_value (yearMin_input_km pr v t) = v
   \<and> yearMax_value (yearMin_input_km pr v t) = max v (yearMax_value t)
   \<and> yearMin_value (yearMin_input_km pr v t) \<le> yearMax_value (yearMin_input_km pr v t)
   \<and> yearMax_value (yearMax_input_km pr v t) = v
   \<and> yearMin_value (yearMax_input_km pr v t) = min v (yearMin_value t)
   \<and> yearMin_value (yearMax_input_km pr v t) \<le> yearMax_value (yearMax_input_km pr v t)"
  by (simp add: yearMin_input_def yearMax_input_def yearMin_input_km_def yearMax_input_km_def
      updateFilters_frame updateFilters_km_frame Let_def)

text \<open>
  With the upper bound at 2023, the user moves the lower slider to 2030: the lower bound
  stays at 2030, the bound the user did not touch goes from 2023 to 2030.
\<close>

theorem year_slider_moved_bound_kept:
  "yearMax_value (examplePage :: point page) = 2023
   \<and> yearMin_value (yearMin_input 2030 examplePage) = 2030
   \<and> yearMax_value (yearMin_input 2030 examplePage) = 2030
   \<and> yearMax_value (yearMin_input 2030 examplePage) \<noteq> yearMax_value (examplePage :: point page)"
  by (simp add: yearMin_input_def updateFilters_frame Let_def examplePage_def)

section \<open>What a drag and a radius slider change\<close>

lemma clamp_range:
  assumes "e \<noteq> NaN" and "0 \<le> w"
  shows "jle (Fin 0) (Math_max (Fin 0) (Math_min (Fin w) e))
         \<and> jle (Math_max (Fin 0) (Math_min (Fin w) e)) (Fin w)"
  using assms by (cases e) (auto simp: Math_max_def Math_min_def)

text \<open>
  The literal \<^verbatim>\<open>2.4\<close> is the double 5404319552844595 / 2 ^ 51, just below 2.4. The
  width of the map is the double 820, its height the double nearest to 658 and a third.
\<close>

lemma literal_2_4: "round64 (12 / 5) = Fin (5404319552844595 / 2251799813685248)"
  using round64_nearest [of 1 "12 / 5" 5404319552844595] by (simp add: power_int_minus)

lemma mapWidth_eq: "mapWidth = Fin 820"
  using round64_nearest [of 9 "1968 / (5404319552844595 / 2251799813685248)" "820 * 2 ^ 43"]
  by (simp add: mapWidth_def literal_2_4 power_int_minus)

lemma mapHeight_eq: "mapHeight = Fin (5790761239620267 / 8796093022208)"
  using round64_nearest [of 9 "1580 / (5404319552844595 / 2251799813685248)" 5790761239620267]
  by (simp add: mapHeight_def literal_2_4 power_int_minus)

lemma clamped_x:
  "ex \<noteq> NaN \<Longrightarrow> jle (Fin 0) (Math_max (Fin 0) (Math_min mapWidth ex))
      \<and> jle (Math_max (Fin 0) (Math_min mapWidth ex)) mapWidth"
  unfolding mapWidth_eq by (rule clamp_range) simp_all

lemma clamped_y:
  "ey \<noteq> NaN \<Longrightarrow> jle (Fin 0) (Math_max (Fin 0) (Math_min mapHeight ey))
      \<and> jle (Math_max (Fin 0) (Math_min mapHeight ey)) mapHeight"
  unfolding mapHeight_eq by (rule clamp_range) simp_all

lemma renderQueryCircles_frame:
  "circleA (renderQueryCircles s) = circleA s"
  "circleB (renderQueryCircles s) = circleB s"
  "circleA (renderQueryCircles_km pr s) = circleA s"
  "circleB (renderQueryCircles_km pr s) = circleB s"
  by (simp_all add: renderQueryCircles_def renderQueryCircles_km_def)

lemma drag_circles:
  "circleB (dragA ex ey s) = circleB s"
  "circleA (dragA ex ey s) =
     (circleA s)\<lparr>xc := Math_max (Fin 0) (Math_min mapWidth ex),
                 yc := Math_max (Fin 0) (Math_min mapHeight ey)\<rparr>"
  "circleA (dragB ex ey s) = circleA s"
  "circleB (dragB ex ey s) =
     (circleB s)\<lparr>xc := Math_max (Fin 0) (Math_min mapWidth ex),
                 yc := Math_max (Fin 0) (Math_min mapHeight ey)\<rparr>"
  by (simp_all add: dragA_def dragB_def updateFilters_frame renderQueryCircles_frame)

lemma drag_km_circles:
  "circleB (dragA_km pr ex ey t) = circleB t"
  "circleA (dragA_km pr ex ey t) =
     (circleA t)\<lparr>xc := Math_max (Fin 0) (Math_min mapWidth ex),
                 yc := Math_max (Fin 0) (Math_min mapHeight ey)\<rparr>"
  "circleA (dragB_km pr ex ey t) = circleA t"
  "circleB (dragB_km pr ex ey t) =
     (circleB t)\<lparr>xc := Math_max (Fin 0) (Math_min mapWidth ex),
                 yc := Math_max (Fin 0) (Math_min mapHeight ey)\<rparr>"
  by (simp_all add: dragA_km_def dragB_km_def updateFilters_km_frame renderQueryCircles_frame)

lemma radius_input_circles:
  "circleB (radiusA_input v s) = circleB s"
  "circleA (radiusA_input v s) = (circleA s)\<lparr>radius := Fin v\<rparr>"
  "circleA (radiusB_input v s) = circleA s"
  "circleB (radiusB_input v s) = (circleB s)\<lparr>radius := Fin v\<rparr>"
  "circleB (radiusA_input_km pr v t) = circleB t"
  "circleA (radiusA_input_km pr v t) = (circleA t)\<lparr>radius := Fin v\<rparr>"
  "circleA (radiusB_input_km pr v t) = circleA t"
  "circleB (radiusB_input_km pr v t) = (circleB t)\<lparr>radius := Fin v\<rparr>"
  by (simp_all add: radiusA_input_def radiusB_input_def radiusA_input_km_def radiusB_input_km_def
      updateFilters_frame updateFilters_km_frame renderQueryCircles_frame)

text \<open>
  C10. A drag of a circle writes the two coordinates of its centre, each the event's
  coordinate brought into the map with \<^verbatim>\<open>Math.max(0, Math.min(...))\<close> and so, for an
  event coordinate that is a number, within \<open>[0, mapWidth]\<close> and \<open>[0, mapHeight]\<close>; the
  radius of that circle and the other circle are as before. A radius slider writes the
  radius of its circle; both centres and the other radius are as before. In both files.
\<close>

theorem drag_and_radius_frame:
  "(circleB (dragA ex ey s) = circleB s
    \<and> radius (circleA (dragA ex ey s)) = radius (circleA s)
    \<and> xc (circleA (dragA ex ey s)) = Math_max (Fin 0) (Math_min mapWidth ex)
    \<and> yc (circleA (dragA ex ey s)) = Math_max (Fin 0) (Math_min mapHeight ey)
    \<and> circleA (dragB ex ey s) = circleA s
    \<and> radius (circleB (dragB ex ey s)) = radius (circleB s)
    \<and> xc (circleB (dragB ex ey s)) = Math_max (Fin 0) (Math_min mapWidth ex)
    \<and> yc (circleB (dragB ex ey s)) = Math_max (Fin 0) (Math_min mapHeight ey))
   \<and> (circleB (dragA_km pr ex ey t) = circleB t
    \<and> radius (circleA (dragA_km pr ex ey t)) = radius (circleA t)
    \<and> xc (circleA (dragA_km pr ex ey t)) = Math_max (Fin 0) (Math_min mapWidth ex)
    \<and> yc (circleA (dragA_km pr ex ey t)) = Math_max (Fin 0) (Math_min mapHeight ey)
    \<and> circleA (dragB_km pr ex ey t) = circleA t
    \<and> radius (circleB (dragB_km pr ex ey t)) = radius (circleB t)
    \<and> xc (circleB (dragB_km pr ex ey t)) = Math_max (Fin 0) (Math_min mapWidth ex)
    \<and> yc (circleB (dragB_km pr ex ey t)) = Math_max (Fin 0) (Math_min mapHeight ey))
   \<and> (ex \<noteq> NaN \<longrightarrow>
        jle (Fin 0) (Math_max (Fin 0) (Math_min mapWidth ex))
        \<and> jle (Math_max (Fin 0) (Math_min mapWidth ex)) mapWidth)
   \<and> (ey \<noteq> NaN \<longrightarrow>
        jle (Fin 0) (Math_max (Fin 0) (Math_min mapHeight ey))
        \<and> jle (Math_max (Fin 0) (Math_min mapHeight ey)) mapHeight)
   \<and> (circleB (radiusA_input v s) = circleB s
    \<and> xc (circleA (radiusA_input v s)) = xc (circleA s)
    \<and> yc (circleA (radiusA_input v s)) = yc (circleA s)
    \<and> radius (circleA (radiusA_input v s)) = Fin v
    \<and> circleA (radiusB_input v s) = circleA s
    \<and> xc (circleB (radiusB_input v s)) = xc (circleB s)
    \<and> yc (circleB (radiusB_input v s)) = yc (circleB s)
    \<and> radius (circleB (radiusB_input v s)) = Fin v)
   \<and> (circleB (radiusA_input_km pr v t) = circleB t
    \<and> xc (circleA (radiusA_input_km pr v t)) = xc (circleA t)
    \<and> yc (circleA (radiusA_input_km pr v t)) = yc (circleA t)
    \<and> radius (circleA (radiusA_input_km pr v t)) = Fin v
    \<and> circleA (radiusB_input_km pr v t) = circleA t
    \<and> xc (circleB (radiusB_input_km pr v t)) = xc (circleB t)
    \<and> yc (circleB (radiusB_input_km pr v t)) = yc (circleB t)
    \<and> radius (circleB (radiusB_input_km pr v t)) = Fin v)"
  using clamped_x [of ex] clamped_y [of ey]
  by (simp add: drag_circles drag_km_circles radius_input_circles)

text \<open>
  A drag of circle A to (900, -5), right of the map and above it, puts its centre at
  (820, 0) and leaves its radius and circle B alone.
\<close>

theorem drag_and_radius_frame_witness:
  "Fin 900 \<noteq> NaN \<and> Fin (- 5) \<noteq> NaN
   \<and> xc (circleA (dragA (Fin 900) (Fin (- 5)) examplePage)) = Fin 820
   \<and> yc (circleA (dragA (Fin 900) (Fin (- 5)) examplePage)) = Fin 0
   \<and> jle (Fin 0) (Fin 820) \<and> jle (Fin 820) mapWidth
   \<and> radius (circleA (dragA (Fin 900) (Fin (- 5)) examplePage)) = Fin 50
   \<and> circleB (dragA (Fin 900) (Fin (- 5)) examplePage) = circleB (examplePage :: point page)"
  using drag_and_radius_frame [of "Fin 900" "Fin (- 5)" examplePage]
  by (simp add: Math_max_def Math_min_def mapWidth_eq mapHeight_eq examplePage_def)

section \<open>Grouping the rows by their coordinates\<close>

lemma Map_has_iff: "Map_has m k \<longleftrightarrow> k \<in> fst ` set m"
  by (simp add: Map_has_def map_of_eq_None_iff)

lemma buildLocationMap_snoc:
  "buildLocationMap (rows @ [d]) = addToLocationMap (buildLocationMap rows) d"
  by (simp add: buildLocationMap_def)

lemma addToLocationMap_present:
  assumes "locationKey d \<in> fst ` set m"
  shows "addToLocationMap m d =
           map (\<lambda>e. if fst e = locationKey d
                     then (fst e, (snd e)\<lparr>movies := movies (snd e) @ [d]\<rparr>) else e) m"
  using assms by (simp add: addToLocationMap_def Map_has_iff Map_push_def Let_def)

lemma addToLocationMap_absent:
  assumes "locationKey d \<notin> fst ` set m"
  shows "addToLocationMap m d =
           m @ [(locationKey d,
                 \<lparr>longitude = getField d ''Longitude'', latitude = getField d ''Latitude'',
                  movies = [d], data = d\<rparr>)]"
proof -
  have "map (\<lambda>e. if fst e = locationKey d
                  then (fst e, (snd e)\<lparr>movies := movies (snd e) @ [d]\<rparr>) else e) m = m"
    using assms by (induction m) auto
  then show ?thesis
    using assms by (simp add: addToLocationMap_def Map_has_iff Map_push_def Map_set_def Let_def)
qed

text \<open>
  After any rows, the keys of the map are distinct, they are the keys of the rows, and
  the location under a key holds the rows of that key, in the order of the file.
\<close>

lemma buildLocationMap_inv:
  "distinct (map fst (buildLocationMap rows))
   \<and> fst ` set (buildLocationMap rows) = locationKey ` set rows
   \<and> (\<forall>e\<in>set (buildLocationMap rows).
         movies (snd e) = filter (\<lambda>d. locationKey d = fst e) rows)"
proof (induction rows rule: rev_induct)
  case Nil
  show ?case by (simp add: buildLocationMap_def)
next
  case (snoc d rows)
  let ?m = "buildLocationMap rows"
  show ?case
  proof (cases "locationKey d \<in> fst ` set ?m")
    case True
    have m': "buildLocationMap (rows @ [d]) =
           map (\<lambda>e. if fst e = locationKey d
                     then (fst e, (snd e)\<lparr>movies := movies (snd e) @ [d]\<rparr>) else e) ?m"
      using True by (simp add: buildLocationMap_snoc addToLocationMap_present)
    have keys: "map fst (buildLocationMap (rows @ [d])) = map fst ?m"
      unfolding m' by (induction ?m) auto
    have "fst ` set (buildLocationMap (rows @ [d])) = fst ` set ?m"
      using keys by (metis list.set_map)
    moreover have "locationKey d \<in> locationKey ` set rows" using True snoc by simp
    ultimately have dom: "fst ` set (buildLocationMap (rows @ [d])) = locationKey ` set (rows @ [d])"
      using snoc by auto
    have mov: "\<forall>e\<in>set (buildLocationMap (rows @ [d])).
         movies (snd e) = filter (\<lambda>d'. locationKey d' = fst e) (rows @ [d])"
      unfolding m' using snoc by auto
    show ?thesis using keys dom mov snoc by simp
  next
    case False
    have m': "buildLocationMap (rows @ [d]) =
           ?m @ [(locationKey d,
                 \<lparr>longitude = getField d ''Longitude'', latitude = getField d ''Latitude'',
                  movies = [d], data = d\<rparr>)]"
      using False by (simp add: buildLocationMap_snoc addToLocationMap_absent)
    have notin: "locationKey d \<notin> locationKey ` set rows" using False snoc by simp
    have nokey: "filter (\<lambda>d'. locationKey d' = locationKey d) rows = []"
      unfolding filter_empty_conv using notin by (metis imageI)
    show ?thesis
      unfolding m' using snoc False nokey by auto
  qed
qed






section \<open>Loading keeps the rows with coordinates\<close>

lemma locationData_members:
  assumes "l \<in> set (locationData rows)"
  shows "movies l \<noteq> [] \<and> set (movies l) \<subseteq> set rows"
proof -
  let ?m = "buildLocationMap rows"
  from assms obtain e where e: "e \<in> set ?m" "l = snd e" by (auto simp: locationData_def)
  then have f: "movies l = filter (\<lambda>d. locationKey d = fst e) rows"
    using buildLocationMap_inv [of rows] by simp
  have "fst e \<in> locationKey ` set rows"
    using e(1) buildLocationMap_inv [of rows] by (metis imageI)
  then obtain d where "d \<in> set rows" "locationKey d = fst e" by auto
  then show ?thesis using f by (auto simp: filter_empty_conv)
qed

lemma populate_allData: "allData (populate rows s) = filter hasCoordinates rows"
  by (simp add: populate_def Let_def)

lemma populate_points: "location_points (populate rows s) = location_points s"
  by (simp add: populate_def Let_def)

lemma loaded_allData:
  "allData (loaded pr rows s) = filter hasCoordinates rows"
  "allData (loaded_km pr rows t) = filter hasCoordinates rows"
  by (simp_all add: loaded_def loaded_km_def updateFilters_frame updateFilters_km_frame
      renderQueryCircles_def renderQueryCircles_km_def renderDataPoints_def
      renderDataPoints_km_def populate_allData Let_def)

lemma loaded_datums:
  "map datum (location_points (loaded pr rows s))
     = map datum (location_points s) @ locationData (filter hasCoordinates rows)"
  by (simp add: loaded_def updateFilters_points renderQueryCircles_def renderDataPoints_def
      populate_allData populate_points Let_def comp_def if_distrib [of datum] cong: if_cong)

lemma loaded_km_datums:
  "map km_datum (location_points (loaded_km pr rows t))
     = map km_datum (location_points t) @ filter hasCoordinates rows"
  by (simp add: loaded_km_def updateFilters_km_points renderQueryCircles_km_def
      renderDataPoints_km_def populate_allData populate_points Let_def comp_def
      if_distrib [of km_datum] cong: if_cong)

text \<open>
  C5. After loading, \<^verbatim>\<open>allData\<close> is the file's rows filtered, in order, by the test
  that longitude and latitude both coerce to finite numbers: a row is kept if and only if
  it passes. The points are drawn from \<^verbatim>\<open>allData\<close> alone, so no member of a location
  (no datum of a point, in the second file) is a row that fails the test.
\<close>

theorem loaded_drops_rows_without_coordinates:
  "allData (loaded pr rows s) = filter hasCoordinates rows
   \<and> allData (loaded_km pr rows t) = filter hasCoordinates rows
   \<and> hasCoordinates d
       = (Number_isFinite (ToNumber (getField d ''Longitude''))
          \<and> Number_isFinite (ToNumber (getField d ''Latitude'')))
   \<and> (d \<in> set (allData (loaded pr rows s))
        \<longleftrightarrow> d \<in> set rows \<and> Number_isFinite (ToNumber (getField d ''Longitude''))
                         \<and> Number_isFinite (ToNumber (getField d ''Latitude'')))
   \<and> (d \<in> set (allData (loaded_km pr rows t))
        \<longleftrightarrow> d \<in> set rows \<and> Number_isFinite (ToNumber (getField d ''Longitude''))
                         \<and> Number_isFinite (ToNumber (getField d ''Latitude'')))
   \<and> (location_points s = [] \<longrightarrow>
        (\<forall>c\<in>set (location_points (loaded pr rows s)).
           \<forall>m\<in>set (movies (datum c)). m \<in> set rows \<and> hasCoordinates m))
   \<and> (location_points t = [] \<longrightarrow>
        (\<forall>c\<in>set (location_points (loaded_km pr rows t)).
           km_datum c \<in> set rows \<and> hasCoordinates (km_datum c)))"
proof -
  have h: "hasCoordinates d
       = (Number_isFinite (ToNumber (getField d ''Longitude''))
          \<and> Number_isFinite (ToNumber (getField d ''Latitude'')))"
    by (simp add: hasCoordinates_def Let_def)
  have p1: "\<forall>c\<in>set (location_points (loaded pr rows s)).
           \<forall>m\<in>set (movies (datum c)). m \<in> set rows \<and> hasCoordinates m"
    if e: "location_points s = []"
  proof (intro ballI)
    fix c m
    assume c: "c \<in> set (location_points (loaded pr rows s))" and m: "m \<in> set (movies (datum c))"
    from c have "datum c \<in> set (map datum (location_points (loaded pr rows s)))" by simp
    then have "datum c \<in> set (locationData (filter hasCoordinates rows))"
      unfolding loaded_datums using e by simp
    from locationData_members [OF this] m have "m \<in> set (filter hasCoordinates rows)" by blast
    then show "m \<in> set rows \<and> hasCoordinates m" by simp
  qed
  have p2: "\<forall>c\<in>set (location_points (loaded_km pr rows t)).
           km_datum c \<in> set rows \<and> hasCoordinates (km_datum c)"
    if e: "location_points t = []"
  proof
    fix c
    assume c: "c \<in> set (location_points (loaded_km pr rows t))"
    then have "km_datum c \<in> set (map km_datum (location_points (loaded_km pr rows t)))" by simp
    then have "km_datum c \<in> set (filter hasCoordinates rows)"
      unfolding loaded_km_datums using e by simp
    then show "km_datum c \<in> set rows \<and> hasCoordinates (km_datum c)" by simp
  qed
  show ?thesis
    using p1 p2 h by (simp add: loaded_allData)
qed


text \<open>
  The small data set with three more rows: one whose longitude reads \<^verbatim>\<open>n/a\<close>, which
  coerces to NaN, one whose longitude reads \<^verbatim>\<open>1e309\<close>, which is beyond the largest
  double and coerces to Infinity, and one whose latitude reads \<^verbatim>\<open>-Infinity\<close>. The four
  rows are kept, the three are dropped.
\<close>

lemma example_hasCoordinates:
  "filter hasCoordinates
     (exampleRows @ [[(''Title'', ''E''), (''Longitude'', ''n/a''), (''Latitude'', ''37'')],
                     [(''Title'', ''F''), (''Longitude'', ''1e309''), (''Latitude'', ''37'')],
                     [(''Title'', ''G''), (''Longitude'', ''-122''), (''Latitude'', ''-Infinity'')]])
   = exampleRows"
  by (simp add: hasCoordinates_def ToNumber_def getField_def exampleRows_def StringToNumber_defs
      round64_overflow)

theorem loaded_drops_rows_without_coordinates_witness:
  "location_points (examplePage :: point page) = []
   \<and> location_points (examplePage :: point_km page) = []
   \<and> \<not> Number_isFinite (ToNumber (Some ''n/a''))
   \<and> ToNumber (Some ''1e309'') = PosInf
   \<and> allData (loaded exampleProjection
        (exampleRows @ [[(''Title'', ''E''), (''Longitude'', ''n/a''), (''Latitude'', ''37'')],
                        [(''Title'', ''F''), (''Longitude'', ''1e309''), (''Latitude'', ''37'')],
                        [(''Title'', ''G''), (''Longitude'', ''-122''), (''Latitude'', ''-Infinity'')]])
        examplePage) = exampleRows
   \<and> list_all (\<lambda>c. list_all hasCoordinates (movies (datum c)))
        (location_points (loaded exampleProjection
           (exampleRows @ [[(''Title'', ''E''), (''Longitude'', ''n/a''), (''Latitude'', ''37'')],
                           [(''Title'', ''F''), (''Longitude'', ''1e309''), (''Latitude'', ''37'')],
                           [(''Title'', ''G''), (''Longitude'', ''-122''), (''Latitude'', ''-Infinity'')]])
           examplePage))
   \<and> list_all (\<lambda>c. hasCoordinates (km_datum c))
        (location_points (loaded_km exampleProjection
           (exampleRows @ [[(''Title'', ''E''), (''Longitude'', ''n/a''), (''Latitude'', ''37'')],
                           [(''Title'', ''F''), (''Longitude'', ''1e309''), (''Latitude'', ''37'')],
                           [(''Title'', ''G''), (''Longitude'', ''-122''), (''Latitude'', ''-Infinity'')]])
           examplePage))"
proof -
  have e: "location_points (examplePage :: point page) = []"
    "location_points (examplePage :: point_km page) = []"
    by (simp_all add: examplePage_def)
  have n: "\<not> Number_isFinite (ToNumber (Some ''n/a''))" "ToNumber (Some ''1e309'') = PosInf"
    by (simp_all add: ToNumber_def StringToNumber_defs round64_overflow)
  from loaded_drops_rows_without_coordinates [of exampleProjection
      "exampleRows @ [[(''Title'', ''E''), (''Longitude'', ''n/a''), (''Latitude'', ''37'')],
                      [(''Title'', ''F''), (''Longitude'', ''1e309''), (''Latitude'', ''37'')],
                      [(''Title'', ''G''), (''Longitude'', ''-122''), (''Latitude'', ''-Infinity'')]]"
      examplePage examplePage] e n
  show ?thesis
    unfolding list_all_iff example_hasCoordinates by blast
qed

section \<open>A row without a year\<close>

lemma inYearRange_missing:
  assumes "getField movie ''Release Year'' = None
           \<or> (\<exists>str. getField movie ''Release Year'' = Some str
                     \<and> (trim str = [] \<or> StringToNumber str = NaN))"
  shows "inYearRange yearMin yearMax movie"
proof -
  have "\<not> truthy (ToNumber (getField movie ''Release Year''))"
    using assms by (auto simp: ToNumber_def StringToNumber_def)
  then show ?thesis by (simp add: inYearRange_def Let_def)
qed

text \<open>
  C8. When the Release Year of a row is absent (no such property, or an empty or blank
  cell) or coerces to NaN, the year test is true for every pair of bounds, NaN bounds
  included. Such a row is among the matching members of its location exactly when it
  passes the director and the neighborhood tests; in the second file its point is
  visible exactly when it lies in both circles and passes these two tests.
\<close>

theorem missing_year_matches_any_range:
  "(getField movie ''Release Year'' = None
    \<or> (\<exists>str. getField movie ''Release Year'' = Some str
              \<and> (trim str = [] \<or> StringToNumber str = NaN)))
   \<longrightarrow>
     inYearRange yearMin yearMax movie
     \<and> (movie \<in> set (matchingMovies s d)
          \<longleftrightarrow> movie \<in> set (movies d)
              \<and> directorMatch (directorFilter_value s) movie
              \<and> neighborhoodMatch (neighborhoodFilter_value s) movie)
     \<and> (km_datum c = movie \<longrightarrow>
          visible_km pr t c
          = (isInIntersection_km pr (km_cx c) (km_cy c) t
             \<and> directorMatch (directorFilter_value t) movie
             \<and> neighborhoodMatch (neighborhoodFilter_value t) movie))"
  using inYearRange_missing [of movie]
  by (auto simp: matchingMovies_def visible_km_def Let_def)

text \<open>
  A year that reads \<^verbatim>\<open>unknown\<close>, a row with no year and a blank year, each against
  the range 1960 to 2023.
\<close>

theorem missing_year_matches_any_range_witness:
  "getField [(''Title'', ''F''), (''Release Year'', ''unknown'')] ''Release Year'' = Some ''unknown''
   \<and> StringToNumber ''unknown'' = NaN
   \<and> inYearRange (Fin 1960) (Fin 2023) [(''Title'', ''F''), (''Release Year'', ''unknown'')]
   \<and> getField [(''Title'', ''G'')] ''Release Year'' = None
   \<and> inYearRange (Fin 1960) (Fin 2023) [(''Title'', ''G'')]
   \<and> trim '' '' = []
   \<and> inYearRange (Fin 1960) (Fin 2023) [(''Title'', ''H''), (''Release Year'', '' '')]"
proof -
  have a: "getField [(''Title'', ''F''), (''Release Year'', ''unknown'')] ''Release Year'' = Some ''unknown''"
    "getField [(''Title'', ''G'')] ''Release Year'' = None"
    "getField [(''Title'', ''H''), (''Release Year'', '' '')] ''Release Year'' = Some '' ''"
    by (simp_all add: getField_def)
  have b: "StringToNumber ''unknown'' = NaN" by (simp add: StringToNumber_defs)
  have c: "trim '' '' = []" by (simp add: trim_defs)
  have "inYearRange (Fin 1960) (Fin 2023) [(''Title'', ''F''), (''Release Year'', ''unknown'')]"
    using missing_year_matches_any_range
      [of "[(''Title'', ''F''), (''Release Year'', ''unknown'')]" "Fin 1960" "Fin 2023"] a b
    by blast
  moreover have "inYearRange (Fin 1960) (Fin 2023) [(''Title'', ''G'')]"
    using missing_year_matches_any_range [of "[(''Title'', ''G'')]" "Fin 1960" "Fin 2023"] a
    by blast
  moreover have "inYearRange (Fin 1960) (Fin 2023) [(''Title'', ''H''), (''Release Year'', '' '')]"
    using missing_year_matches_any_range
      [of "[(''Title'', ''H''), (''Release Year'', '' '')]" "Fin 1960" "Fin 2023"] a c
    by blast
  ultimately show ?thesis using a b c by simp
qed

section \<open>A row without a director or a neighborhood\<close>

text \<open>The values of a dropdown are the trimmed values of the column that are not blank.\<close>

lemma getUniqueValues_set:
  "set (getUniqueValues rows field)
     = {trim v | v d. d \<in> set rows \<and> getField d field = Some v \<and> v \<noteq> [] \<and> trim v \<noteq> []}"
proof -
  have "set (foldl (\<lambda>vs d.
             case getField d field of
               None \<Rightarrow> vs
             | Some v \<Rightarrow> if v \<noteq> [] \<and> trim v \<noteq> [] then Set_add vs (trim v) else vs) acc rows)
        = set acc \<union> {trim v | v d. d \<in> set rows \<and> getField d field = Some v \<and> v \<noteq> [] \<and> trim v \<noteq> []}"
    for acc
  proof (induction rows arbitrary: acc)
    case Nil
    show ?case by simp
  next
    case (Cons d rows)
    show ?case
      unfolding foldl_Cons Cons.IH
      by (cases "getField d field") (auto simp: Set_add_def)
  qed
  then show ?thesis by (simp add: getUniqueValues_def)
qed

lemma getUniqueValues_not_blank:
  assumes "w \<in> set (getUniqueValues rows field)"
  shows "trim w \<noteq> []"
proof -
  from assms obtain v where v: "w = trim v" "trim v \<noteq> []"
    unfolding getUniqueValues_set by blast
  then show ?thesis by (simp add: trim_idem)
qed

lemma populate_options:
  "directorFilter_options (populate rows s)
     = directorFilter_options s @ getUniqueValues (filter hasCoordinates rows) ''Director''"
  "neighborhoodFilter_options (populate rows s)
     = neighborhoodFilter_options s
       @ getUniqueValues (filter hasCoordinates rows) ''Analysis Neighborhood''"
  by (simp_all add: populate_def Let_def)

lemma loaded_options:
  "directorFilter_options (loaded pr rows s)
     = directorFilter_options s @ getUniqueValues (filter hasCoordinates rows) ''Director''"
  "neighborhoodFilter_options (loaded pr rows s)
     = neighborhoodFilter_options s
       @ getUniqueValues (filter hasCoordinates rows) ''Analysis Neighborhood''"
  by (simp_all add: loaded_def updateFilters_def renderQueryCircles_def renderDataPoints_def
      populate_options Let_def)

text \<open>
  C9. Loading appends to each dropdown the values \<^verbatim>\<open>getUniqueValues\<close> finds in its
  column, and none of these is blank. When the director or neighborhood of a row is
  missing or blank, its raw value is not among them, and the row passes the test for no
  selected value that is not blank and not \<^verbatim>\<open>all\<close>, so for no value the dropdown
  offers besides \<^verbatim>\<open>all\<close>.
\<close>

theorem blank_category_excluded:
  "directorFilter_options (loaded pr rows s)
     = directorFilter_options s @ getUniqueValues (filter hasCoordinates rows) ''Director''
   \<and> neighborhoodFilter_options (loaded pr rows s)
     = neighborhoodFilter_options s
       @ getUniqueValues (filter hasCoordinates rows) ''Analysis Neighborhood''
   \<and> (\<forall>sel\<in>set (getUniqueValues rs field). trim sel \<noteq> [])
   \<and> ((getField movie field = None \<or> (\<exists>v. getField movie field = Some v \<and> trim v = []))
       \<longrightarrow>
         (\<forall>v. getField movie field = Some v \<longrightarrow> v \<notin> set (getUniqueValues rs field))
         \<and> (\<forall>sel. trim sel \<noteq> [] \<and> sel \<noteq> ''all'' \<longrightarrow>
               (field = ''Director'' \<longrightarrow> \<not> directorMatch sel movie)
               \<and> (field = ''Analysis Neighborhood'' \<longrightarrow> \<not> neighborhoodMatch sel movie)))"
  using getUniqueValues_not_blank [of _ rs field]
  by (auto simp: loaded_options directorMatch_def neighborhoodMatch_def)

text \<open>
  Two more rows, one whose director is two spaces and one whose director is a no-break
  space (U+00A0, the bytes C2 A0) followed by an em space (U+2003, the bytes E2 80 83),
  and the director X of the small data set.
\<close>

lemma example_directors:
  "getUniqueValues
     (exampleRows @ [[(''Title'', ''H''), (''Director'', ''  '')],
                     [(''Title'', ''I''),
                      (''Director'', [CHR 0xC2, CHR 0xA0, CHR 0xE2, CHR 0x80, CHR 0x83])]])
     ''Director''
     = [''X'', ''Y'', ''Z'']"
  by (simp add: getUniqueValues_def exampleRows_def getField_def trim_defs Set_add_def
      codeUnitKey_def)

theorem blank_category_excluded_witness:
  "getField [(''Title'', ''I''), (''Director'', [CHR 0xC2, CHR 0xA0, CHR 0xE2, CHR 0x80, CHR 0x83])]
     ''Director'' = Some [CHR 0xC2, CHR 0xA0, CHR 0xE2, CHR 0x80, CHR 0x83]
   \<and> trim [CHR 0xC2, CHR 0xA0, CHR 0xE2, CHR 0x80, CHR 0x83] = []
   \<and> trim ''  '' = []
   \<and> getUniqueValues
        (exampleRows @ [[(''Title'', ''H''), (''Director'', ''  '')],
                        [(''Title'', ''I''),
                         (''Director'', [CHR 0xC2, CHR 0xA0, CHR 0xE2, CHR 0x80, CHR 0x83])]])
        ''Director'' = [''X'', ''Y'', ''Z'']
   \<and> [CHR 0xC2, CHR 0xA0, CHR 0xE2, CHR 0x80, CHR 0x83]
        \<notin> set (getUniqueValues
                 (exampleRows @ [[(''Title'', ''H''), (''Director'', ''  '')],
                                 [(''Title'', ''I''),
                                  (''Director'', [CHR 0xC2, CHR 0xA0, CHR 0xE2, CHR 0x80, CHR 0x83])]])
                 ''Director'')
   \<and> trim ''X'' \<noteq> [] \<and> ''X'' \<noteq> ''all''
   \<and> \<not> directorMatch ''X''
         [(''Title'', ''I''), (''Director'', [CHR 0xC2, CHR 0xA0, CHR 0xE2, CHR 0x80, CHR 0x83])]
   \<and> \<not> directorMatch ''X'' [(''Title'', ''H''), (''Director'', ''  '')]"
proof -
  let ?nb = "[CHR 0xC2, CHR 0xA0, CHR 0xE2, CHR 0x80, CHR 0x83]"
  let ?rs = "exampleRows @ [[(''Title'', ''H''), (''Director'', ''  '')],
                            [(''Title'', ''I''), (''Director'', ?nb)]]"
  have a: "getField [(''Title'', ''I''), (''Director'', ?nb)] ''Director'' = Some ?nb"
    "getField [(''Title'', ''H''), (''Director'', ''  '')] ''Director'' = Some ''  ''"
    by (simp_all add: getField_def)
  have b: "trim ?nb = []" "trim ''  '' = []" by (simp_all add: trim_defs)
  have c: "''X'' \<in> set (getUniqueValues ?rs ''Director'')"
    unfolding example_directors by simp
  have d: "''X'' \<noteq> ''all''" by simp
  have e: "?nb \<notin> set (getUniqueValues ?rs ''Director'')
           \<and> trim ''X'' \<noteq> []
           \<and> \<not> directorMatch ''X'' [(''Title'', ''I''), (''Director'', ?nb)]"
    using blank_category_excluded
      [of _ _ _ ?rs "''Director''" "[(''Title'', ''I''), (''Director'', ?nb)]"] a b c d
    by blast
  have f: "\<not> directorMatch ''X'' [(''Title'', ''H''), (''Director'', ''  '')]"
    using blank_category_excluded
      [of _ _ _ ?rs "''Director''" "[(''Title'', ''H''), (''Director'', ''  '')]"] a b c d
    by blast
  show ?thesis using a b e f example_directors by simp
qed

section \<open>The intersection of the two circles\<close>

text \<open>
  A point inside a circle of finite centre and radius is finite, and as near to the
  centre along the x axis as a power of two above the radius: rounding moves no number
  across a power of two. Two circles whose centres are further apart than that share no
  point.
\<close>

lemma isInCircle_near:
  assumes "isInCircle qx qy \<lparr>xc = Fin u, yc = Fin v, radius = Fin r\<rparr>"
    and "round64 (r * r) = Fin R" and "R < 2 powi (2 * j)" and "- 511 \<le> j"
  shows "\<exists>a. qx = Fin a \<and> \<bar>a - u\<bar> < 2 powi j"
proof -
  define dx where "dx = jsub qx (Fin u)"
  define dy where "dy = jsub qy (Fin v)"
  from assms(1,2) have le: "jle (jadd (jmul dx dx) (jmul dy dy)) (Fin R)"
    by (simp add: isInCircle_def Let_def dx_def dy_def)
  from square_cases [of dx] square_cases [of dy] le
  obtain d x y where d: "dx = Fin d" "round64 (d * d) = Fin x" "0 \<le> x" "0 \<le> y"
    and s: "jle (round64 (x + y)) (Fin R)"
    by auto
  from round64_nonneg [of "x + y"] d(3,4) s
  obtain S where S: "round64 (x + y) = Fin S" "0 \<le> S" "S \<le> R" by auto
  have k: "- 1022 \<le> 2 * j" using assms(4) by simp
  have "\<bar>S\<bar> < 2 powi (2 * j)" using S(2,3) assms(3) by simp
  from round64_bound [OF S(1) this k] d(3,4) have "\<bar>x\<bar> < 2 powi (2 * j)" by simp
  from round64_bound [OF d(2) this k] have "d * d < 2 powi (2 * j)" by simp
  also have "(2::real) powi (2 * j) = (2 powi j) * (2 powi j)"
    using power_int_add [of "2::real" j j] by (simp only: mult_2) simp
  finally have dd: "\<bar>d\<bar> * \<bar>d\<bar> < (2 powi j) * (2 powi j)" by (simp add: abs_mult_self_eq)
  have dj: "\<bar>d\<bar> < 2 powi j"
  proof (rule ccontr)
    assume "\<not> \<bar>d\<bar> < 2 powi j"
    then have "2 powi j \<le> \<bar>d\<bar>" by simp
    then have "2 powi j * 2 powi j \<le> \<bar>d\<bar> * \<bar>d\<bar>" by (intro mult_mono) simp_all
    with dd show False by simp
  qed
  from d(1) obtain a where a: "qx = Fin a" "round64 (a - u) = Fin d"
    by (cases qx) (simp_all add: dx_def jsub_def)
  have "- 1022 \<le> j" using assms(4) by simp
  from round64_bound [OF a(2) dj this] a(1) show ?thesis by simp
qed

lemma example_disjoint:
  "\<not> (isInCircle qx qy \<lparr>xc = Fin 90, yc = Fin 30, radius = Fin 50\<rparr>
      \<and> isInCircle qx qy \<lparr>xc = Fin 300, yc = Fin 30, radius = Fin 50\<rparr>)"
proof
  assume h: "isInCircle qx qy \<lparr>xc = Fin 90, yc = Fin 30, radius = Fin 50\<rparr>
      \<and> isInCircle qx qy \<lparr>xc = Fin 300, yc = Fin 30, radius = Fin 50\<rparr>"
  have r: "round64 (50 * 50) = Fin 2500" by simp
  have p: "(2500::real) < 2 powi (2 * 6)" by simp
  from isInCircle_near [OF conjunct1 [OF h] r p] isInCircle_near [OF conjunct2 [OF h] r p]
  obtain a where "\<bar>a - 90\<bar> < (2::real) powi 6" "\<bar>a - 300\<bar> < (2::real) powi 6" by auto
  then show False by simp
qed

text \<open>
  In kilometres, a radius of 0 is 0 pixels, or NaN when the projection returns no finite
  number; the circle then holds the points a circle of 0 pixels holds, or none.
\<close>

lemma jle_NaN: "\<not> jle x NaN"
  by (cases x) simp_all

lemma jmul_zero_abs: "jmul (Fin 0) (Math_abs z) = NaN \<or> jmul (Fin 0) (Math_abs z) = Fin 0"
  by (cases z) simp_all

lemma kmToPixels_zero: "kmToPixels pr (Fin 0) = NaN \<or> kmToPixels pr (Fin 0) = Fin 0"
  unfolding kmToPixels_def Let_def by (rule jmul_zero_abs)

lemma isInCircle_km_zero:
  assumes "isInCircle_km pr qx qy \<lparr>xc = u, yc = v, radius = Fin 0\<rparr>"
  shows "isInCircle qx qy \<lparr>xc = u, yc = v, radius = Fin 0\<rparr>"
  using assms kmToPixels_zero [of pr] by (auto simp: isInCircle_km_def isInCircle_def Let_def jle_NaN)

lemma example_disjoint_km:
  "\<not> (isInCircle_km pr qx qy \<lparr>xc = Fin 90, yc = Fin 30, radius = Fin 0\<rparr>
      \<and> isInCircle_km pr qx qy \<lparr>xc = Fin 300, yc = Fin 30, radius = Fin 0\<rparr>)"
proof
  assume h: "isInCircle_km pr qx qy \<lparr>xc = Fin 90, yc = Fin 30, radius = Fin 0\<rparr>
      \<and> isInCircle_km pr qx qy \<lparr>xc = Fin 300, yc = Fin 30, radius = Fin 0\<rparr>"
  have r: "round64 (0 * 0) = Fin 0" by simp
  have p: "(0::real) < 2 powi (2 * 0)" by simp
  from isInCircle_near [OF isInCircle_km_zero [OF conjunct1 [OF h]] r p]
    isInCircle_near [OF isInCircle_km_zero [OF conjunct2 [OF h]] r p]
  obtain a where "\<bar>a - 90\<bar> < (2::real) powi 0" "\<bar>a - 300\<bar> < (2::real) powi 0" by auto
  then show False by simp
qed

text \<open>
  C3. \<^verbatim>\<open>isInIntersection\<close> is the conjunction of the two membership tests, and has
  the same value when the two circles change places, in both files. When no point at all
  lies in both circles, the filter pass still returns: it restyles every point as hidden
  and reports the count 0.
\<close>

theorem isInIntersection_and:
  "isInIntersection px py s = (isInCircle px py (circleA s) \<and> isInCircle px py (circleB s))
   \<and> isInIntersection px py (s\<lparr>circleA := circleB s, circleB := circleA s\<rparr>)
       = isInIntersection px py s
   \<and> isInIntersection_km pr px py s
       = (isInCircle_km pr px py (circleA s) \<and> isInCircle_km pr px py (circleB s))
   \<and> isInIntersection_km pr px py (s\<lparr>circleA := circleB s, circleB := circleA s\<rparr>)
       = isInIntersection_km pr px py s
   \<and> ((\<forall>qx qy. \<not> isInIntersection qx qy u) \<longrightarrow>
        visibleCount (updateFilters u) = 0
        \<and> length (location_points (updateFilters u)) = length (location_points u)
        \<and> (\<forall>c\<in>set (location_points (updateFilters u)). attr_fill c = ''gray''))
   \<and> ((\<forall>qx qy. \<not> isInIntersection_km pr qx qy t) \<longrightarrow>
        visibleCount (updateFilters_km pr t) = 0
        \<and> length (location_points (updateFilters_km pr t)) = length (location_points t)
        \<and> (\<forall>c\<in>set (location_points (updateFilters_km pr t)). km_fill c = ''#bdc3c7''))"
proof -
  have a: "isInIntersection px py (s\<lparr>circleA := circleB s, circleB := circleA s\<rparr>)
       = isInIntersection px py s"
    "isInIntersection_km pr px py (s\<lparr>circleA := circleB s, circleB := circleA s\<rparr>)
       = isInIntersection_km pr px py s"
    by (auto simp: isInIntersection_def isInIntersection_km_def)
  have b: "visibleCount (updateFilters u) = 0
        \<and> length (location_points (updateFilters u)) = length (location_points u)
        \<and> (\<forall>c\<in>set (location_points (updateFilters u)). attr_fill c = ''gray'')"
    if "\<forall>qx qy. \<not> isInIntersection qx qy u"
  proof -
    from that have v: "\<not> visible u c" for c by (simp add: visible_def Let_def)
    show ?thesis by (simp add: updateFilters_points updateFilters_count v)
  qed
  have c: "visibleCount (updateFilters_km pr t) = 0
        \<and> length (location_points (updateFilters_km pr t)) = length (location_points t)
        \<and> (\<forall>c\<in>set (location_points (updateFilters_km pr t)). km_fill c = ''#bdc3c7'')"
    if "\<forall>qx qy. \<not> isInIntersection_km pr qx qy t"
  proof -
    from that have v: "\<not> visible_km pr t c" for c by (simp add: visible_km_def Let_def)
    show ?thesis by (simp add: updateFilters_km_points updateFilters_km_count v)
  qed
  show ?thesis
    using a b c by (simp add: isInIntersection_def isInIntersection_km_def)
qed

section \<open>The filter pass on the small data set\<close>

text \<open>
  The four rows all have coordinates and fall into two locations, drawn at (100, 30) and
  at (0, 120).
\<close>

lemma example_rows_kept: "filter hasCoordinates exampleRows = exampleRows"
  by (simp add: hasCoordinates_def ToNumber_def getField_def exampleRows_def StringToNumber_defs)

lemma example_locations:
  "locationData exampleRows =
     [\<lparr>longitude = Some ''-122'', latitude = Some ''37'',
       movies = take 3 exampleRows, data = exampleRows ! 0\<rparr>,
      \<lparr>longitude = Some ''-123'', latitude = Some ''34'',
       movies = drop 3 exampleRows, data = exampleRows ! 3\<rparr>]"
  by (simp add: locationData_def buildLocationMap_def addToLocationMap_def Map_has_def Map_set_def
      Map_push_def locationKey_def getField_def ToString_def exampleRows_def Let_def)

lemma example_projected:
  "exampleProjection (ToNumber (Some ''-122''), ToNumber (Some ''37'')) = (Fin 100, Fin 30)"
  "exampleProjection (ToNumber (Some ''-123''), ToNumber (Some ''34'')) = (Fin 0, Fin 120)"
  by (simp_all add: exampleProjection_def ToNumber_def jsub_def StringToNumber_defs)

lemma example_points:
  "map (\<lambda>c. (attr_cx c, attr_cy c, datum c))
     (location_points (renderDataPoints exampleProjection (populate exampleRows examplePage)))
   = [(Fin 100, Fin 30, locationData exampleRows ! 0), (Fin 0, Fin 120, locationData exampleRows ! 1)]"
  by (simp add: renderDataPoints_def populate_allData populate_points example_rows_kept
      example_locations example_projected Let_def examplePage_def)

text \<open>What the filter pass reads in the four rows.\<close>

lemma example_fields:
  "map (\<lambda>m. ToNumber (getField m ''Release Year'')) exampleRows
     = [Fin 1950, Fin 1980, Fin 2010, Fin 2000]"
  "map (\<lambda>m. getField m ''Director'') exampleRows = [Some ''X'', Some ''Y'', Some ''X'', Some ''Z'']"
  "map (\<lambda>m. getField m ''Analysis Neighborhood'') exampleRows
     = [Some ''Mission'', Some ''Mission'', Some ''Mission'', Some ''Sunset'']"
  by (simp_all add: ToNumber_def getField_def exampleRows_def StringToNumber_defs)

section \<open>Which points a filter pass shows\<close>

lemma not_truthy_iff: "\<not> truthy y \<longleftrightarrow> y = NaN \<or> y = Fin 0"
  by (cases y) simp_all

lemma passes_iff:
  "inYearRange (Fin lo) (Fin hi) m \<and> directorMatch dir m \<and> neighborhoodMatch nb m
   \<longleftrightarrow>
     (ToNumber (getField m ''Release Year'') = NaN
      \<or> ToNumber (getField m ''Release Year'') = Fin 0
      \<or> (jle (Fin lo) (ToNumber (getField m ''Release Year''))
          \<and> jle (ToNumber (getField m ''Release Year'')) (Fin hi)))
     \<and> (dir = ''all'' \<or> getField m ''Director'' = Some dir)
     \<and> (nb = ''all'' \<or> getField m ''Analysis Neighborhood'' = Some nb)"
  by (simp add: inYearRange_def directorMatch_def neighborhoodMatch_def jge_def not_truthy_iff
      Let_def)

lemma visible_iff:
  "visible u c \<longleftrightarrow>
     isInCircle (attr_cx c) (attr_cy c) (circleA u)
     \<and> isInCircle (attr_cx c) (attr_cy c) (circleB u)
     \<and> (\<exists>m\<in>set (movies (datum c)).
           inYearRange (Fin (yearMin_value u)) (Fin (yearMax_value u)) m
           \<and> directorMatch (directorFilter_value u) m
           \<and> neighborhoodMatch (neighborhoodFilter_value u) m)"
  by (auto simp: visible_def matchingMovies_def isInIntersection_def Let_def filter_empty_conv)

lemma visible_km_iff:
  "visible_km pr t c \<longleftrightarrow>
     isInCircle_km pr (km_cx c) (km_cy c) (circleA t)
     \<and> isInCircle_km pr (km_cx c) (km_cy c) (circleB t)
     \<and> (inYearRange (Fin (yearMin_value t)) (Fin (yearMax_value t)) (km_datum c)
        \<and> directorMatch (directorFilter_value t) (km_datum c)
        \<and> neighborhoodMatch (neighborhoodFilter_value t) (km_datum c))"
  by (simp add: visible_km_def isInIntersection_km_def Let_def)

text \<open>
  C1. A filter pass keeps the points, their positions and their data, in order. A row
  passes when its year, coerced to a number, is NaN or 0 or lies between the two year
  bounds, both included, and its director is the selected one or the selection is
  \<^verbatim>\<open>all\<close>, and the same for its neighborhood. The pass paints a point as visible (red)
  exactly when its stored position is in circle A and in circle B and at least one
  member of its location passes; otherwise as hidden (gray). The count it reports is the
  sum, over the visible points, of the number of members that pass. In the second file a
  point stands for one row: it is visible exactly when it is in both circles and its row
  passes, and the count is the number of visible points.
\<close>

theorem updateFilters_visibility:
  "(let passes = (\<lambda>m.
          (ToNumber (getField m ''Release Year'') = NaN
           \<or> ToNumber (getField m ''Release Year'') = Fin 0
           \<or> (jle (Fin (yearMin_value u)) (ToNumber (getField m ''Release Year''))
               \<and> jle (ToNumber (getField m ''Release Year'')) (Fin (yearMax_value u))))
          \<and> (directorFilter_value u = ''all''
              \<or> getField m ''Director'' = Some (directorFilter_value u))
          \<and> (neighborhoodFilter_value u = ''all''
              \<or> getField m ''Analysis Neighborhood'' = Some (neighborhoodFilter_value u)));
        shown = (\<lambda>c. isInCircle (attr_cx c) (attr_cy c) (circleA u)
                      \<and> isInCircle (attr_cx c) (attr_cy c) (circleB u)
                      \<and> (\<exists>m\<in>set (movies (datum c)). passes m))
    in map (\<lambda>c. (attr_cx c, attr_cy c, datum c)) (location_points (updateFilters u))
         = map (\<lambda>c. (attr_cx c, attr_cy c, datum c)) (location_points u)
       \<and> map attr_fill (location_points (updateFilters u))
           = map (\<lambda>c. if shown c then ''red'' else ''gray'') (location_points u)
       \<and> visibleCount (updateFilters u)
           = (\<Sum>c\<leftarrow>location_points u.
                if shown c then length (filter passes (movies (datum c))) else 0))
   \<and> (let passes = (\<lambda>m.
          (ToNumber (getField m ''Release Year'') = NaN
           \<or> ToNumber (getField m ''Release Year'') = Fin 0
           \<or> (jle (Fin (yearMin_value t)) (ToNumber (getField m ''Release Year''))
               \<and> jle (ToNumber (getField m ''Release Year'')) (Fin (yearMax_value t))))
          \<and> (directorFilter_value t = ''all''
              \<or> getField m ''Director'' = Some (directorFilter_value t))
          \<and> (neighborhoodFilter_value t = ''all''
              \<or> getField m ''Analysis Neighborhood'' = Some (neighborhoodFilter_value t)));
        shown = (\<lambda>c. isInCircle_km pr (km_cx c) (km_cy c) (circleA t)
                      \<and> isInCircle_km pr (km_cx c) (km_cy c) (circleB t)
                      \<and> passes (km_datum c))
    in map (\<lambda>c. (km_cx c, km_cy c, km_datum c)) (location_points (updateFilters_km pr t))
         = map (\<lambda>c. (km_cx c, km_cy c, km_datum c)) (location_points t)
       \<and> map km_fill (location_points (updateFilters_km pr t))
           = map (\<lambda>c. if shown c then ''#e74c3c'' else ''#bdc3c7'') (location_points t)
       \<and> visibleCount (updateFilters_km pr t) = length (filter shown (location_points t)))"
proof -
  have 1: "map (\<lambda>c. (attr_cx c, attr_cy c, datum c)) (location_points (updateFilters u))
         = map (\<lambda>c. (attr_cx c, attr_cy c, datum c)) (location_points u)"
    by (simp add: updateFilters_points comp_def)
  have 2: "map attr_fill (location_points (updateFilters u))
       = map (\<lambda>c. if visible u c then ''red'' else ''gray'') (location_points u)"
    by (simp add: updateFilters_points comp_def if_distrib [of attr_fill] cong: if_cong)
  have 3: "visibleCount (updateFilters u)
       = (\<Sum>c\<leftarrow>location_points u. if visible u c then length (matchingMovies u (datum c)) else 0)"
    by (rule updateFilters_count)
  have 4: "map (\<lambda>c. (km_cx c, km_cy c, km_datum c)) (location_points (updateFilters_km pr t))
         = map (\<lambda>c. (km_cx c, km_cy c, km_datum c)) (location_points t)"
    by (simp add: updateFilters_km_points comp_def)
  have 5: "map km_fill (location_points (updateFilters_km pr t))
       = map (\<lambda>c. if visible_km pr t c then ''#e74c3c'' else ''#bdc3c7'') (location_points t)"
    by (simp add: updateFilters_km_points comp_def if_distrib [of km_fill] cong: if_cong)
  have "(\<Sum>c\<leftarrow>ps. if visible_km pr t c then 1 else 0) = length (filter (visible_km pr t) ps)"
    for ps
    by (induction ps) simp_all
  then have 6: "visibleCount (updateFilters_km pr t)
      = length (filter (visible_km pr t) (location_points t))"
    by (simp add: updateFilters_km_count)
  show ?thesis
    unfolding Let_def 1 2 3 4 5 6 visible_iff visible_km_iff matchingMovies_def passes_iff
    by simp
qed

lemma example_drawn:
  "circleA (renderQueryCircles (renderDataPoints pr (populate rows examplePage)))
     = \<lparr>xc = Fin 90, yc = Fin 30, radius = Fin 50\<rparr>"
  "circleB (renderQueryCircles (renderDataPoints pr (populate rows examplePage)))
     = \<lparr>xc = Fin 110, yc = Fin 30, radius = Fin 50\<rparr>"
  "yearMin_value (renderQueryCircles (renderDataPoints pr (populate rows examplePage))) = 1960"
  "yearMax_value (renderQueryCircles (renderDataPoints pr (populate rows examplePage))) = 2023"
  "directorFilter_value (renderQueryCircles (renderDataPoints pr (populate rows examplePage))) = ''all''"
  "neighborhoodFilter_value (renderQueryCircles (renderDataPoints pr (populate rows examplePage)))
     = ''all''"
  "location_points (renderQueryCircles (renderDataPoints pr (populate rows examplePage)))
     = location_points (renderDataPoints pr (populate rows examplePage))"
  by (simp_all add: renderQueryCircles_def renderDataPoints_def populate_def examplePage_def Let_def)

text \<open>
  The small data set from the file to the first filter pass: three films (1950, 1980,
  2010; directors X, Y, X; all in the Mission) at one place inside both circles, one
  film (2000, Z, Sunset) far away, the lower year bound at 1960 and both dropdowns at
  \<^verbatim>\<open>all\<close>. The shared location is visible, the distant one hidden, and the count is 2.
  Then one control at a time is changed and the filter pass run again: the director
  X, Y or Z; the upper year bound 2000; the bounds 1950 and 1980, which are included;
  the neighborhood Sunset; one circle moved away, so that the shared location is in one
  circle only; and both circles moved onto the distant location. In the second file,
  the four rows and a fifth that has no year and no neighborhood, with a projection that
  sends every place to the pixel (90, 30), so that a kilometre is 0 pixels, and circle B
  put on circle A at that pixel: every row but the film of 1950 is visible; then the
  director X, the neighborhood Sunset, the upper year bound 2000, and circle B moved
  back, which leaves no point in it.
\<close>

theorem updateFilters_visibility_witness:
  "(let page = loaded exampleProjection exampleRows examplePage
    in map attr_fill (location_points page) = [''red'', ''gray'']
       \<and> visibleCount page = 2
       \<and> map (\<lambda>c. length (movies (datum c))) (location_points page) = [3, 1]
       \<and> map attr_fill (location_points (updateFilters (page\<lparr>directorFilter_value := ''X''\<rparr>)))
           = [''red'', ''gray'']
       \<and> visibleCount (updateFilters (page\<lparr>directorFilter_value := ''X''\<rparr>)) = 1
       \<and> visibleCount (updateFilters (page\<lparr>directorFilter_value := ''Y''\<rparr>)) = 1
       \<and> map attr_fill (location_points (updateFilters (page\<lparr>directorFilter_value := ''Z''\<rparr>)))
           = [''gray'', ''gray'']
       \<and> visibleCount (updateFilters (page\<lparr>directorFilter_value := ''Z''\<rparr>)) = 0
       \<and> map attr_fill (location_points (updateFilters (page\<lparr>yearMax_value := 2000\<rparr>)))
           = [''red'', ''gray'']
       \<and> visibleCount (updateFilters (page\<lparr>yearMax_value := 2000\<rparr>)) = 1
       \<and> visibleCount (updateFilters (page\<lparr>yearMin_value := 1950\<rparr>)) = 3
       \<and> visibleCount (updateFilters (page\<lparr>yearMax_value := 1980\<rparr>)) = 1
       \<and> visibleCount (updateFilters (page\<lparr>yearMax_value := 1979\<rparr>)) = 0
       \<and> map attr_fill
            (location_points (updateFilters (page\<lparr>neighborhoodFilter_value := ''Sunset''\<rparr>)))
           = [''gray'', ''gray'']
       \<and> visibleCount (updateFilters (page\<lparr>neighborhoodFilter_value := ''Sunset''\<rparr>)) = 0
       \<and> visibleCount (updateFilters (page\<lparr>neighborhoodFilter_value := ''Mission''\<rparr>)) = 2
       \<and> map attr_fill
            (location_points
               (updateFilters (page\<lparr>circleB := \<lparr>xc = Fin 300, yc = Fin 30, radius = Fin 50\<rparr>\<rparr>)))
           = [''gray'', ''gray'']
       \<and> visibleCount
            (updateFilters (page\<lparr>circleB := \<lparr>xc = Fin 300, yc = Fin 30, radius = Fin 50\<rparr>\<rparr>)) = 0
       \<and> map attr_fill
            (location_points
               (updateFilters (page\<lparr>circleA := \<lparr>xc = Fin 300, yc = Fin 30, radius = Fin 50\<rparr>\<rparr>)))
           = [''gray'', ''gray'']
       \<and> map attr_fill
            (location_points
               (updateFilters (page\<lparr>circleA := \<lparr>xc = Fin 0, yc = Fin 120, radius = Fin 50\<rparr>,
                                      circleB := \<lparr>xc = Fin 0, yc = Fin 120, radius = Fin 50\<rparr>,
                                      neighborhoodFilter_value := ''Sunset''\<rparr>)))
           = [''gray'', ''red'']
       \<and> visibleCount
            (updateFilters (page\<lparr>circleA := \<lparr>xc = Fin 0, yc = Fin 120, radius = Fin 50\<rparr>,
                                   circleB := \<lparr>xc = Fin 0, yc = Fin 120, radius = Fin 50\<rparr>,
                                   neighborhoodFilter_value := ''Sunset''\<rparr>)) = 1)
   \<and> (let page = loaded_km (\<lambda>p. (Fin 90, Fin 30))
                     (exampleRows @
                        [[(''Title'', ''E''), (''Release Year'', []), (''Director'', ''X''),
                          (''Longitude'', ''-122''), (''Latitude'', ''37'')]])
                     (examplePage\<lparr>circleB := \<lparr>xc = Fin 90, yc = Fin 30, radius = Fin 50\<rparr>\<rparr>)
       in map km_fill (location_points page)
            = [''#bdc3c7'', ''#e74c3c'', ''#e74c3c'', ''#e74c3c'', ''#e74c3c'']
          \<and> visibleCount page = 4
          \<and> map km_fill
               (location_points
                  (updateFilters_km (\<lambda>p. (Fin 90, Fin 30)) (page\<lparr>directorFilter_value := ''X''\<rparr>)))
              = [''#bdc3c7'', ''#bdc3c7'', ''#e74c3c'', ''#bdc3c7'', ''#e74c3c'']
          \<and> visibleCount
               (updateFilters_km (\<lambda>p. (Fin 90, Fin 30)) (page\<lparr>directorFilter_value := ''X''\<rparr>)) = 2
          \<and> map km_fill
               (location_points
                  (updateFilters_km (\<lambda>p. (Fin 90, Fin 30))
                     (page\<lparr>neighborhoodFilter_value := ''Sunset''\<rparr>)))
              = [''#bdc3c7'', ''#bdc3c7'', ''#bdc3c7'', ''#e74c3c'', ''#bdc3c7'']
          \<and> visibleCount
               (updateFilters_km (\<lambda>p. (Fin 90, Fin 30))
                  (page\<lparr>neighborhoodFilter_value := ''Sunset''\<rparr>)) = 1
          \<and> map km_fill
               (location_points
                  (updateFilters_km (\<lambda>p. (Fin 90, Fin 30)) (page\<lparr>yearMax_value := 2000\<rparr>)))
              = [''#bdc3c7'', ''#e74c3c'', ''#bdc3c7'', ''#e74c3c'', ''#e74c3c'']
          \<and> visibleCount
               (updateFilters_km (\<lambda>p. (Fin 90, Fin 30)) (page\<lparr>yearMax_value := 2000\<rparr>)) = 3
          \<and> map km_fill
               (location_points
                  (updateFilters_km (\<lambda>p. (Fin 90, Fin 30))
                     (page\<lparr>circleB := \<lparr>xc = Fin 110, yc = Fin 30, radius = Fin 50\<rparr>\<rparr>)))
              = [''#bdc3c7'', ''#bdc3c7'', ''#bdc3c7'', ''#bdc3c7'', ''#bdc3c7'']
          \<and> visibleCount
               (updateFilters_km (\<lambda>p. (Fin 90, Fin 30))
                  (page\<lparr>circleB := \<lparr>xc = Fin 110, yc = Fin 30, radius = Fin 50\<rparr>\<rparr>)) = 0)"
proof -
  let ?U = "renderQueryCircles (renderDataPoints exampleProjection (populate exampleRows examplePage))"
  let ?P = "loaded exampleProjection exampleRows examplePage"
  have l: "?P = updateFilters ?U" by (simp add: loaded_def)
  obtain m1 m2 m3 m4 where rows: "exampleRows = [m1, m2, m3, m4]"
    unfolding exampleRows_def by blast
  have y: "ToNumber (getField m1 ''Release Year'') = Fin 1950"
    "ToNumber (getField m2 ''Release Year'') = Fin 1980"
    "ToNumber (getField m3 ''Release Year'') = Fin 2010"
    "ToNumber (getField m4 ''Release Year'') = Fin 2000"
    using example_fields(1) unfolding rows by simp_all
  have d: "getField m1 ''Director'' = Some ''X''" "getField m2 ''Director'' = Some ''Y''"
    "getField m3 ''Director'' = Some ''X''" "getField m4 ''Director'' = Some ''Z''"
    using example_fields(2) unfolding rows by simp_all
  have n: "getField m1 ''Analysis Neighborhood'' = Some ''Mission''"
    "getField m2 ''Analysis Neighborhood'' = Some ''Mission''"
    "getField m3 ''Analysis Neighborhood'' = Some ''Mission''"
    "getField m4 ''Analysis Neighborhood'' = Some ''Sunset''"
    using example_fields(3) unfolding rows by simp_all
  have mv: "movies (locationData exampleRows ! 0) = [m1, m2, m3]"
    "movies (locationData exampleRows ! Suc 0) = [m4]"
    unfolding example_locations by (simp_all add: rows)
  have ptsU: "map (\<lambda>c. (attr_cx c, attr_cy c, datum c)) (location_points ?U)
      = [(Fin 100, Fin 30, locationData exampleRows ! 0), (Fin 0, Fin 120, locationData exampleRows ! 1)]"
    using example_points by (simp add: example_drawn(7))
  then obtain p1 p2 where pU: "location_points ?U = [p1, p2]"
    and p1: "attr_cx p1 = Fin 100" "attr_cy p1 = Fin 30" "movies (datum p1) = [m1, m2, m3]"
    and p2: "attr_cx p2 = Fin 0" "attr_cy p2 = Fin 120" "movies (datum p2) = [m4]"
    using mv by (auto simp: map_eq_Cons_conv)
  have ptsP: "map (\<lambda>c. (attr_cx c, attr_cy c, datum c)) (location_points ?P)
      = [(Fin 100, Fin 30, locationData exampleRows ! 0), (Fin 0, Fin 120, locationData exampleRows ! 1)]"
    using updateFilters_visibility [of ?U, unfolded Let_def, THEN conjunct1, THEN conjunct1]
    unfolding l ptsU .
  then obtain q1 q2 where pP: "location_points ?P = [q1, q2]"
    and q1: "attr_cx q1 = Fin 100" "attr_cy q1 = Fin 30" "movies (datum q1) = [m1, m2, m3]"
    and q2: "attr_cx q2 = Fin 0" "attr_cy q2 = Fin 120" "movies (datum q2) = [m4]"
    using mv by (auto simp: map_eq_Cons_conv)
  have sP: "circleA ?P = \<lparr>xc = Fin 90, yc = Fin 30, radius = Fin 50\<rparr>"
    "circleB ?P = \<lparr>xc = Fin 110, yc = Fin 30, radius = Fin 50\<rparr>"
    "yearMin_value ?P = 1960" "yearMax_value ?P = 2023"
    "directorFilter_value ?P = ''all''" "neighborhoodFilter_value ?P = ''all''"
    unfolding l by (simp_all add: updateFilters_frame example_drawn)
  note ev = isInCircle_def jsub_def Let_def y d n
  have a: "map attr_fill (location_points ?P) = [''red'', ''gray'']" "visibleCount ?P = 2"
    using updateFilters_visibility [of ?U, unfolded Let_def, THEN conjunct1]
    unfolding l by (simp_all add: pU p1 p2 example_drawn(1-6) ev)
  have b: "map (\<lambda>c. length (movies (datum c))) (location_points ?P) = [3, 1]"
    by (simp add: pP q1 q2)
  have c: "map attr_fill (location_points (updateFilters (?P\<lparr>directorFilter_value := ''X''\<rparr>)))
           = [''red'', ''gray'']"
    "visibleCount (updateFilters (?P\<lparr>directorFilter_value := ''X''\<rparr>)) = 1"
    using updateFilters_visibility
      [of "?P\<lparr>directorFilter_value := ''X''\<rparr>", unfolded Let_def, THEN conjunct1]
    by (simp_all add: pP q1 q2 sP ev)
  have e: "visibleCount (updateFilters (?P\<lparr>directorFilter_value := ''Y''\<rparr>)) = 1"
    using updateFilters_visibility
      [of "?P\<lparr>directorFilter_value := ''Y''\<rparr>", unfolded Let_def, THEN conjunct1]
    by (simp_all add: pP q1 q2 sP ev)
  have f: "map attr_fill (location_points (updateFilters (?P\<lparr>directorFilter_value := ''Z''\<rparr>)))
           = [''gray'', ''gray'']"
    "visibleCount (updateFilters (?P\<lparr>directorFilter_value := ''Z''\<rparr>)) = 0"
    using updateFilters_visibility
      [of "?P\<lparr>directorFilter_value := ''Z''\<rparr>", unfolded Let_def, THEN conjunct1]
    by (simp_all add: pP q1 q2 sP ev)
  have g: "map attr_fill (location_points (updateFilters (?P\<lparr>yearMax_value := 2000\<rparr>)))
           = [''red'', ''gray'']"
    "visibleCount (updateFilters (?P\<lparr>yearMax_value := 2000\<rparr>)) = 1"
    using updateFilters_visibility
      [of "?P\<lparr>yearMax_value := 2000\<rparr>", unfolded Let_def, THEN conjunct1]
    by (simp_all add: pP q1 q2 sP ev)
  have h: "visibleCount (updateFilters (?P\<lparr>yearMin_value := 1950\<rparr>)) = 3"
    using updateFilters_visibility
      [of "?P\<lparr>yearMin_value := 1950\<rparr>", unfolded Let_def, THEN conjunct1]
    by (simp_all add: pP q1 q2 sP ev)
  have i: "visibleCount (updateFilters (?P\<lparr>yearMax_value := 1980\<rparr>)) = 1"
    using updateFilters_visibility
      [of "?P\<lparr>yearMax_value := 1980\<rparr>", unfolded Let_def, THEN conjunct1]
    by (simp_all add: pP q1 q2 sP ev)
  have j: "visibleCount (updateFilters (?P\<lparr>yearMax_value := 1979\<rparr>)) = 0"
    using updateFilters_visibility
      [of "?P\<lparr>yearMax_value := 1979\<rparr>", unfolded Let_def, THEN conjunct1]
    by (simp_all add: pP q1 q2 sP ev)
  have k: "map attr_fill
            (location_points (updateFilters (?P\<lparr>neighborhoodFilter_value := ''Sunset''\<rparr>)))
           = [''gray'', ''gray'']"
    "visibleCount (updateFilters (?P\<lparr>neighborhoodFilter_value := ''Sunset''\<rparr>)) = 0"
    using updateFilters_visibility
      [of "?P\<lparr>neighborhoodFilter_value := ''Sunset''\<rparr>", unfolded Let_def, THEN conjunct1]
    by (simp_all add: pP q1 q2 sP ev)
  have m: "visibleCount (updateFilters (?P\<lparr>neighborhoodFilter_value := ''Mission''\<rparr>)) = 2"
    using updateFilters_visibility
      [of "?P\<lparr>neighborhoodFilter_value := ''Mission''\<rparr>", unfolded Let_def, THEN conjunct1]
    by (simp_all add: pP q1 q2 sP ev)
  have o: "map attr_fill
            (location_points
               (updateFilters (?P\<lparr>circleB := \<lparr>xc = Fin 300, yc = Fin 30, radius = Fin 50\<rparr>\<rparr>)))
           = [''gray'', ''gray'']"
    "visibleCount
            (updateFilters (?P\<lparr>circleB := \<lparr>xc = Fin 300, yc = Fin 30, radius = Fin 50\<rparr>\<rparr>)) = 0"
    using updateFilters_visibility
      [of "?P\<lparr>circleB := \<lparr>xc = Fin 300, yc = Fin 30, radius = Fin 50\<rparr>\<rparr>", unfolded Let_def,
       THEN conjunct1]
    by (simp_all add: pP q1 q2 sP ev)
  have p: "map attr_fill
            (location_points
               (updateFilters (?P\<lparr>circleA := \<lparr>xc = Fin 300, yc = Fin 30, radius = Fin 50\<rparr>\<rparr>)))
           = [''gray'', ''gray'']"
    using updateFilters_visibility
      [of "?P\<lparr>circleA := \<lparr>xc = Fin 300, yc = Fin 30, radius = Fin 50\<rparr>\<rparr>", unfolded Let_def,
       THEN conjunct1]
    by (simp_all add: pP q1 q2 sP ev)
  have q: "map attr_fill
            (location_points
               (updateFilters (?P\<lparr>circleA := \<lparr>xc = Fin 0, yc = Fin 120, radius = Fin 50\<rparr>,
                                    circleB := \<lparr>xc = Fin 0, yc = Fin 120, radius = Fin 50\<rparr>,
                                    neighborhoodFilter_value := ''Sunset''\<rparr>)))
           = [''gray'', ''red'']"
    "visibleCount
            (updateFilters (?P\<lparr>circleA := \<lparr>xc = Fin 0, yc = Fin 120, radius = Fin 50\<rparr>,
                                 circleB := \<lparr>xc = Fin 0, yc = Fin 120, radius = Fin 50\<rparr>,
                                 neighborhoodFilter_value := ''Sunset''\<rparr>)) = 1"
    using updateFilters_visibility
      [of "?P\<lparr>circleA := \<lparr>xc = Fin 0, yc = Fin 120, radius = Fin 50\<rparr>,
               circleB := \<lparr>xc = Fin 0, yc = Fin 120, radius = Fin 50\<rparr>,
               neighborhoodFilter_value := ''Sunset''\<rparr>", unfolded Let_def, THEN conjunct1]
    by (simp_all add: pP q1 q2 sP ev)
  let ?pr = "\<lambda>p :: jsnum \<times> jsnum. (Fin 90, Fin 30)"
  let ?E = "[(''Title'', ''E''), (''Release Year'', []), (''Director'', ''X''),
             (''Longitude'', ''-122''), (''Latitude'', ''37'')]"
  let ?T = "examplePage\<lparr>circleB := \<lparr>xc = Fin 90, yc = Fin 30, radius = Fin 50\<rparr>\<rparr> :: point_km page"
  let ?V = "renderQueryCircles_km ?pr (renderDataPoints_km ?pr (populate (exampleRows @ [?E]) ?T))"
  let ?Q = "loaded_km ?pr (exampleRows @ [?E]) ?T"
  have lk: "?Q = updateFilters_km ?pr ?V" by (simp add: loaded_km_def)
  have fE: "ToNumber (getField ?E ''Release Year'') = Fin 0" "getField ?E ''Director'' = Some ''X''"
    "getField ?E ''Analysis Neighborhood'' = None"
    by (simp_all add: ToNumber_def getField_def StringToNumber_defs)
  have hE: "hasCoordinates ?E"
    by (simp add: hasCoordinates_def ToNumber_def getField_def StringToNumber_defs)
  have "\<forall>m\<in>set exampleRows. hasCoordinates m"
    using example_rows_kept by (metis filter_id_conv)
  then have hm: "hasCoordinates m1" "hasCoordinates m2" "hasCoordinates m3" "hasCoordinates m4"
    unfolding rows by simp_all
  have km: "kmToPixels ?pr (Fin 50) = Fin 0"
    by (simp add: kmToPixels_def Let_def jsub_def)
  have sV: "circleA ?V = \<lparr>xc = Fin 90, yc = Fin 30, radius = Fin 50\<rparr>"
    "circleB ?V = \<lparr>xc = Fin 90, yc = Fin 30, radius = Fin 50\<rparr>"
    "yearMin_value ?V = 1960" "yearMax_value ?V = 2023"
    "directorFilter_value ?V = ''all''" "neighborhoodFilter_value ?V = ''all''"
    by (simp_all add: renderQueryCircles_km_def renderDataPoints_km_def populate_def
        examplePage_def Let_def)
  have ptsV: "map (\<lambda>c. (km_cx c, km_cy c, km_datum c)) (location_points ?V)
      = [(Fin 90, Fin 30, m1), (Fin 90, Fin 30, m2), (Fin 90, Fin 30, m3), (Fin 90, Fin 30, m4),
         (Fin 90, Fin 30, ?E)]"
    by (simp add: renderQueryCircles_km_def renderDataPoints_km_def populate_allData
        populate_points rows hE hm examplePage_def)
  then obtain v1 v2 v3 v4 v5 where pV: "location_points ?V = [v1, v2, v3, v4, v5]"
    and v: "km_cx v1 = Fin 90" "km_cy v1 = Fin 30" "km_datum v1 = m1"
      "km_cx v2 = Fin 90" "km_cy v2 = Fin 30" "km_datum v2 = m2"
      "km_cx v3 = Fin 90" "km_cy v3 = Fin 30" "km_datum v3 = m3"
      "km_cx v4 = Fin 90" "km_cy v4 = Fin 30" "km_datum v4 = m4"
      "km_cx v5 = Fin 90" "km_cy v5 = Fin 30" "km_datum v5 = ?E"
    by (auto simp: map_eq_Cons_conv)
  have ptsQ: "map (\<lambda>c. (km_cx c, km_cy c, km_datum c)) (location_points ?Q)
      = [(Fin 90, Fin 30, m1), (Fin 90, Fin 30, m2), (Fin 90, Fin 30, m3), (Fin 90, Fin 30, m4),
         (Fin 90, Fin 30, ?E)]"
    using updateFilters_visibility [of _ ?V ?pr, unfolded Let_def, THEN conjunct2, THEN conjunct1]
    unfolding lk ptsV .
  then obtain w1 w2 w3 w4 w5 where pQ: "location_points ?Q = [w1, w2, w3, w4, w5]"
    and w: "km_cx w1 = Fin 90" "km_cy w1 = Fin 30" "km_datum w1 = m1"
      "km_cx w2 = Fin 90" "km_cy w2 = Fin 30" "km_datum w2 = m2"
      "km_cx w3 = Fin 90" "km_cy w3 = Fin 30" "km_datum w3 = m3"
      "km_cx w4 = Fin 90" "km_cy w4 = Fin 30" "km_datum w4 = m4"
      "km_cx w5 = Fin 90" "km_cy w5 = Fin 30" "km_datum w5 = ?E"
    by (auto simp: map_eq_Cons_conv)
  have sQ: "circleA ?Q = \<lparr>xc = Fin 90, yc = Fin 30, radius = Fin 50\<rparr>"
    "circleB ?Q = \<lparr>xc = Fin 90, yc = Fin 30, radius = Fin 50\<rparr>"
    "yearMin_value ?Q = 1960" "yearMax_value ?Q = 2023"
    "directorFilter_value ?Q = ''all''" "neighborhoodFilter_value ?Q = ''all''"
    unfolding lk by (simp_all add: updateFilters_km_frame sV)
  note evk = isInCircle_km_def km jsub_def Let_def y d n fE
  have ka: "map km_fill (location_points ?Q)
            = [''#bdc3c7'', ''#e74c3c'', ''#e74c3c'', ''#e74c3c'', ''#e74c3c'']"
    "visibleCount ?Q = 4"
    using updateFilters_visibility [of _ ?V ?pr, unfolded Let_def, THEN conjunct2]
    unfolding lk by (simp_all add: pV v sV evk)
  have kb: "map km_fill
               (location_points (updateFilters_km ?pr (?Q\<lparr>directorFilter_value := ''X''\<rparr>)))
              = [''#bdc3c7'', ''#bdc3c7'', ''#e74c3c'', ''#bdc3c7'', ''#e74c3c'']"
    "visibleCount (updateFilters_km ?pr (?Q\<lparr>directorFilter_value := ''X''\<rparr>)) = 2"
    using updateFilters_visibility
      [of _ "?Q\<lparr>directorFilter_value := ''X''\<rparr>" ?pr, unfolded Let_def, THEN conjunct2]
    by (simp_all add: pQ w sQ evk)
  have kc: "map km_fill
               (location_points (updateFilters_km ?pr (?Q\<lparr>neighborhoodFilter_value := ''Sunset''\<rparr>)))
              = [''#bdc3c7'', ''#bdc3c7'', ''#bdc3c7'', ''#e74c3c'', ''#bdc3c7'']"
    "visibleCount (updateFilters_km ?pr (?Q\<lparr>neighborhoodFilter_value := ''Sunset''\<rparr>)) = 1"
    using updateFilters_visibility
      [of _ "?Q\<lparr>neighborhoodFilter_value := ''Sunset''\<rparr>" ?pr, unfolded Let_def, THEN conjunct2]
    by (simp_all add: pQ w sQ evk)
  have kd: "map km_fill
               (location_points (updateFilters_km ?pr (?Q\<lparr>yearMax_value := 2000\<rparr>)))
              = [''#bdc3c7'', ''#e74c3c'', ''#bdc3c7'', ''#e74c3c'', ''#e74c3c'']"
    "visibleCount (updateFilters_km ?pr (?Q\<lparr>yearMax_value := 2000\<rparr>)) = 3"
    using updateFilters_visibility
      [of _ "?Q\<lparr>yearMax_value := 2000\<rparr>" ?pr, unfolded Let_def, THEN conjunct2]
    by (simp_all add: pQ w sQ evk)
  have ke: "map km_fill
               (location_points
                  (updateFilters_km ?pr
                     (?Q\<lparr>circleB := \<lparr>xc = Fin 110, yc = Fin 30, radius = Fin 50\<rparr>\<rparr>)))
              = [''#bdc3c7'', ''#bdc3c7'', ''#bdc3c7'', ''#bdc3c7'', ''#bdc3c7'']"
    "visibleCount
       (updateFilters_km ?pr (?Q\<lparr>circleB := \<lparr>xc = Fin 110, yc = Fin 30, radius = Fin 50\<rparr>\<rparr>)) = 0"
    using updateFilters_visibility
      [of _ "?Q\<lparr>circleB := \<lparr>xc = Fin 110, yc = Fin 30, radius = Fin 50\<rparr>\<rparr>" ?pr,
       unfolded Let_def, THEN conjunct2]
    by (simp_all add: pQ w sQ evk)
  have script: "map attr_fill (location_points ?P) = [''red'', ''gray'']
       \<and> visibleCount ?P = 2
       \<and> map (\<lambda>c. length (movies (datum c))) (location_points ?P) = [3, 1]
       \<and> map attr_fill (location_points (updateFilters (?P\<lparr>directorFilter_value := ''X''\<rparr>)))
           = [''red'', ''gray'']
       \<and> visibleCount (updateFilters (?P\<lparr>directorFilter_value := ''X''\<rparr>)) = 1
       \<and> visibleCount (updateFilters (?P\<lparr>directorFilter_value := ''Y''\<rparr>)) = 1
       \<and> map attr_fill (location_points (updateFilters (?P\<lparr>directorFilter_value := ''Z''\<rparr>)))
           = [''gray'', ''gray'']
       \<and> visibleCount (updateFilters (?P\<lparr>directorFilter_value := ''Z''\<rparr>)) = 0
       \<and> map attr_fill (location_points (updateFilters (?P\<lparr>yearMax_value := 2000\<rparr>)))
           = [''red'', ''gray'']
       \<and> visibleCount (updateFilters (?P\<lparr>yearMax_value := 2000\<rparr>)) = 1
       \<and> visibleCount (updateFilters (?P\<lparr>yearMin_value := 1950\<rparr>)) = 3
       \<and> visibleCount (updateFilters (?P\<lparr>yearMax_value := 1980\<rparr>)) = 1
       \<and> visibleCount (updateFilters (?P\<lparr>yearMax_value := 1979\<rparr>)) = 0
       \<and> map attr_fill
            (location_points (updateFilters (?P\<lparr>neighborhoodFilter_value := ''Sunset''\<rparr>)))
           = [''gray'', ''gray'']
       \<and> visibleCount (updateFilters (?P\<lparr>neighborhoodFilter_value := ''Sunset''\<rparr>)) = 0
       \<and> visibleCount (updateFilters (?P\<lparr>neighborhoodFilter_value := ''Mission''\<rparr>)) = 2
       \<and> map attr_fill
            (location_points
               (updateFilters (?P\<lparr>circleB := \<lparr>xc = Fin 300, yc = Fin 30, radius = Fin 50\<rparr>\<rparr>)))
           = [''gray'', ''gray'']
       \<and> visibleCount
            (updateFilters (?P\<lparr>circleB := \<lparr>xc = Fin 300, yc = Fin 30, radius = Fin 50\<rparr>\<rparr>)) = 0
       \<and> map attr_fill
            (location_points
               (updateFilters (?P\<lparr>circleA := \<lparr>xc = Fin 300, yc = Fin 30, radius = Fin 50\<rparr>\<rparr>)))
           = [''gray'', ''gray'']
       \<and> map attr_fill
            (location_points
               (updateFilters (?P\<lparr>circleA := \<lparr>xc = Fin 0, yc = Fin 120, radius = Fin 50\<rparr>,
                                    circleB := \<lparr>xc = Fin 0, yc = Fin 120, radius = Fin 50\<rparr>,
                                    neighborhoodFilter_value := ''Sunset''\<rparr>)))
           = [''gray'', ''red'']
       \<and> visibleCount
            (updateFilters (?P\<lparr>circleA := \<lparr>xc = Fin 0, yc = Fin 120, radius = Fin 50\<rparr>,
                                 circleB := \<lparr>xc = Fin 0, yc = Fin 120, radius = Fin 50\<rparr>,
                                 neighborhoodFilter_value := ''Sunset''\<rparr>)) = 1"
    by (intro conjI a b c e f g h i j k m o p q)
  have second: "map km_fill (location_points ?Q)
            = [''#bdc3c7'', ''#e74c3c'', ''#e74c3c'', ''#e74c3c'', ''#e74c3c'']
          \<and> visibleCount ?Q = 4
          \<and> map km_fill
               (location_points (updateFilters_km ?pr (?Q\<lparr>directorFilter_value := ''X''\<rparr>)))
              = [''#bdc3c7'', ''#bdc3c7'', ''#e74c3c'', ''#bdc3c7'', ''#e74c3c'']
          \<and> visibleCount (updateFilters_km ?pr (?Q\<lparr>directorFilter_value := ''X''\<rparr>)) = 2
          \<and> map km_fill
               (location_points (updateFilters_km ?pr (?Q\<lparr>neighborhoodFilter_value := ''Sunset''\<rparr>)))
              = [''#bdc3c7'', ''#bdc3c7'', ''#bdc3c7'', ''#e74c3c'', ''#bdc3c7'']
          \<and> visibleCount (updateFilters_km ?pr (?Q\<lparr>neighborhoodFilter_value := ''Sunset''\<rparr>)) = 1
          \<and> map km_fill
               (location_points (updateFilters_km ?pr (?Q\<lparr>yearMax_value := 2000\<rparr>)))
              = [''#bdc3c7'', ''#e74c3c'', ''#bdc3c7'', ''#e74c3c'', ''#e74c3c'']
          \<and> visibleCount (updateFilters_km ?pr (?Q\<lparr>yearMax_value := 2000\<rparr>)) = 3
          \<and> map km_fill
               (location_points
                  (updateFilters_km ?pr
                     (?Q\<lparr>circleB := \<lparr>xc = Fin 110, yc = Fin 30, radius = Fin 50\<rparr>\<rparr>)))
              = [''#bdc3c7'', ''#bdc3c7'', ''#bdc3c7'', ''#bdc3c7'', ''#bdc3c7'']
          \<and> visibleCount
               (updateFilters_km ?pr
                  (?Q\<lparr>circleB := \<lparr>xc = Fin 110, yc = Fin 30, radius = Fin 50\<rparr>\<rparr>)) = 0"
    by (intro conjI ka kb kc kd ke)
  show ?thesis
    unfolding Let_def using script second by (rule conjI)
qed


text \<open>
  The same points with circle B moved away from circle A: no point of the plane is in
  both, every point is hidden and the count is 0. In the second file, with two circles
  of radius 0 at different centres.
\<close>

theorem isInIntersection_and_witness:
  "(\<forall>qx qy. \<not> isInIntersection qx qy
       ((renderDataPoints exampleProjection (populate exampleRows examplePage))
          \<lparr>circleB := \<lparr>xc = Fin 300, yc = Fin 30, radius = Fin 50\<rparr>\<rparr>))
   \<and> visibleCount (updateFilters
       ((renderDataPoints exampleProjection (populate exampleRows examplePage))
          \<lparr>circleB := \<lparr>xc = Fin 300, yc = Fin 30, radius = Fin 50\<rparr>\<rparr>)) = 0
   \<and> length (location_points (updateFilters
       ((renderDataPoints exampleProjection (populate exampleRows examplePage))
          \<lparr>circleB := \<lparr>xc = Fin 300, yc = Fin 30, radius = Fin 50\<rparr>\<rparr>))) = 2
   \<and> list_all (\<lambda>c. attr_fill c = ''gray'') (location_points (updateFilters
       ((renderDataPoints exampleProjection (populate exampleRows examplePage))
          \<lparr>circleB := \<lparr>xc = Fin 300, yc = Fin 30, radius = Fin 50\<rparr>\<rparr>)))
   \<and> (\<forall>qx qy. \<not> isInIntersection_km exampleProjection qx qy
       ((renderDataPoints_km exampleProjection (populate exampleRows examplePage))
          \<lparr>circleA := \<lparr>xc = Fin 90, yc = Fin 30, radius = Fin 0\<rparr>,
           circleB := \<lparr>xc = Fin 300, yc = Fin 30, radius = Fin 0\<rparr>\<rparr>))
   \<and> visibleCount (updateFilters_km exampleProjection
       ((renderDataPoints_km exampleProjection (populate exampleRows examplePage))
          \<lparr>circleA := \<lparr>xc = Fin 90, yc = Fin 30, radius = Fin 0\<rparr>,
           circleB := \<lparr>xc = Fin 300, yc = Fin 30, radius = Fin 0\<rparr>\<rparr>)) = 0
   \<and> length (location_points (updateFilters_km exampleProjection
       ((renderDataPoints_km exampleProjection (populate exampleRows examplePage))
          \<lparr>circleA := \<lparr>xc = Fin 90, yc = Fin 30, radius = Fin 0\<rparr>,
           circleB := \<lparr>xc = Fin 300, yc = Fin 30, radius = Fin 0\<rparr>\<rparr>))) = 4"
proof -
  let ?u = "(renderDataPoints exampleProjection (populate exampleRows examplePage))
          \<lparr>circleB := \<lparr>xc = Fin 300, yc = Fin 30, radius = Fin 50\<rparr>\<rparr>"
  let ?t = "(renderDataPoints_km exampleProjection (populate exampleRows examplePage))
          \<lparr>circleA := \<lparr>xc = Fin 90, yc = Fin 30, radius = Fin 0\<rparr>,
           circleB := \<lparr>xc = Fin 300, yc = Fin 30, radius = Fin 0\<rparr>\<rparr>"
  have cA: "circleA ?u = \<lparr>xc = Fin 90, yc = Fin 30, radius = Fin 50\<rparr>"
    by (simp add: renderDataPoints_def populate_def examplePage_def Let_def)
  have du: "\<forall>qx qy. \<not> isInIntersection qx qy ?u"
    using example_disjoint by (simp add: isInIntersection_def cA)
  have dt: "\<forall>qx qy. \<not> isInIntersection_km exampleProjection qx qy ?t"
    using example_disjoint_km by (simp add: isInIntersection_km_def)
  have lu: "length (location_points ?u) = 2"
    by (simp add: renderDataPoints_def populate_allData populate_points example_rows_kept
        example_locations Let_def examplePage_def)
  have "length exampleRows = 4" by (simp add: exampleRows_def)
  then have lt: "length (location_points ?t) = 4"
    by (simp add: renderDataPoints_km_def populate_allData populate_points example_rows_kept
        examplePage_def)
  from isInIntersection_and [where u = ?u and pr = exampleProjection and t = ?t] du dt
  have "visibleCount (updateFilters ?u) = 0
        \<and> length (location_points (updateFilters ?u)) = length (location_points ?u)
        \<and> (\<forall>c\<in>set (location_points (updateFilters ?u)). attr_fill c = ''gray'')
        \<and> visibleCount (updateFilters_km exampleProjection ?t) = 0
        \<and> length (location_points (updateFilters_km exampleProjection ?t))
            = length (location_points ?t)"
    by blast
  then show ?thesis using du dt lu lt unfolding list_all_iff by simp
qed

section \<open>The radius of a point\<close>

lemma d3_max_Max: "ns \<noteq> [] \<Longrightarrow> d3_max ns = Some (Max (set ns))"
proof (cases ns)
  case Nil
  then show "ns \<noteq> [] \<Longrightarrow> ?thesis" by simp
next
  case (Cons n ms)
  have "fold max ms n = Max (set (n # ms))" by (rule Max.set_eq_fold [symmetric])
  then show ?thesis unfolding Cons by simp
qed

lemma sqrtScale_single: "sqrtScale (1, 1) (3, 10) n = 3"
  by (simp add: sqrtScale_def)

text \<open>
  The scale on the domain from 1 to \<open>m\<close>: constant on a single-element domain, the ends
  of the range at the ends of the domain, and within the range in between.
\<close>

lemma sqrtScale_ends:
  "sqrtScale (1, m) (3, 10) 1 = 3"
  "1 < m \<Longrightarrow> sqrtScale (1, m) (3, 10) m = 10"
  by (simp_all add: sqrtScale_def)

lemma sqrtScale_range:
  assumes "1 \<le> n" and "n \<le> m"
  shows "3 \<le> sqrtScale (1, m) (3, 10) n \<and> sqrtScale (1, m) (3, 10) n \<le> 10"
proof (cases "m = 1")
  case True
  then show ?thesis by (simp add: sqrtScale_def)
next
  case False
  with assms have m: "1 < m" by simp
  then have d: "0 < sqrt m - 1" by simp
  have n0: "0 \<le> sqrt n - 1" using assms(1) by simp
  have nm: "sqrt n - 1 \<le> sqrt m - 1" using assms(2) by simp
  have q0: "0 \<le> (sqrt n - 1) / (sqrt m - 1)" using n0 d by simp
  have q1: "(sqrt n - 1) / (sqrt m - 1) \<le> 1" using nm d by simp
  have "sqrtScale (1, m) (3, 10) n = 3 + (sqrt n - 1) / (sqrt m - 1) * 7"
    using False by (simp add: sqrtScale_def)
  moreover have "0 \<le> (sqrt n - 1) / (sqrt m - 1) * 7"
    using q0 by (rule mult_nonneg_nonneg) simp
  moreover have "(sqrt n - 1) / (sqrt m - 1) * 7 \<le> 1 * 7"
    using q1 by (rule mult_right_mono) simp
  ultimately show ?thesis by linarith
qed

lemma renderDataPoints_points:
  assumes "location_points s = []"
  shows "location_points (renderDataPoints pr s) =
     map (\<lambda>d.
          \<lparr>attr_cx = fst (pr (ToNumber (longitude d), ToNumber (latitude d))),
           attr_cy = snd (pr (ToNumber (longitude d), ToNumber (latitude d))),
           attr_r = radiusScale (d3_max (map (\<lambda>d. length (movies d)) (locationData (allData s))))
                      (length (movies d)),
           attr_data_base_radius =
             radiusScale (d3_max (map (\<lambda>d. length (movies d)) (locationData (allData s))))
               (length (movies d)),
           attr_data_movie_count = length (movies d),
           attr_fill = ''red'',
           attr_opacity = 0.7,
           datum = d\<rparr>) (locationData (allData s))"
  using assms by (simp add: renderDataPoints_def Let_def)

text \<open>
  C6. \<^verbatim>\<open>renderDataPoints\<close> draws one point for each location, in order, and gives it
  as radius, and as stored base radius, the square-root scale of its member count, for
  the domain from 1 to the largest member count of all locations and the range from 3
  to 10; the radius lies between 3 and 10. When every location has one member the domain
  is the single number 1, nothing is divided, and every radius is 3.
\<close>

theorem radius_is_sqrtScale_of_count:
  "(location_points s = [] \<longrightarrow>
      map datum (location_points (renderDataPoints pr s)) = locationData (allData s)
      \<and> (\<forall>c\<in>set (location_points (renderDataPoints pr s)).
            attr_r c = Fin (sqrtScale
                             (1, real (Max (set (map (\<lambda>d. length (movies d))
                                                  (locationData (allData s))))))
                             (3, 10) (real (length (movies (datum c)))))
            \<and> attr_data_base_radius c = attr_r c
            \<and> jle (Fin 3) (attr_r c) \<and> jle (attr_r c) (Fin 10))
      \<and> ((\<forall>d\<in>set (locationData (allData s)). length (movies d) = 1) \<longrightarrow>
            (\<forall>c\<in>set (location_points (renderDataPoints pr s)). attr_r c = Fin 3)))
   \<and> sqrtScale (1, 1) (3, 10) n = 3"
proof -
  let ?locs = "locationData (allData s)"
  let ?counts = "map (\<lambda>d. length (movies d)) ?locs"
  let ?mx = "Max (set ?counts)"
  have main: "map datum (location_points (renderDataPoints pr s)) = ?locs
      \<and> (\<forall>c\<in>set (location_points (renderDataPoints pr s)).
            attr_r c = Fin (sqrtScale (1, real ?mx) (3, 10) (real (length (movies (datum c)))))
            \<and> attr_data_base_radius c = attr_r c
            \<and> jle (Fin 3) (attr_r c) \<and> jle (attr_r c) (Fin 10))
      \<and> ((\<forall>d\<in>set ?locs. length (movies d) = 1) \<longrightarrow>
            (\<forall>c\<in>set (location_points (renderDataPoints pr s)). attr_r c = Fin 3))"
    if e: "location_points s = []"
  proof -
    note pts = renderDataPoints_points [OF e, of pr]
    have dat: "map datum (location_points (renderDataPoints pr s)) = ?locs"
      unfolding pts by (simp add: comp_def)
    have each: "attr_r c = Fin (sqrtScale (1, real ?mx) (3, 10) (real (length (movies (datum c)))))
            \<and> attr_data_base_radius c = attr_r c
            \<and> jle (Fin 3) (attr_r c) \<and> jle (attr_r c) (Fin 10)"
      if c: "c \<in> set (location_points (renderDataPoints pr s))" for c
    proof -
      from c obtain d where d: "d \<in> set ?locs" and cd: "datum c = d"
        "attr_r c = radiusScale (d3_max ?counts) (length (movies d))"
        "attr_data_base_radius c = radiusScale (d3_max ?counts) (length (movies d))"
        unfolding pts by auto
      from d have ne: "?counts \<noteq> []" by auto
      have mx: "d3_max ?counts = Some ?mx" by (rule d3_max_Max [OF ne])
      have le: "length (movies d) \<le> ?mx" using d by (intro Max_ge) auto
      have ge: "1 \<le> length (movies d)"
        using locationData_members [OF d] by (cases "movies d") simp_all
      have r: "attr_r c = Fin (sqrtScale (1, real ?mx) (3, 10) (real (length (movies d))))"
        by (simp add: cd mx radiusScale_def)
      have "1 \<le> real (length (movies d))" "real (length (movies d)) \<le> real ?mx"
        using ge le by simp_all
      from sqrtScale_range [OF this] show ?thesis
        using r cd by simp
    qed
    have single: "attr_r c = Fin 3"
      if one: "\<forall>d\<in>set ?locs. length (movies d) = 1"
        and c: "c \<in> set (location_points (renderDataPoints pr s))" for c
    proof -
      from c have "datum c \<in> set (map datum (location_points (renderDataPoints pr s)))" by simp
      then have d: "datum c \<in> set ?locs" unfolding dat .
      then have "set ?counts = {1}" using one by auto
      then have "?mx = 1" by simp
      then show ?thesis using each [OF c] by (simp add: sqrtScale_single)
    qed
    show ?thesis using dat each single by blast
  qed
  show ?thesis using main sqrtScale_single by blast
qed


text \<open>
  The small data set: the location of three films has radius 10, the other radius 3.
  The last row alone: one location of one member, of radius 3.
\<close>

lemma example_single:
  "locationData (drop 3 exampleRows) =
     [\<lparr>longitude = Some ''-123'', latitude = Some ''34'',
       movies = drop 3 exampleRows, data = exampleRows ! 3\<rparr>]"
  by (simp add: locationData_def buildLocationMap_def addToLocationMap_def Map_has_def Map_set_def
      Map_push_def locationKey_def getField_def ToString_def exampleRows_def Let_def)

theorem radius_is_sqrtScale_of_count_witness:
  "location_points (examplePage\<lparr>allData := exampleRows\<rparr> :: point page) = []
   \<and> map attr_r (location_points
        (renderDataPoints exampleProjection (examplePage\<lparr>allData := exampleRows\<rparr>)))
       = [Fin 10, Fin 3]
   \<and> list_all (\<lambda>d. length (movies d) = 1) (locationData (drop 3 exampleRows))
   \<and> map attr_r (location_points
        (renderDataPoints exampleProjection (examplePage\<lparr>allData := drop 3 exampleRows\<rparr>)))
       = [Fin 3]"
proof -
  let ?s = "examplePage\<lparr>allData := exampleRows\<rparr> :: point page"
  let ?t = "examplePage\<lparr>allData := drop 3 exampleRows\<rparr> :: point page"
  have e: "location_points ?s = []" "location_points ?t = []" by (simp_all add: examplePage_def)
  have a: "allData ?s = exampleRows" "allData ?t = drop 3 exampleRows" by simp_all
  have n: "length exampleRows = 4" by (simp add: exampleRows_def)
  have one: "\<forall>d\<in>set (locationData (allData ?t)). length (movies d) = 1"
    unfolding a example_single by (simp add: n)
  note s = radius_is_sqrtScale_of_count [of ?s exampleProjection]
  note t = radius_is_sqrtScale_of_count [of ?t exampleProjection]
  have "map datum (location_points (renderDataPoints exampleProjection ?s)) = locationData exampleRows"
    using s e by simp
  then obtain p1 p2
    where ps: "location_points (renderDataPoints exampleProjection ?s) = [p1, p2]"
      and p1: "datum p1 = locationData exampleRows ! 0"
      and p2: "datum p2 = locationData exampleRows ! 1"
    unfolding example_locations by (auto simp: map_eq_Cons_conv)
  have r1: "attr_r p1 = Fin 10" "attr_r p2 = Fin 3"
    using s e unfolding ps a by (simp_all add: p1 p2 example_locations n sqrtScale_ends)
  have "map datum (location_points (renderDataPoints exampleProjection ?t))
      = locationData (drop 3 exampleRows)"
    using t e by simp
  then obtain q where qs: "location_points (renderDataPoints exampleProjection ?t) = [q]"
    unfolding example_single by (auto simp: map_eq_Cons_conv)
  from t e one
  have "\<forall>c\<in>set (location_points (renderDataPoints exampleProjection ?t)). attr_r c = Fin 3"
    by blast
  then have r2: "attr_r q = Fin 3" unfolding qs by simp
  show ?thesis
    using e(1) one r1 r2 unfolding ps qs a list_all_iff by simp
qed

end
